(* ===== verification/Prelude.thy ===== *)
theory Prelude
  imports Main "HOL-Library.Multiset" "HOL-Library.Word" "HOL-Library.Monad_Syntax"
begin

text \<open>
  What every component shares: the machine types of \<open>core_portme.h\<close>, byte and
  element memories as lists whose out-of-range accesses are undefined behaviour
  (\<^term>\<open>None\<close>), the counted loop of C with its invariant rule, and a few generic
  facts about words and lists.  Signed C values are kept as words and read with
  \<^const>\<open>sint\<close>; conversions between widths are \<^const>\<open>ucast\<close> and \<^const>\<open>scast\<close>.
\<close>

unbundle bit_operations_syntax

section \<open>Machine types\<close>

type_synonym ee_u8 = "8 word"
type_synonym ee_u16 = "16 word"
type_synonym ee_s16 = "16 word"
type_synonym ee_u32 = "32 word"
type_synonym ee_s32 = "32 word"

named_theorems loop_simps \<open>unfolding equations of the loops\<close>

text \<open>The range of a C \<open>int\<close>: a result outside it is undefined.\<close>

definition int32 :: "int \<Rightarrow> int option" where
  "int32 x = (if - (2 ^ 31) \<le> x \<and> x < 2 ^ 31 then Some x else None)"

lemma int32_in [simp]: "0 \<le> x \<Longrightarrow> x < 2 ^ 31 \<Longrightarrow> int32 x = Some x"
  by (simp add: int32_def)

section \<open>Arrays with checked accesses\<close>

definition rd :: "'a list \<Rightarrow> nat \<Rightarrow> 'a option" where
  "rd m i = (if i < length m then Some (m ! i) else None)"

definition wr :: "'a list \<Rightarrow> nat \<Rightarrow> 'a \<Rightarrow> 'a list option" where
  "wr m i v = (if i < length m then Some (m[i := v]) else None)"

lemma rd_in [simp]: "i < length m \<Longrightarrow> rd m i = Some (m ! i)"
  by (simp add: rd_def)

lemma rd_out [simp]: "length m \<le> i \<Longrightarrow> rd m i = None"
  by (simp add: rd_def)

lemma wr_in [simp]: "i < length m \<Longrightarrow> wr m i v = Some (m[i := v])"
  by (simp add: wr_def)

lemma wr_out [simp]: "length m \<le> i \<Longrightarrow> wr m i v = None"
  by (simp add: wr_def)

lemma rd_Some_iff: "rd m i = Some v \<longleftrightarrow> i < length m \<and> m ! i = v"
  by (auto simp: rd_def)

lemma rd_None_iff: "rd m i = None \<longleftrightarrow> length m \<le> i"
  by (auto simp: rd_def)

lemma wr_Some_iff: "wr m i v = Some m' \<longleftrightarrow> i < length m \<and> m' = m[i := v]"
  by (auto simp: wr_def)

section \<open>Counted loops\<close>

text \<open>\<open>for_count f i n s\<close> runs the body for \<open>i, i+1, \<dots>, i+n-1\<close>, threading the state.\<close>

primrec for_count :: "(nat \<Rightarrow> 's \<Rightarrow> 's option) \<Rightarrow> nat \<Rightarrow> nat \<Rightarrow> 's \<Rightarrow> 's option" where
  "for_count f i 0 s = Some s"
| "for_count f i (Suc n) s = do { s' \<leftarrow> f i s; for_count f (Suc i) n s' }"

text \<open>
  The invariant rule: when the body takes \<open>P j\<close> to \<open>P (Suc j)\<close> and never fails on the
  range, the loop returns and establishes \<open>P\<close> at the end of the range.
\<close>

lemma for_count_rule:
  assumes "\<And>j s. i \<le> j \<Longrightarrow> j < i + n \<Longrightarrow> P j s \<Longrightarrow> \<exists>s'. f j s = Some s' \<and> P (Suc j) s'"
    and "P i s"
  shows "\<exists>s'. for_count f i n s = Some s' \<and> P (i + n) s'"
  using assms
proof (induction n arbitrary: i s)
  case 0
  then show ?case by simp
next
  case (Suc n)
  from Suc.prems(1)[of i s] Suc.prems(2) obtain s1
    where s1: "f i s = Some s1" "P (Suc i) s1" by auto
  have "\<exists>s'. for_count f (Suc i) n s1 = Some s' \<and> P (Suc i + n) s'"
    by (rule Suc.IH) (use Suc.prems(1) s1(2) in auto)
  with s1(1) show ?case by simp
qed

text \<open>What every step keeps the loop keeps.\<close>

lemma for_count_preserves:
  assumes "for_count f i n s = Some s'" "\<And>j s s'. f j s = Some s' \<Longrightarrow> P s \<Longrightarrow> P s'" "P s"
  shows "P s'"
  using assms(1,3)
proof (induction n arbitrary: i s)
  case 0
  then show ?case by simp
next
  case (Suc n)
  then show ?case using assms(2) by (auto simp: bind_eq_Some_conv)
qed

lemma for_count_Suc_end:
  "for_count f i (Suc n) s = do { s' \<leftarrow> for_count f i n s; f (i + n) s' }"
proof (induction n arbitrary: i s)
  case 0
  then show ?case by (simp add: bind_eq_Some_conv split: bind_split)
next
  case (Suc n)
  have "for_count f i (Suc (Suc n)) s = f i s \<bind> (\<lambda>s'. for_count f (Suc i) (Suc n) s')"
    by (simp only: for_count.simps)
  also have "\<dots> = f i s \<bind> (\<lambda>s'. for_count f (Suc i) n s' \<bind> f (Suc i + n))"
    by (simp only: Suc.IH)
  also have "\<dots> = for_count f i (Suc n) s \<bind> f (i + Suc n)"
    by (simp add: Option.bind_assoc)
  finally show ?case .
qed

lemma for_count_cong:
  assumes "\<And>j s. i \<le> j \<Longrightarrow> j < i + n \<Longrightarrow> f j s = g j s"
  shows "for_count f i n s = for_count g i n s"
  using assms
proof (induction n arbitrary: i s)
  case 0
  then show ?case by simp
next
  case (Suc n)
  have "f i s = g i s" using Suc.prems by simp
  moreover have "for_count f (Suc i) n s' = for_count g (Suc i) n s'" for s'
    by (rule Suc.IH) (use Suc.prems in auto)
  ultimately show ?case by simp
qed

lemma for_count_add:
  "for_count f i (m + n) s = for_count f i m s \<bind> for_count f (i + m) n"
proof (induction m arbitrary: i s)
  case 0
  then show ?case by simp
next
  case (Suc m)
  have "for_count f i (Suc m + n) s = f i s \<bind> (\<lambda>s'. for_count f (Suc i) (m + n) s')"
    by simp
  also have "\<dots> = f i s \<bind> (\<lambda>s'. for_count f (Suc i) m s' \<bind> for_count f (Suc i + m) n)"
    by (simp only: Suc.IH)
  finally show ?case by (simp add: Option.bind_assoc)
qed

lemma for_count_shift: "for_count (\<lambda>j. f (a + j)) i n s = for_count f (a + i) n s"
  by (induction n arbitrary: i s) (simp_all cong: Option.bind_cong)

text \<open>Two nested loops over rows and columns are one loop over the cells in row order.\<close>

lemma for_count_nest:
  "for_count (\<lambda>i. for_count (\<lambda>j. f (i * n + j)) 0 n) a m s = for_count f (a * n) (m * n) s"
proof (induction m arbitrary: a s)
  case 0
  then show ?case by simp
next
  case (Suc m)
  have "for_count (\<lambda>i. for_count (\<lambda>j. f (i * n + j)) 0 n) a (Suc m) s
      = for_count (\<lambda>j. f (a * n + j)) 0 n s \<bind> for_count f (Suc a * n) (m * n)"
    using Suc.IH[of "Suc a"] by (simp cong: Option.bind_cong)
  moreover have "for_count (\<lambda>j. f (a * n + j)) 0 n s = for_count f (a * n) n s"
    using for_count_shift[of f "a * n" 0 n s] by simp
  moreover have "Suc a * n = a * n + n" by simp
  ultimately have "for_count (\<lambda>i. for_count (\<lambda>j. f (i * n + j)) 0 n) a (Suc m) s
      = for_count f (a * n) n s \<bind> for_count f (a * n + n) (m * n)"
    by (simp only:)
  also have "\<dots> = for_count f (a * n) (n + m * n) s"
    by (rule for_count_add [symmetric])
  finally show ?case by simp
qed

text \<open>A loop whose body replaces the element of its index.\<close>

lemma for_count_map:
  assumes "n \<le> length m"
    "\<And>j m'. j < n \<Longrightarrow> length m' = length m \<Longrightarrow> m' ! j = m ! j \<Longrightarrow> f j m' = Some (m'[j := g j (m ! j)])"
  shows "for_count f 0 n m = Some (map (\<lambda>j. g j (m ! j)) [0..<n] @ drop n m)"
proof -
  define P where "P = (\<lambda>i m'. m' = map (\<lambda>j. g j (m ! j)) [0..<i] @ drop i m)"
  have "\<exists>s'. for_count f 0 n m = Some s' \<and> P (0 + n) s'"
  proof (rule for_count_rule)
    fix j s assume j: "0 \<le> j" "j < 0 + n" and s: "P j s"
    have lt: "j < length m" using j assms(1) by simp
    then have d: "drop j m = m ! j # drop (Suc j) m" by (simp add: Cons_nth_drop_Suc)
    have len: "length s = length m" using s lt by (simp add: P_def)
    have nth: "s ! j = m ! j" using s d by (simp add: P_def nth_append)
    have "f j s = Some (s[j := g j (m ! j)])" using assms(2) j len nth by simp
    moreover have "s[j := g j (m ! j)] = map (\<lambda>j. g j (m ! j)) [0..<Suc j] @ drop (Suc j) m"
      using s d by (simp add: P_def list_update_append)
    ultimately show "\<exists>s'. f j s = Some s' \<and> P (Suc j) s'" by (simp add: P_def)
  qed (simp add: P_def)
  then show ?thesis by (simp add: P_def)
qed

text \<open>A loop that accumulates into one element.\<close>

lemma for_count_accum:
  fixes t :: "nat \<Rightarrow> 'a::comm_monoid_add"
  assumes "c < length m"
    "\<And>k m'. k < n \<Longrightarrow> length m' = length m \<Longrightarrow> f k m' = Some (m'[c := m' ! c + t k])"
  shows "for_count f 0 n m = Some (m[c := m ! c + (\<Sum>k<n. t k)])"
proof -
  define P where "P = (\<lambda>i m'. m' = m[c := m ! c + (\<Sum>k<i. t k)])"
  have "\<exists>s'. for_count f 0 n m = Some s' \<and> P (0 + n) s'"
  proof (rule for_count_rule)
    fix j s assume j: "0 \<le> j" "j < 0 + n" and s: "P j s"
    then have "f j s = Some (s[c := s ! c + t j])" using assms(2) by (simp add: P_def)
    then show "\<exists>s'. f j s = Some s' \<and> P (Suc j) s'"
      using s assms(1) by (simp add: P_def add.assoc)
  qed (simp add: P_def)
  then show ?thesis by (simp add: P_def)
qed

section \<open>Words and lists\<close>

lemma xor_cancel_word [simp]: "(a XOR b) XOR b = (a :: 'a::len word)"
  by (simp add: xor.assoc)

lemma xor_eq_iff_word: "a XOR b = c XOR b \<longleftrightarrow> a = (c :: 'a::len word)"
  by (metis xor_cancel_word)

lemma uint_int_unat: "uint w = int (unat w)"
  by simp

lemma unat_of_nat_32: "k < 2 ^ 32 \<Longrightarrow> unat (of_nat k :: 32 word) = k"
  by (simp add: unat_of_nat take_bit_nat_eq_self)

lemma unat_add_1: "(x :: 'a::len word) < y \<Longrightarrow> unat (x + 1) = Suc (unat x)"
proof -
  assume "x < y"
  then have "unat x < unat y" by (simp add: word_less_nat_alt)
  moreover have "unat y < 2 ^ LENGTH('a)" by simp
  ultimately have "Suc (unat x) < 2 ^ LENGTH('a)" by linarith
  then show ?thesis by (simp add: unat_word_ariths)
qed

lemma all_less_4: "(\<forall>n<4. P n) \<longleftrightarrow> P 0 \<and> P 1 \<and> P 2 \<and> P (3::nat)"
  by (simp add: All_less_Suc eval_nat_numeral, blast)

lemma all_less_16:
  "(\<forall>n<16. P n) \<longleftrightarrow> P 0 \<and> P 1 \<and> P 2 \<and> P 3 \<and> P 4 \<and> P 5 \<and> P 6 \<and> P 7 \<and> P 8 \<and> P 9
     \<and> P 10 \<and> P 11 \<and> P 12 \<and> P 13 \<and> P 14 \<and> P (15::nat)"
  by (simp add: All_less_Suc eval_nat_numeral, blast)

lemma word16_eqI: "\<forall>n<16. bit a n = bit b n \<Longrightarrow> a = (b :: 16 word)"
  by (rule bit_word_eqI) simp

lemma bit_out_of_range [simp]:
  "8 \<le> n \<Longrightarrow> \<not> bit (a :: 8 word) n"
  "16 \<le> n \<Longrightarrow> \<not> bit (b :: 16 word) n"
  "32 \<le> n \<Longrightarrow> \<not> bit (c :: 32 word) n"
  by (auto dest: bit_imp_le_length)

lemma odd_ucast_8_16 [simp]: "odd (ucast (w :: 16 word) :: 8 word) = odd w"
  by (simp flip: bit_0 add: bit_unsigned_iff)

lemma odd_ucast_16_8 [simp]: "odd (ucast (w :: 8 word) :: 16 word) = odd w"
  by (simp flip: bit_0 add: bit_unsigned_iff)

end
