(* ===== verification/Core_Util.thy ===== *)
theory Core_Util
  imports Prelude
begin

text \<open>
  \<open>core_util.c\<close>: the CRC services, the seeds and the type checks of CoreMark.
\<close>

section \<open>Bytes and shifts of the CRC register\<close>

text \<open>One round of the loop of \<open>crcu8\<close>: the data byte and the register after it.\<close>

definition crcu8_round :: "ee_u8 \<Rightarrow> ee_u16 \<Rightarrow> ee_u8 \<times> ee_u16" where
  "crcu8_round data crc =
     (let x16 = (data AND 1) XOR (ucast crc AND 1);
          data' = drop_bit 1 data;
          crc1 = (if x16 = 1 then crc XOR 0x4002 else crc);
          carry = (if x16 = 1 then 1 else 0 :: ee_u8);
          crc2 = drop_bit 1 crc1;
          crc3 = (if carry \<noteq> 0 then crc2 OR 0x8000 else crc2 AND 0x7fff)
      in (data', crc3))"

text \<open>The loop runs its body for the remaining count of rounds.\<close>

primrec crcu8_loop :: "nat \<Rightarrow> ee_u8 \<Rightarrow> ee_u16 \<Rightarrow> ee_u16" where
  "crcu8_loop 0 data crc = crc"
| "crcu8_loop (Suc n) data crc =
     (let (data', crc') = crcu8_round data crc in crcu8_loop n data' crc')"

definition crcu8 :: "ee_u8 \<Rightarrow> ee_u16 \<Rightarrow> ee_u16" where
  "crcu8 data crc = crcu8_loop 8 data crc"

definition crcu16 :: "ee_u16 \<Rightarrow> ee_u16 \<Rightarrow> ee_u16" where
  "crcu16 newval crc =
     (let crc1 = crcu8 (ucast newval) crc
      in crcu8 (ucast (drop_bit 8 newval)) crc1)"

definition crc16 :: "ee_s16 \<Rightarrow> ee_u16 \<Rightarrow> ee_u16" where
  "crc16 newval crc = crcu16 newval crc"

definition crcu32 :: "ee_u32 \<Rightarrow> ee_u16 \<Rightarrow> ee_u16" where
  "crcu32 newval crc =
     (let crc1 = crc16 (ucast newval) crc
      in crc16 (ucast (drop_bit 16 newval)) crc1)"

section \<open>The register as a shift register over bits\<close>

text \<open>
  The reference: a reflected CRC-16 register with the polynomial
  \<open>x\<^sup>1\<^sup>6 + x\<^sup>1\<^sup>5 + x\<^sup>2 + 1\<close>, which takes one message bit at a time, least
  significant bit first.
\<close>

definition lfsr_step :: "ee_u16 \<Rightarrow> bool \<Rightarrow> ee_u16" where
  "lfsr_step crc b = drop_bit 1 crc XOR (if bit crc 0 \<noteq> b then 0xA001 else 0)"

definition lfsr :: "ee_u16 \<Rightarrow> bool list \<Rightarrow> ee_u16" where
  "lfsr crc bs = foldl lfsr_step crc bs"

definition bits_of :: "nat \<Rightarrow> 'a::len word \<Rightarrow> bool list" where
  "bits_of n w = map (bit w) [0..<n]"

lemma crcu8_round_lfsr:
  "crcu8_round data crc = (drop_bit 1 data, lfsr_step crc (bit data 0))"
proof -
  have x16: "((data AND 1) XOR ((ucast crc :: ee_u8) AND 1) = 1) \<longleftrightarrow> bit crc 0 \<noteq> bit data 0"
    by (auto simp: and_one_eq bit_0 mod_2_eq_odd)
  have t: "drop_bit 1 (crc XOR 0x4002) OR 0x8000 = drop_bit 1 crc XOR (0xA001 :: ee_u16)"
    by (rule word16_eqI) (simp add: all_less_16 bit_simps)
  have f: "drop_bit 1 crc AND 0x7fff = (drop_bit 1 crc :: ee_u16)"
    by (rule word16_eqI) (auto simp: all_less_16 bit_simps dest: bit_imp_le_length)
  show ?thesis
    using x16 t f by (simp add: crcu8_round_def lfsr_step_def Let_def)
qed

lemma crcu8_loop_Suc [simp]:
  "crcu8_loop (Suc n) data crc = crcu8_loop n (drop_bit 1 data) (lfsr_step crc (bit data 0))"
  by (simp add: crcu8_round_lfsr)

declare crcu8_loop.simps(2) [simp del]

lemma crcu8_loop_lfsr: "crcu8_loop n data crc = lfsr crc (map (bit data) [0..<n])"
proof (induction n arbitrary: data crc)
  case 0
  then show ?case by (simp add: lfsr_def)
next
  case (Suc n)
  have "map (bit data) [0..<Suc n] = bit data 0 # map (bit (drop_bit 1 data)) [0..<n]"
    by (rule nth_equalityI) (auto simp: nth_Cons' bit_drop_bit_eq simp del: upt_Suc)
  then show ?case by (simp add: Suc.IH lfsr_def)
qed

lemma lfsr_append: "lfsr crc (bs @ cs) = lfsr (lfsr crc bs) cs"
  by (simp add: lfsr_def)

lemma crcu8_lfsr: "crcu8 data crc = lfsr crc (bits_of 8 data)"
  by (simp add: crcu8_def crcu8_loop_lfsr bits_of_def)

section \<open>Linearity\<close>

lemma lfsr_step_xor:
  "lfsr_step (c XOR d) (b \<noteq> e) = lfsr_step c b XOR lfsr_step d e"
proof -
  have "drop_bit 1 (c XOR d) = drop_bit 1 c XOR drop_bit 1 d" by simp
  then show ?thesis
    by (cases "bit c 0"; cases "bit d 0"; cases b; cases e)
      (simp_all add: lfsr_step_def bit_xor_iff xor.assoc xor.left_commute xor.commute)
qed

lemma crcu8_loop_xor:
  "crcu8_loop n (a XOR b) (c XOR d) = crcu8_loop n a c XOR crcu8_loop n b d"
proof (induction n arbitrary: a b c d)
  case 0
  then show ?case by simp
next
  case (Suc n)
  have "lfsr_step (c XOR d) (bit (a XOR b) 0)
      = lfsr_step c (bit a 0) XOR lfsr_step d (bit b 0)"
    by (simp add: bit_xor_iff flip: lfsr_step_xor)
  then show ?case by (simp add: Suc.IH)
qed

lemma crcu8_xor: "crcu8 (a XOR b) (c XOR d) = crcu8 a c XOR crcu8 b d"
  by (simp add: crcu8_def crcu8_loop_xor)

text \<open>Data bits can be fed into the register before the loop instead of during it.\<close>

lemma lfsr_step_preload:
  "lfsr_step (c XOR ucast (d :: ee_u8)) False = lfsr_step c (bit d 0) XOR ucast (drop_bit 1 d)"
proof -
  have "drop_bit 1 (ucast d :: ee_u16) = ucast (drop_bit 1 d)"
    by (rule bit_word_eqI) (auto simp: bit_simps dest: bit_imp_le_length)
  then show ?thesis
    by (cases "bit c 0"; cases "bit d 0")
      (simp_all add: lfsr_step_def bit_xor_iff bit_unsigned_iff
        xor.assoc xor.left_commute xor.commute)
qed

lemma crcu8_loop_preload:
  "crcu8_loop n d c = crcu8_loop n 0 (c XOR ucast d) XOR ucast (drop_bit n d)"
proof (induction n arbitrary: c d)
  case 0
  then show ?case by simp
next
  case (Suc n)
  have "crcu8_loop (Suc n) d c
      = crcu8_loop n 0 (lfsr_step c (bit d 0) XOR ucast (drop_bit 1 d))
          XOR ucast (drop_bit n (drop_bit 1 d))"
    by (simp only: crcu8_loop_Suc Suc.IH[of "drop_bit 1 d"])
  also have "\<dots> = crcu8_loop (Suc n) 0 (c XOR ucast d) XOR ucast (drop_bit (Suc n) d)"
    by (simp add: lfsr_step_preload)
  finally show ?case .
qed

lemma crcu8_preload: "crcu8 d c = crcu8 0 (c XOR ucast d)"
proof -
  have "drop_bit 8 d = 0" by (rule bit_word_eqI) (simp add: bit_simps)
  then show ?thesis by (simp add: crcu8_def crcu8_loop_preload[of 8 d c])
qed

lemma crcu8_loop_zeros:
  "\<forall>i<n. \<not> bit c i \<Longrightarrow> crcu8_loop n 0 c = drop_bit n c"
proof (induction n arbitrary: c)
  case 0
  then show ?case by simp
next
  case (Suc n)
  have "\<not> bit c 0" using Suc.prems by blast
  then have "lfsr_step c False = drop_bit 1 c" by (simp add: lfsr_step_def)
  moreover have "\<forall>i<n. \<not> bit (drop_bit 1 c) i" using Suc.prems by (simp add: bit_simps)
  ultimately show ?case using Suc.IH[of "drop_bit 1 c"] by simp
qed

lemma crcu8_high_byte: "crcu8 0 (c AND 0xff00) = drop_bit 8 c"
proof -
  have "\<forall>i<8. \<not> bit (c AND 0xff00) i"
    by (simp add: All_less_Suc eval_nat_numeral bit_simps)
  then have "crcu8 0 (c AND 0xff00) = drop_bit 8 (c AND 0xff00)"
    unfolding crcu8_def by (rule crcu8_loop_zeros)
  also have "\<dots> = drop_bit 8 c"
    by (rule word16_eqI) (auto simp: all_less_16 bit_simps dest: bit_imp_le_length)
  finally show ?thesis .
qed


section \<open>What the code detects\<close>

lemma crcu8_zero [simp]: "crcu8 0 0 = 0"
  by (simp add: crcu8_def crcu8_loop_zeros)

lemma lfsr_step_kernel: "lfsr_step c False = 0 \<Longrightarrow> c = 0"
proof -
  assume z: "lfsr_step c False = 0"
  have "bit (lfsr_step c False) 15 \<longleftrightarrow> bit c 0"
    by (simp add: lfsr_step_def bit_simps)
  with z have b0: "\<not> bit c 0" by simp
  then have "drop_bit 1 c = 0" using z by (simp add: lfsr_step_def)
  then have "bit (drop_bit 1 c) n = False" for n by simp
  then have "\<not> bit c (Suc n)" for n by (simp add: bit_simps)
  with b0 have "\<not> bit c n" for n by (cases n) auto
  then show "c = 0" by (intro bit_word_eqI) simp
qed

lemma crcu8_loop_kernel: "crcu8_loop n 0 c = 0 \<Longrightarrow> c = 0"
proof (induction n arbitrary: c)
  case 0
  then show ?case by simp
next
  case (Suc n)
  then have "lfsr_step c False = 0" by simp
  then show ?case by (rule lfsr_step_kernel)
qed

lemma crcu8_register_inj: "crcu8 0 c = crcu8 0 d \<longleftrightarrow> c = d"
proof
  assume "crcu8 0 c = crcu8 0 d"
  then have "crcu8 0 (c XOR d) = 0" using crcu8_xor[of 0 0 c d] by simp
  then have "c XOR d = 0" unfolding crcu8_def by (rule crcu8_loop_kernel)
  then show "c = d" by (metis xor_cancel_word xor.left_neutral)
qed simp

lemma crcu16_preload: "crcu16 x c = crcu8 0 (crcu8 0 (c XOR x))"
proof -
  have split: "c XOR x = (c XOR ucast (ucast x :: ee_u8)) XOR (x AND 0xff00)"
    by (rule word16_eqI) (simp add: all_less_16 bit_simps)
  have hi: "(ucast (ucast (drop_bit 8 x) :: ee_u8) :: ee_u16) = drop_bit 8 x"
    by (rule word16_eqI) (simp add: all_less_16 bit_simps)
  have "crcu16 x c = crcu8 0 (crcu8 0 (c XOR ucast (ucast x :: ee_u8)) XOR drop_bit 8 x)"
    by (simp add: crcu16_def crcu8_preload[of "ucast x"] crcu8_preload[of "ucast (drop_bit 8 x)"] hi)
  also have "crcu8 0 (c XOR ucast (ucast x :: ee_u8)) XOR drop_bit 8 x = crcu8 0 (c XOR x)"
    by (simp add: split crcu8_xor[of 0 0, simplified] crcu8_high_byte)
  finally show ?thesis .
qed

lemma crcu16_inj: "crcu16 x c = crcu16 y d \<longleftrightarrow> c XOR x = d XOR y"
  by (simp add: crcu16_preload crcu8_register_inj)

text \<open>The CRC of a stream of 16-bit items, as the benchmarks accumulate it.\<close>

definition crc_stream :: "ee_u16 \<Rightarrow> ee_s16 list \<Rightarrow> ee_u16" where
  "crc_stream crc xs = foldl (\<lambda>c x. crc16 x c) crc xs"

lemma crc_stream_simps [simp]:
  "crc_stream crc [] = crc"
  "crc_stream crc (x # xs) = crc_stream (crc16 x crc) xs"
  "crc_stream crc (xs @ ys) = crc_stream (crc_stream crc xs) ys"
  by (simp_all add: crc_stream_def)

lemma crc_stream_register_inj: "crc_stream c xs = crc_stream d xs \<longleftrightarrow> c = d"
proof (induction xs arbitrary: c d)
  case Nil
  then show ?case by simp
next
  case (Cons x xs)
  then show ?case by (simp add: crc16_def crcu16_inj xor_eq_iff_word)
qed

section \<open>Seeds\<close>

record seeds =
  seed1_volatile :: ee_s32
  seed2_volatile :: ee_s32
  seed3_volatile :: ee_s32
  seed4_volatile :: ee_s32
  seed5_volatile :: ee_s32

definition get_seed_32 :: "seeds \<Rightarrow> int \<Rightarrow> ee_s32" where
  "get_seed_32 v i =
     (if i = 1 then seed1_volatile v
      else if i = 2 then seed2_volatile v
      else if i = 3 then seed3_volatile v
      else if i = 4 then seed4_volatile v
      else if i = 5 then seed5_volatile v
      else 0)"

text \<open>
  \<open>parseval\<close> reads a NUL-terminated string: the list holds the bytes before the
  terminator, and reading at its end gives the terminator.  Overflow of the signed
  accumulator wraps.
\<close>

definition deref :: "ee_u8 list \<Rightarrow> ee_u8" where
  "deref s = (case s of [] \<Rightarrow> 0 | c # _ \<Rightarrow> c)"

fun parse_hex :: "ee_u8 list \<Rightarrow> ee_s32 \<Rightarrow> ee_u8 list \<times> ee_s32" where
  "parse_hex [] retval = ([], retval)"
| "parse_hex (c # cs) retval =
     (if (48 \<le> c \<and> c \<le> 57) \<or> (97 \<le> c \<and> c \<le> 102)
      then let digit = ucast c - 48;
               digit' = (if 9 < digit then 10 + ucast c - 97 else digit)
           in parse_hex cs (retval * 16 + digit')
      else (c # cs, retval))"

fun parse_dec :: "ee_u8 list \<Rightarrow> ee_s32 \<Rightarrow> ee_u8 list \<times> ee_s32" where
  "parse_dec [] retval = ([], retval)"
| "parse_dec (c # cs) retval =
     (if 48 \<le> c \<and> c \<le> 57
      then parse_dec cs (retval * 10 + (ucast c - 48))
      else (c # cs, retval))"

definition parseval :: "ee_u8 list \<Rightarrow> ee_s32" where
  "parseval valstring =
     (let neg = (if deref valstring = 45 then - 1 else 1);
          v1 = (if deref valstring = 45 then tl valstring else valstring);
          hexmode = (deref v1 = 48 \<and> deref (tl v1) = 120);
          v2 = (if hexmode then tl (tl v1) else v1);
          (v3, r1) = (if hexmode then parse_hex v2 0 else parse_dec v2 0);
          r2 = (if deref v3 = 75 then r1 * 1024 else r1);
          r3 = (if deref v3 = 77 then r2 * (1024 * 1024) else r2)
      in r3 * neg)"

definition get_seed_args :: "nat \<Rightarrow> int \<Rightarrow> ee_u8 list list \<Rightarrow> ee_s32 option" where
  "get_seed_args i argc argv =
     (if argc > int i then map_option parseval (rd argv i) else Some 0)"

text \<open>The sizes of the port's types, as \<open>sizeof\<close> gives them.\<close>

record type_sizes =
  sz_u8 :: nat
  sz_u16 :: nat
  sz_s16 :: nat
  sz_s32 :: nat
  sz_u32 :: nat
  sz_ptr_int :: nat
  sz_ptr :: nat

definition check_data_types :: "type_sizes \<Rightarrow> ee_u8" where
  "check_data_types z =
     (let r0 = 0;
          r1 = (if sz_u8 z \<noteq> 1 then r0 + 1 else r0);
          r2 = (if sz_u16 z \<noteq> 2 then r1 + 1 else r1);
          r3 = (if sz_s16 z \<noteq> 2 then r2 + 1 else r2);
          r4 = (if sz_s32 z \<noteq> 4 then r3 + 1 else r3);
          r5 = (if sz_u32 z \<noteq> 4 then r4 + 1 else r4);
          r6 = (if sz_ptr_int z \<noteq> sz_ptr z then r5 + 1 else r5)
      in r6)"

lemma crcu8_unrolled:
  "crcu8 d c = crcu8_loop (Suc (Suc (Suc (Suc (Suc (Suc (Suc (Suc 0)))))))) d c"
proof -
  have "8 = Suc (Suc (Suc (Suc (Suc (Suc (Suc (Suc 0)))))))" by simp
  then show ?thesis unfolding crcu8_def by (rule arg_cong)
qed

section \<open>Parsing numbers\<close>

text \<open>The digits of a number in a base, most significant first, and their characters.\<close>

function digits_of :: "nat \<Rightarrow> nat \<Rightarrow> nat list" where
  "digits_of b n = (if b < 2 \<or> n < b then [n] else digits_of b (n div b) @ [n mod b])"
  by pat_completeness auto
termination
  by (relation "measure snd") (auto intro: div_less_dividend)

declare digits_of.simps [simp del]

lemma digits_of_small [simp]: "n < b \<Longrightarrow> digits_of b n = [n]"
  by (subst digits_of.simps) simp

lemma digits_of_large:
  "2 \<le> b \<Longrightarrow> b \<le> n \<Longrightarrow> digits_of b n = digits_of b (n div b) @ [n mod b]"
  by (subst digits_of.simps) simp

lemma digits_of_nonempty [simp]: "digits_of b n \<noteq> []"
  by (subst digits_of.simps) simp

lemma digits_of_less: "2 \<le> b \<Longrightarrow> d \<in> set (digits_of b n) \<Longrightarrow> d < b"
proof (induction b n rule: digits_of.induct)
  case (1 b n)
  then show ?case
    by (cases "n < b") (auto simp: digits_of_large)
qed

definition digit_char :: "nat \<Rightarrow> ee_u8" where
  "digit_char d = (if d < 10 then of_nat (48 + d) else of_nat (87 + d))"

definition numeral_string :: "nat \<Rightarrow> nat \<Rightarrow> ee_u8 list" where
  "numeral_string b n = map digit_char (digits_of b n)"

lemma all_less_10: "(\<forall>n<10. P n) \<longleftrightarrow> P 0 \<and> P 1 \<and> P 2 \<and> P 3 \<and> P 4 \<and> P 5 \<and> P 6 \<and> P 7 \<and> P 8 \<and> P (9::nat)"
  by (simp add: All_less_Suc eval_nat_numeral, blast)

lemma digit_char_dec:
  "d < 10 \<Longrightarrow> 48 \<le> digit_char d \<and> digit_char d \<le> 57 \<and> ucast (digit_char d) - 48 = (of_nat d :: ee_s32)"
proof -
  have "\<forall>d<10. 48 \<le> digit_char d \<and> digit_char d \<le> 57 \<and> ucast (digit_char d) - 48 = (of_nat d :: ee_s32)"
    by (simp add: all_less_10 digit_char_def)
  then show "d < 10 \<Longrightarrow> ?thesis" by blast
qed

lemma digit_char_hex:
  "d < 16 \<Longrightarrow> ((48 \<le> digit_char d \<and> digit_char d \<le> 57) \<or> (97 \<le> digit_char d \<and> digit_char d \<le> 102))
    \<and> (if 9 < ucast (digit_char d) - (48 :: ee_s32) then 10 + ucast (digit_char d) - 97
       else ucast (digit_char d) - 48) = (of_nat d :: ee_s32)"
proof -
  have "\<forall>d<16. ((48 \<le> digit_char d \<and> digit_char d \<le> 57) \<or> (97 \<le> digit_char d \<and> digit_char d \<le> 102))
    \<and> (if 9 < ucast (digit_char d) - (48 :: ee_s32) then 10 + ucast (digit_char d) - 97
       else ucast (digit_char d) - 48) = (of_nat d :: ee_s32)"
    by (simp add: all_less_16 digit_char_def)
  then show "d < 16 \<Longrightarrow> ?thesis" by blast
qed

lemma parse_dec_append:
  assumes "\<forall>d \<in> set ds. d < 10"
  shows "parse_dec (map digit_char ds @ rest) r
    = parse_dec rest (foldl (\<lambda>acc d. acc * 10 + of_nat d) r ds)"
  using assms by (induction ds arbitrary: r) (simp_all add: digit_char_dec)

lemma parse_hex_append:
  assumes "\<forall>d \<in> set ds. d < 16"
  shows "parse_hex (map digit_char ds @ rest) r
    = parse_hex rest (foldl (\<lambda>acc d. acc * 16 + of_nat d) r ds)"
  using assms
proof (induction ds arbitrary: r)
  case Nil
  then show ?case by simp
next
  case (Cons d ds)
  then show ?case using digit_char_hex[of d] by (simp add: Let_def)
qed

lemma foldl_digits:
  assumes "2 \<le> b"
  shows "foldl (\<lambda>acc d. acc * of_nat b + of_nat d) (0 :: 'a::comm_semiring_1) (digits_of b n) = of_nat n"
  using assms
proof (induction b n rule: digits_of.induct)
  case (1 b n)
  show ?case
  proof (cases "n < b")
    case True
    then show ?thesis by simp
  next
    case False
    with 1 have "foldl (\<lambda>acc d. acc * of_nat b + of_nat d) (0 :: 'a) (digits_of b (n div b)) = of_nat (n div b)"
      by simp
    then have "foldl (\<lambda>acc d. acc * of_nat b + of_nat d) (0 :: 'a) (digits_of b n)
        = of_nat (n div b) * of_nat b + of_nat (n mod b)"
      using 1 False by (simp add: digits_of_large)
    also have "\<dots> = of_nat (n div b * b + n mod b)" by (simp only: of_nat_add of_nat_mult)
    finally show ?thesis by (simp only: div_mult_mod_eq)
  qed
qed

definition not_digit :: "ee_u8 list \<Rightarrow> bool" where
  "not_digit s \<longleftrightarrow> \<not> (48 \<le> deref s \<and> deref s \<le> 57)"

lemma parse_dec_stop: "not_digit rest \<Longrightarrow> parse_dec rest r = (rest, r)"
  by (cases rest) (auto simp: not_digit_def deref_def)

lemma parse_dec_numeral:
  "not_digit rest \<Longrightarrow> parse_dec (numeral_string 10 n @ rest) 0 = (rest, of_nat n)"
  using digits_of_less[of 10] foldl_digits[of 10 n, where 'a = ee_s32]
  by (simp add: numeral_string_def parse_dec_append parse_dec_stop)

lemma hd_numeral_string: "\<exists>d s. numeral_string 10 n = digit_char d # s \<and> d < 10"
proof -
  obtain d ds where "digits_of 10 n = d # ds" by (metis digits_of_nonempty neq_Nil_conv)
  moreover from this have "d < 10" using digits_of_less[of 10 d n] by simp
  ultimately show ?thesis unfolding numeral_string_def by auto
qed

lemma second_numeral_char: "numeral_string 10 n = c # s \<Longrightarrow> deref s \<noteq> 120"
proof -
  assume eq: "numeral_string 10 n = c # s"
  show "deref s \<noteq> 120"
  proof (cases s)
    case Nil
    then show ?thesis by (simp add: deref_def)
  next
    case (Cons e t)
    with eq have "e \<in> set (numeral_string 10 n)" by simp
    then obtain d where "d < 10" "e = digit_char d"
      using digits_of_less[of 10 _ n] by (auto simp: numeral_string_def)
    with digit_char_dec have "e \<le> 57" by blast
    moreover have "\<not> (120 :: ee_u8) \<le> 57" by simp
    ultimately show ?thesis using Cons by (auto simp: deref_def)
  qed
qed

lemma numeral_not_hex: "deref rest \<noteq> 120 \<Longrightarrow> deref (tl (numeral_string 10 n @ rest)) \<noteq> 120"
proof -
  assume r: "deref rest \<noteq> 120"
  obtain d s where d: "numeral_string 10 n = digit_char d # s"
    using hd_numeral_string by blast
  show ?thesis
    using r d second_numeral_char[OF d] by (cases s) (auto simp: deref_def)
qed

lemma numeral_not_minus: "deref (numeral_string 10 n @ rest) \<noteq> 45"
proof -
  obtain d s where d: "numeral_string 10 n = digit_char d # s" "d < 10"
    using hd_numeral_string by blast
  from digit_char_dec[OF d(2)] have "48 \<le> digit_char d" by blast
  then have "digit_char d \<noteq> 45" by auto
  with d show ?thesis by (simp add: deref_def)
qed

text \<open>The effect of the qualifier that ends the string.\<close>

definition scaled :: "ee_u8 list \<Rightarrow> ee_s32 \<Rightarrow> ee_s32" where
  "scaled rest r =
     (let r2 = (if deref rest = 75 then r * 1024 else r)
      in if deref rest = 77 then r2 * (1024 * 1024) else r2)"

lemma parseval_dec:
  assumes "not_digit rest" "deref rest \<noteq> 120"
  shows "parseval (numeral_string 10 n @ rest) = scaled rest (of_nat n)"
    and "parseval (45 # numeral_string 10 n @ rest) = - scaled rest (of_nat n)"
  using parse_dec_numeral[OF assms(1), of n] numeral_not_hex[OF assms(2), of n]
    numeral_not_minus[of n rest]
  by (simp_all add: parseval_def scaled_def Let_def deref_def)

lemma parseval_hex:
  "parseval (48 # 120 # numeral_string 16 n) = of_nat n"
proof -
  have "parse_hex (map digit_char (digits_of 16 n) @ []) 0 = ([], of_nat n)"
    using digits_of_less[of 16] foldl_digits[of 16 n, where 'a = ee_s32]
    by (subst parse_hex_append) simp_all
  then show ?thesis
    by (simp add: parseval_def Let_def deref_def numeral_string_def)
qed

section \<open>Properties\<close>

text \<open>C14: The CRC routines are the bit-serial CRC-16 register with the reflected polynomial
  0xA001: \<open>crcu8\<close>, \<open>crcu16\<close> and \<open>crcu32\<close> feed it the 8, 16 and 32 bits of their data,
  least significant bit first.\<close>

theorem crc_is_lfsr:
  "crcu8 d crc = lfsr crc (bits_of 8 d)
   \<and> crcu16 x crc = lfsr crc (bits_of 16 x)
   \<and> crcu32 w crc = lfsr crc (bits_of 32 w)"
proof -
  have b16: "bits_of 16 v = bits_of 8 (ucast v :: ee_u8) @ bits_of 8 (ucast (drop_bit 8 v) :: ee_u8)"
    for v :: ee_u16
    by (rule nth_equalityI)
      (auto simp: bits_of_def nth_append bit_simps simp del: upt_Suc)
  have b32: "bits_of 32 w = bits_of 16 (ucast w :: ee_u16) @ bits_of 16 (ucast (drop_bit 16 w) :: ee_u16)"
    by (rule nth_equalityI)
      (auto simp: bits_of_def nth_append bit_simps simp del: upt_Suc)
  have "crcu16 v c = lfsr c (bits_of 16 v)" for v c
    by (simp add: crcu16_def crcu8_lfsr b16 lfsr_append)
  then show ?thesis
    by (simp add: crcu8_lfsr crcu32_def crc16_def b32 lfsr_append)
qed

text \<open>The usual table-driven CRC computes the same function as the bit loop: one lookup
  per byte in the table of the CRCs of the 256 byte values.\<close>

theorem crc_table_driven:
  "crcu8 d crc = drop_bit 8 crc XOR crcu8 0 ((crc XOR ucast d) AND 0xff)"
proof -
  let ?c = "crc XOR ucast d"
  have "?c = (?c AND 0xff00) XOR (?c AND 0xff)"
    by (rule word16_eqI) (simp add: all_less_16 bit_simps)
  then have "crcu8 0 ?c = crcu8 0 (?c AND 0xff00) XOR crcu8 0 (?c AND 0xff)"
    by (metis crcu8_xor xor_self_eq)
  moreover have "crcu8 0 (?c AND 0xff00) = drop_bit 8 ?c" by (rule crcu8_high_byte)
  moreover have "drop_bit 8 ?c = drop_bit 8 crc"
    by (rule word16_eqI) (simp add: all_less_16 bit_simps)
  ultimately show ?thesis by (simp add: crcu8_preload[of d crc])
qed

text \<open>C35: The CRC of a stream of 16-bit items, as the list and matrix benchmarks accumulate it,
  detects every change of a single item, wherever it stands and whatever follows.\<close>

theorem crc_detects_item:
  assumes "x \<noteq> y"
  shows "crc_stream crc (xs @ x # ys) \<noteq> crc_stream crc (xs @ y # ys)"
  using assms by (simp add: crc_stream_register_inj crc16_def crcu16_inj) (metis xor_cancel_word xor.commute)

theorem crc_detects_item_witness:
  "crc_stream 0 ([1, 2] @ 0x8080 # [3]) \<noteq> crc_stream 0 ([1, 2] @ 0x8081 # [3])"
  by (rule crc_detects_item) simp

text \<open>The routine is the catalogued CRC-16 (ARC): the CRC of the nine ASCII digits
  "123456789" is its check value 0xBB3D.\<close>

theorem crc_check_value:
  "foldl (\<lambda>crc d. crcu8 d crc) 0 [49, 50, 51, 52, 53, 54, 55, 56, 57] = 0xBB3D"
proof -
  have 1: "crcu8 49 0 = 0xd4c1" by (simp add: crcu8_unrolled lfsr_step_def bit_0)
  have 2: "crcu8 50 0xd4c1 = 0x4594" by (simp add: crcu8_unrolled lfsr_step_def bit_0)
  have 3: "crcu8 51 0x4594 = 0xba04" by (simp add: crcu8_unrolled lfsr_step_def bit_0)
  have 4: "crcu8 52 0xba04 = 0x14ba" by (simp add: crcu8_unrolled lfsr_step_def bit_0)
  have 5: "crcu8 53 0x14ba = 0xa455" by (simp add: crcu8_unrolled lfsr_step_def bit_0)
  have 6: "crcu8 54 0xa455 = 0x29e4" by (simp add: crcu8_unrolled lfsr_step_def bit_0)
  have 7: "crcu8 55 0x29e4 = 0x9d68" by (simp add: crcu8_unrolled lfsr_step_def bit_0)
  have 8: "crcu8 56 0x9d68 = 0x3c9d" by (simp add: crcu8_unrolled lfsr_step_def bit_0)
  have 9: "crcu8 57 0x3c9d = 0xbb3d" by (simp add: crcu8_unrolled lfsr_step_def bit_0)
  show ?thesis by (simp only: foldl.simps 1 2 3 4 5 6 7 8 9)
qed


text \<open>\<open>check_data_types\<close> returns zero exactly on a platform whose types have the sizes the
  benchmark assumes.\<close>

theorem check_data_types_zero:
  "check_data_types z = 0 \<longleftrightarrow> sz_u8 z = 1 \<and> sz_u16 z = 2 \<and> sz_s16 z = 2 \<and> sz_s32 z = 4
     \<and> sz_u32 z = 4 \<and> sz_ptr_int z = sz_ptr z"
  by (simp add: check_data_types_def Let_def)

end
