(* ===== verification/Core_State.thy ===== *)
theory Core_State
  imports Core_Util
begin

text \<open>
  \<open>core_state.c\<close>: the state machine that classifies the comma separated tokens of a
  byte block, the benchmark that runs it over the block before and after corrupting it,
  and the initialisation of the block.  A block is a list of bytes; a pointer into it is
  an index, and an access outside the list is undefined behaviour (\<^term>\<open>None\<close>).
\<close>

section \<open>States and counters\<close>

datatype core_state = CORE_START | CORE_INVALID | CORE_S1 | CORE_S2 | CORE_INT
  | CORE_FLOAT | CORE_EXPONENT | CORE_SCIENTIFIC

text \<open>The enumeration in its order, which is the order the counters are read in.\<close>

definition core_states :: "core_state list" where
  "core_states = [CORE_START, CORE_INVALID, CORE_S1, CORE_S2, CORE_INT, CORE_FLOAT,
     CORE_EXPONENT, CORE_SCIENTIFIC]"

text \<open>The loop over the numbers of the states goes through each state once.\<close>

instantiation core_state :: enum
begin

definition enum_core_state :: "core_state list" where
  "enum_core_state = core_states"

definition enum_all_core_state :: "(core_state \<Rightarrow> bool) \<Rightarrow> bool" where
  "enum_all_core_state P \<longleftrightarrow> list_all P core_states"

definition enum_ex_core_state :: "(core_state \<Rightarrow> bool) \<Rightarrow> bool" where
  "enum_ex_core_state P \<longleftrightarrow> list_ex P core_states"

instance
proof
  show univ: "(UNIV :: core_state set) = set enum_class.enum"
    by (auto simp: enum_core_state_def core_states_def intro: core_state.exhaust)
  show "distinct (enum_class.enum :: core_state list)"
    by (simp add: enum_core_state_def core_states_def)
  show "enum_class.enum_all P \<longleftrightarrow> Ball UNIV P" for P :: "core_state \<Rightarrow> bool"
    unfolding univ by (simp add: enum_all_core_state_def enum_core_state_def list_all_iff)
  show "enum_class.enum_ex P \<longleftrightarrow> Bex UNIV P" for P :: "core_state \<Rightarrow> bool"
    unfolding univ by (simp add: enum_ex_core_state_def enum_core_state_def list_ex_iff)
qed

end

lemma core_states_all: "set core_states = UNIV"
  by (simp add: UNIV_enum enum_core_state_def)

type_synonym counts = "core_state \<Rightarrow> ee_u32"

definition bump :: "counts \<Rightarrow> core_state \<Rightarrow> counts" where
  "bump cs st = cs(st := cs st + 1)"

section \<open>The state machine\<close>

definition ee_isdigit :: "ee_u8 \<Rightarrow> ee_u8" where
  "ee_isdigit c = (if (48 \<le> c) \<and> (c \<le> 57) then 1 else 0)"

text \<open>The body of the switch: the next state and the updated transition counters.\<close>

fun cst_switch :: "core_state \<Rightarrow> ee_u8 \<Rightarrow> counts \<Rightarrow> core_state \<times> counts" where
  "cst_switch CORE_START c tc =
     (if ee_isdigit c \<noteq> 0 then (CORE_INT, bump tc CORE_START)
      else if c = 43 \<or> c = 45 then (CORE_S1, bump tc CORE_START)
      else if c = 46 then (CORE_FLOAT, bump tc CORE_START)
      else (CORE_INVALID, bump (bump tc CORE_INVALID) CORE_START))"
| "cst_switch CORE_S1 c tc =
     (if ee_isdigit c \<noteq> 0 then (CORE_INT, bump tc CORE_S1)
      else if c = 46 then (CORE_FLOAT, bump tc CORE_S1)
      else (CORE_INVALID, bump tc CORE_S1))"
| "cst_switch CORE_INT c tc =
     (if c = 46 then (CORE_FLOAT, bump tc CORE_INT)
      else if \<not> (ee_isdigit c \<noteq> 0) then (CORE_INVALID, bump tc CORE_INT)
      else (CORE_INT, tc))"
| "cst_switch CORE_FLOAT c tc =
     (if c = 69 \<or> c = 101 then (CORE_S2, bump tc CORE_FLOAT)
      else if \<not> (ee_isdigit c \<noteq> 0) then (CORE_INVALID, bump tc CORE_FLOAT)
      else (CORE_FLOAT, tc))"
| "cst_switch CORE_S2 c tc =
     (if c = 43 \<or> c = 45 then (CORE_EXPONENT, bump tc CORE_S2)
      else (CORE_INVALID, bump tc CORE_S2))"
| "cst_switch CORE_EXPONENT c tc =
     (if ee_isdigit c \<noteq> 0 then (CORE_SCIENTIFIC, bump tc CORE_EXPONENT)
      else (CORE_INVALID, bump tc CORE_EXPONENT))"
| "cst_switch CORE_SCIENTIFIC c tc =
     (if \<not> (ee_isdigit c \<noteq> 0) then (CORE_INVALID, bump tc CORE_INVALID)
      else (CORE_SCIENTIFIC, tc))"
| "cst_switch CORE_INVALID c tc = (CORE_INVALID, tc)"

text \<open>
  The scanning loop from the index \<open>str\<close>: it reads \<open>*str\<close> first, stops at the
  terminator or in \<open>CORE_INVALID\<close>, and steps over the comma that ends a token.
\<close>

function cst_loop :: "ee_u8 list \<Rightarrow> nat \<Rightarrow> core_state \<Rightarrow> counts
    \<Rightarrow> (nat \<times> core_state \<times> counts) option" where
  "cst_loop mem str state tc =
     (if str < length mem then
        (let c = mem ! str in
         if c = 0 \<or> state = CORE_INVALID then Some (str, state, tc)
         else if c = 44 then Some (Suc str, state, tc)
         else (let (state', tc') = cst_switch state c tc
               in cst_loop mem (Suc str) state' tc'))
      else None)"
  by pat_completeness auto
termination
  by (relation "measure (\<lambda>(mem, str, state, tc). length mem - str)") auto

declare cst_loop.simps [simp del]

definition core_state_transition :: "ee_u8 list \<Rightarrow> nat \<Rightarrow> counts
    \<Rightarrow> (nat \<times> core_state \<times> counts) option" where
  "core_state_transition mem instr transition_count =
     cst_loop mem instr CORE_START transition_count"

section \<open>The benchmark\<close>

text \<open>\<open>while (*p != 0)\<close>: one transition per token, counting the final states.\<close>

partial_function (option) scan :: "ee_u8 list \<Rightarrow> nat \<Rightarrow> counts \<Rightarrow> counts
    \<Rightarrow> (counts \<times> counts) option" where
  "scan mem p final_counts track_counts =
     do {
       c \<leftarrow> rd mem p;
       if c = 0 then Some (final_counts, track_counts)
       else do {
         (p', fstate, track_counts') \<leftarrow> core_state_transition mem p track_counts;
         scan mem p' (bump final_counts fstate) track_counts'
       }
     }"

text \<open>
  \<open>while (p < memblock + blksize)\<close>: the pointer is kept as a signed offset, since the
  step is signed.
\<close>

partial_function (option) corrupt :: "ee_u32 \<Rightarrow> ee_s16 \<Rightarrow> ee_s16 \<Rightarrow> int \<Rightarrow> ee_u8 list
    \<Rightarrow> ee_u8 list option" where
  "corrupt blksize seed step p mem =
     (if p < uint blksize then
        (if p < 0 then None
         else do {
           c \<leftarrow> rd mem (nat p);
           mem' \<leftarrow> (if c \<noteq> 44 then wr mem (nat p) (c XOR ucast seed) else Some mem);
           corrupt blksize seed step (p + sint step) mem'
         })
      else Some mem)"

definition crc_counts :: "counts \<Rightarrow> counts \<Rightarrow> ee_u16 \<Rightarrow> ee_u16" where
  "crc_counts final_counts track_counts crc =
     foldl (\<lambda>crc st. let crc1 = crcu32 (final_counts st) crc
                     in crcu32 (track_counts st) crc1) crc core_states"

definition core_bench_state :: "ee_u32 \<Rightarrow> ee_u8 list \<Rightarrow> ee_s16 \<Rightarrow> ee_s16 \<Rightarrow> ee_s16 \<Rightarrow> ee_u16
    \<Rightarrow> (ee_u16 \<times> ee_u8 list) option" where
  "core_bench_state blksize memblock seed1 seed2 step crc =
     do {
       (final_counts, track_counts) \<leftarrow> scan memblock 0 (\<lambda>_. 0) (\<lambda>_. 0);
       mem1 \<leftarrow> corrupt blksize seed1 step 0 memblock;
       (final_counts', track_counts') \<leftarrow> scan mem1 0 final_counts track_counts;
       mem2 \<leftarrow> corrupt blksize seed2 step 0 mem1;
       Some (crc_counts final_counts' track_counts' crc, mem2)
     }"

section \<open>Initialising the block\<close>

text \<open>The default patterns, as the bytes of their C strings.\<close>

definition intpat :: "ee_u8 list list" where
  "intpat = [[53, 48, 49, 50], [49, 50, 51, 52], [45, 56, 55, 52], [43, 49, 50, 50]]"

definition floatpat :: "ee_u8 list list" where
  "floatpat = [[51, 53, 46, 53, 52, 52, 48, 48], [46, 49, 50, 51, 52, 53, 48, 48],
     [45, 49, 49, 48, 46, 55, 48, 48], [43, 48, 46, 54, 52, 52, 48, 48]]"

definition scipat :: "ee_u8 list list" where
  "scipat = [[53, 46, 53, 48, 48, 101, 43, 51], [45, 46, 49, 50, 51, 101, 45, 50],
     [45, 56, 55, 101, 43, 56, 51, 50], [43, 48, 46, 54, 101, 45, 49, 50]]"

definition errpat :: "ee_u8 list list" where
  "errpat = [[84, 48, 46, 51, 101, 45, 49, 70], [45, 84, 46, 84, 43, 43, 84, 113],
     [49, 84, 51, 46, 52, 101, 52, 122], [51, 52, 46, 48, 101, 45, 84, 94]]"

text \<open>The switch on \<open>seed & 0x7\<close>: the pattern and the length it is copied with.\<close>

definition select_pattern :: "ee_s16 \<Rightarrow> ee_u8 list \<times> ee_u32" where
  "select_pattern seed =
     (let k = seed AND 7; j = unat (drop_bit 3 seed AND 3)
      in if k = 0 \<or> k = 1 \<or> k = 2 then (intpat ! j, 4)
         else if k = 3 \<or> k = 4 then (floatpat ! j, 8)
         else if k = 5 \<or> k = 6 then (scipat ! j, 8)
         else (errpat ! j, 8))"

text \<open>Writing a token and its comma at \<open>total\<close>.\<close>

definition put_token :: "ee_u32 \<Rightarrow> ee_u32 \<Rightarrow> ee_u8 list \<Rightarrow> ee_u8 list \<Rightarrow> ee_u8 list option" where
  "put_token tot nxt buf mem =
     do {
       mem' \<leftarrow> for_count (\<lambda>i m. do { c \<leftarrow> rd buf i; wr m (unat tot + i) c }) 0 (unat nxt) mem;
       wr mem' (unat tot + unat nxt) 44
     }"

partial_function (option) init_loop :: "ee_u32 \<Rightarrow> ee_s16 \<Rightarrow> ee_u32 \<Rightarrow> ee_u32 \<Rightarrow> ee_u8 list
    \<Rightarrow> ee_u8 list \<Rightarrow> (ee_u32 \<times> ee_u8 list) option" where
  "init_loop sz seed tot nxt buf mem =
     (if tot + nxt + 1 < sz then do {
        (mem', tot') \<leftarrow>
          (if 0 < nxt then map_option (\<lambda>m. (m, tot + (nxt + 1))) (put_token tot nxt buf mem)
           else Some (mem, tot));
        let seed' = seed + 1;
        let (buf', nxt') = select_pattern seed';
        init_loop sz seed' tot' nxt' buf' mem'
      }
      else Some (tot, mem))"

partial_function (option) fill_zero :: "ee_u32 \<Rightarrow> ee_u32 \<Rightarrow> ee_u8 list \<Rightarrow> ee_u8 list option" where
  "fill_zero sz tot mem =
     (if tot < sz then do {
        mem' \<leftarrow> wr mem (unat tot) 0;
        fill_zero sz (tot + 1) mem'
      }
      else Some mem)"

definition core_init_state :: "ee_u32 \<Rightarrow> ee_s16 \<Rightarrow> ee_u8 list \<Rightarrow> ee_u8 list option" where
  "core_init_state sz seed p =
     (let sz' = sz - 1
      in do {
        (tot, mem) \<leftarrow> init_loop sz' seed 0 0 [] p;
        fill_zero (sz' + 1) tot mem
      })"

declare scan.simps [code] corrupt.simps [code] init_loop.simps [code] fill_zero.simps [code]

end
