(* ===== verification/Core_Matrix.thy ===== *)
theory Core_Matrix
  imports Core_Util
begin

text \<open>
  \<open>core_matrix.c\<close>: initialising the matrices, the five operations on them and the
  benchmark that runs them.  The three regions \<open>A\<close>, \<open>B\<close> (16-bit elements) and \<open>C\<close>
  (32-bit elements) are lists; an access outside a region is undefined behaviour.
\<close>

section \<open>Data\<close>

type_synonym matdat = ee_s16
type_synonym matres = ee_s32

text \<open>The parameter block: the dimension and the addresses of the three regions.\<close>

record mat_params =
  p_N :: ee_s32
  p_A :: ee_u32
  p_B :: ee_u32
  p_C :: ee_u32

text \<open>The contents of the regions.\<close>

record matrices =
  mat_A :: "matdat list"
  mat_B :: "matdat list"
  mat_C :: "matres list"

text \<open>\<open>i*N+j\<close> in 32-bit arithmetic.\<close>

definition cell :: "ee_u32 \<Rightarrow> nat \<Rightarrow> nat \<Rightarrow> nat" where
  "cell N i j = unat (of_nat i * N + of_nat j)"

definition matrix_clip :: "matdat \<Rightarrow> bool \<Rightarrow> matdat" where
  "matrix_clip x y = (if y then x AND 0x0ff else x AND 0x0ffff)"

definition matrix_big :: "matdat \<Rightarrow> matdat" where
  "matrix_big x = 0xf000 OR x"

text \<open>The shift is arithmetic on the signed element, the mask is unsigned.\<close>

definition bit_extract :: "matres \<Rightarrow> nat \<Rightarrow> nat \<Rightarrow> ee_u32" where
  "bit_extract x from to = signed_drop_bit from x AND NOT (push_bit to 0xffffffff)"

section \<open>The operations\<close>

definition matrix_mul_const :: "ee_u32 \<Rightarrow> matres list \<Rightarrow> matdat list \<Rightarrow> matdat \<Rightarrow> matres list option" where
  "matrix_mul_const N C A val =
     for_count (\<lambda>i. for_count (\<lambda>j C. do {
         a \<leftarrow> rd A (cell N i j);
         wr C (cell N i j) (scast a * scast val)
       }) 0 (unat N)) 0 (unat N) C"

definition matrix_add_const :: "ee_u32 \<Rightarrow> matdat list \<Rightarrow> matdat \<Rightarrow> matdat list option" where
  "matrix_add_const N A val =
     for_count (\<lambda>i. for_count (\<lambda>j A. do {
         a \<leftarrow> rd A (cell N i j);
         wr A (cell N i j) (a + val)
       }) 0 (unat N)) 0 (unat N) A"

definition matrix_mul_vect :: "ee_u32 \<Rightarrow> matres list \<Rightarrow> matdat list \<Rightarrow> matdat list \<Rightarrow> matres list option" where
  "matrix_mul_vect N C A B =
     for_count (\<lambda>i C. do {
         C' \<leftarrow> wr C i 0;
         for_count (\<lambda>j C. do {
           a \<leftarrow> rd A (cell N i j);
           b \<leftarrow> rd B j;
           c \<leftarrow> rd C i;
           wr C i (c + scast a * scast b)
         }) 0 (unat N) C'
       }) 0 (unat N) C"

definition matrix_mul_matrix :: "ee_u32 \<Rightarrow> matres list \<Rightarrow> matdat list \<Rightarrow> matdat list \<Rightarrow> matres list option" where
  "matrix_mul_matrix N C A B =
     for_count (\<lambda>i. for_count (\<lambda>j C. do {
         C' \<leftarrow> wr C (cell N i j) 0;
         for_count (\<lambda>k C. do {
           a \<leftarrow> rd A (cell N i k);
           b \<leftarrow> rd B (cell N k j);
           c \<leftarrow> rd C (cell N i j);
           wr C (cell N i j) (c + scast a * scast b)
         }) 0 (unat N) C'
       }) 0 (unat N)) 0 (unat N) C"

definition matrix_mul_matrix_bitextract :: "ee_u32 \<Rightarrow> matres list \<Rightarrow> matdat list \<Rightarrow> matdat list
    \<Rightarrow> matres list option" where
  "matrix_mul_matrix_bitextract N C A B =
     for_count (\<lambda>i. for_count (\<lambda>j C. do {
         C' \<leftarrow> wr C (cell N i j) 0;
         for_count (\<lambda>k C. do {
           a \<leftarrow> rd A (cell N i k);
           b \<leftarrow> rd B (cell N k j);
           c \<leftarrow> rd C (cell N i j);
           let tmp = scast a * scast b;
           wr C (cell N i j) (c + bit_extract tmp 2 4 * bit_extract tmp 5 7)
         }) 0 (unat N) C'
       }) 0 (unat N)) 0 (unat N) C"

text \<open>The accumulator, the previous element and the result of \<open>matrix_sum\<close>.\<close>

definition matrix_sum_step :: "matdat \<Rightarrow> matres \<Rightarrow> matres \<times> matres \<times> ee_s16 \<Rightarrow> matres \<times> matres \<times> ee_s16" where
  "matrix_sum_step clipval cur s =
     (let (tmp, prev, ret) = s;
          tmp1 = tmp + cur;
          (tmp2, ret2) = (if sint tmp1 > sint clipval then (0, ret + 10)
                          else (tmp1, ret + (if sint cur > sint prev then 1 else 0)))
      in (tmp2, cur, ret2))"

definition matrix_sum :: "ee_u32 \<Rightarrow> matres list \<Rightarrow> matdat \<Rightarrow> ee_s16 option" where
  "matrix_sum N C clipval =
     do {
       (tmp, prev, ret) \<leftarrow>
         for_count (\<lambda>i. for_count (\<lambda>j s. do {
             cur \<leftarrow> rd C (cell N i j);
             Some (matrix_sum_step clipval cur s)
           }) 0 (unat N)) 0 (unat N) (0, 0, 0);
       Some ret
     }"

section \<open>The benchmark\<close>

definition matrix_test :: "ee_u32 \<Rightarrow> matrices \<Rightarrow> matdat \<Rightarrow> (ee_s16 \<times> matrices) option" where
  "matrix_test N m val =
     (let clipval = matrix_big val;
          B = mat_B m
      in do {
        A1 \<leftarrow> matrix_add_const N (mat_A m) val;
        C1 \<leftarrow> matrix_mul_const N (mat_C m) A1 val;
        s1 \<leftarrow> matrix_sum N C1 clipval;
        let crc1 = crc16 s1 0;
        C2 \<leftarrow> matrix_mul_vect N C1 A1 B;
        s2 \<leftarrow> matrix_sum N C2 clipval;
        let crc2 = crc16 s2 crc1;
        C3 \<leftarrow> matrix_mul_matrix N C2 A1 B;
        s3 \<leftarrow> matrix_sum N C3 clipval;
        let crc3 = crc16 s3 crc2;
        C4 \<leftarrow> matrix_mul_matrix_bitextract N C3 A1 B;
        s4 \<leftarrow> matrix_sum N C4 clipval;
        let crc4 = crc16 s4 crc3;
        A2 \<leftarrow> matrix_add_const N A1 (- val);
        Some (crc4, m\<lparr>mat_A := A2, mat_C := C4\<rparr>)
      })"

definition core_bench_matrix :: "mat_params \<Rightarrow> matrices \<Rightarrow> ee_s16 \<Rightarrow> ee_u16
    \<Rightarrow> (ee_u16 \<times> matrices) option" where
  "core_bench_matrix p m seed crc =
     do {
       (r, m') \<leftarrow> matrix_test (p_N p) m seed;
       Some (crc16 r crc, m')
     }"

section \<open>Initialisation\<close>

text \<open>C's remainder truncates towards zero.\<close>

definition c_rem :: "ee_s32 \<Rightarrow> int \<Rightarrow> ee_s32" where
  "c_rem a m = word_of_int (sgn (sint a) * (\<bar>sint a\<bar> mod m))"

text \<open>\<open>while (j < blksize) { i++; j = i*i*2*4; }\<close>, in 32-bit arithmetic.\<close>

partial_function (option) dim_loop :: "ee_u32 \<Rightarrow> ee_u32 \<Rightarrow> ee_u32 \<Rightarrow> ee_u32 option" where
  "dim_loop blksize i j =
     (if j < blksize then dim_loop blksize (i + 1) ((i + 1) * (i + 1) * 2 * 4)
      else Some i)"

definition align_mem :: "ee_u32 \<Rightarrow> ee_u32" where
  "align_mem x = 4 + ((x - 1) AND NOT 3)"

text \<open>One cell: the seed and the order after it, and the values stored in \<open>B\<close> and \<open>A\<close>.\<close>

definition init_cell :: "ee_s32 \<Rightarrow> ee_s32 \<Rightarrow> ee_s32 \<times> matdat \<times> matdat" where
  "init_cell order seed =
     (let seed' = c_rem (order * seed) 65536;
          val0 = ucast (seed' + order);
          valB = matrix_clip val0 False;
          val1 = ucast (scast valB + order);
          valA = matrix_clip val1 True
      in (seed', valB, valA))"

definition core_init_matrix :: "ee_u32 \<Rightarrow> ee_u32 \<Rightarrow> ee_s32 \<Rightarrow> matrices
    \<Rightarrow> (ee_u32 \<times> mat_params \<times> matrices) option" where
  "core_init_matrix blksize memblk seed m =
     (let seed0 = (if seed = 0 then 1 else seed)
      in do {
        i \<leftarrow> dim_loop blksize 0 0;
        let N = i - 1;
        let A = align_mem memblk;
        let B = A + 2 * (N * N);
        (order', seed', mA, mB) \<leftarrow>
          for_count (\<lambda>i. for_count (\<lambda>j (order, seed, mA, mB). do {
              let (seed1, valB, valA) = init_cell order seed;
              mB' \<leftarrow> wr mB (cell N i j) valB;
              mA' \<leftarrow> wr mA (cell N i j) valA;
              Some (order + 1, seed1, mA', mB')
            }) 0 (unat N)) 0 (unat N) (1, seed0, mat_A m, mat_B m);
        let p = \<lparr>p_N = N, p_A = A, p_B = B, p_C = align_mem (B + 2 * (N * N))\<rparr>;
        Some (N, p, m\<lparr>mat_A := mA, mat_B := mB\<rparr>)
      })"

declare dim_loop.simps [code]

end
