(* ===== verification/Coremark.thy ===== *)
theory Coremark
  imports Core_State Core_Matrix
begin

text \<open>
  \<open>coremark.h\<close>: the list cells, the results structure and the constants that the parts of
  the benchmark share.  The blocks that \<open>memblock[]\<close> points at are kept in the structure
  as typed contents: the cells and the data items of the list block, the matrix regions
  and the bytes of the state block.  A pointer to a cell or a data item is its index,
  NULL is \<^term>\<open>None\<close>.
\<close>

section \<open>Cells\<close>

record list_data =
  ld_data16 :: ee_s16
  ld_idx :: ee_s16

record list_head =
  lh_next :: "nat option"
  lh_info :: nat

section \<open>Results\<close>

record core_results =
  r_seed1 :: ee_s16
  r_seed2 :: ee_s16
  r_seed3 :: ee_s16
  r_memblock :: "ee_u32 list"
  r_size :: ee_u32
  r_iterations :: ee_u32
  r_execs :: ee_u32
  r_list :: "nat option"
  r_mat :: mat_params
  r_crc :: ee_u16
  r_crclist :: ee_u16
  r_crcmatrix :: ee_u16
  r_crcstate :: ee_u16
  r_err :: ee_s16
  heads :: "list_head list"
  datas :: "list_data list"
  mats :: matrices
  state_mem :: "ee_u8 list"

definition ID_LIST :: ee_u32 where "ID_LIST = push_bit 0 1"
definition ID_MATRIX :: ee_u32 where "ID_MATRIX = push_bit 1 1"
definition ID_STATE :: ee_u32 where "ID_STATE = push_bit 2 1"
definition ALL_ALGORITHMS_MASK :: ee_u32 where
  "ALL_ALGORITHMS_MASK = ID_LIST OR ID_MATRIX OR ID_STATE"
definition NUM_ALGORITHMS :: nat where "NUM_ALGORITHMS = 3"

end
