(* ===== verification/Core_List.thy ===== *)
theory Core_List
  imports Coremark
begin

text \<open>
  \<open>core_list_join.c\<close>: the linked list of the benchmark, with its in-place operations on a
  store of cells.  Every dereference of NULL or of a cell outside the block is undefined
  behaviour (\<^term>\<open>None\<close>), and so is the overflow of the signed counters of the sort.
\<close>

section \<open>Accesses through a pointer\<close>

definition get_next :: "core_results \<Rightarrow> nat option \<Rightarrow> nat option option" where
  "get_next w p = do { a \<leftarrow> p; c \<leftarrow> rd (heads w) a; Some (lh_next c) }"

definition set_next :: "core_results \<Rightarrow> nat option \<Rightarrow> nat option \<Rightarrow> core_results option" where
  "set_next w p v = do { a \<leftarrow> p; c \<leftarrow> rd (heads w) a;
     hs \<leftarrow> wr (heads w) a (c\<lparr>lh_next := v\<rparr>); Some (w\<lparr>heads := hs\<rparr>) }"

definition get_info :: "core_results \<Rightarrow> nat option \<Rightarrow> nat option" where
  "get_info w p = do { a \<leftarrow> p; c \<leftarrow> rd (heads w) a; Some (lh_info c) }"

definition set_info :: "core_results \<Rightarrow> nat option \<Rightarrow> nat \<Rightarrow> core_results option" where
  "set_info w p v = do { a \<leftarrow> p; c \<leftarrow> rd (heads w) a;
     hs \<leftarrow> wr (heads w) a (c\<lparr>lh_info := v\<rparr>); Some (w\<lparr>heads := hs\<rparr>) }"

definition get_data :: "core_results \<Rightarrow> nat option \<Rightarrow> list_data option" where
  "get_data w p = do { i \<leftarrow> get_info w p; rd (datas w) i }"

definition set_data16 :: "core_results \<Rightarrow> nat \<Rightarrow> ee_s16 \<Rightarrow> core_results option" where
  "set_data16 w i v = do { d \<leftarrow> rd (datas w) i;
     ds \<leftarrow> wr (datas w) i (d\<lparr>ld_data16 := v\<rparr>); Some (w\<lparr>datas := ds\<rparr>) }"

definition set_idx :: "core_results \<Rightarrow> nat \<Rightarrow> ee_s16 \<Rightarrow> core_results option" where
  "set_idx w i v = do { d \<leftarrow> rd (datas w) i;
     ds \<leftarrow> wr (datas w) i (d\<lparr>ld_idx := v\<rparr>); Some (w\<lparr>datas := ds\<rparr>) }"

section \<open>Comparing data items\<close>

text \<open>The switch on the type of function: the value and the first CRC of its algorithm.\<close>

definition calc_switch :: "ee_s16 \<Rightarrow> ee_s16 \<Rightarrow> ee_s16 \<Rightarrow> core_results \<Rightarrow> (ee_s16 \<times> core_results) option" where
  "calc_switch flag dtype data res =
     (if flag = 0 then do {
        let step = (if sint dtype < 0x22 then 0x22 else dtype);
        (r, mem) \<leftarrow> core_bench_state (r_size res) (state_mem res) (r_seed1 res) (r_seed2 res)
           step (r_crc res);
        let res' = res\<lparr>state_mem := mem\<rparr>;
        Some (r, if r_crcstate res' = 0 then res'\<lparr>r_crcstate := r\<rparr> else res')
      }
      else if flag = 1 then do {
        (r, m) \<leftarrow> core_bench_matrix (r_mat res) (mats res) dtype (r_crc res);
        let res' = res\<lparr>mats := m\<rparr>;
        Some (r, if r_crcmatrix res' = 0 then res'\<lparr>r_crcmatrix := r\<rparr> else res')
      }
      else Some (data, res))"

text \<open>The value of an item: computed by one of the other algorithms, then cached in bit 7.\<close>

definition calc_func :: "nat \<Rightarrow> core_results \<Rightarrow> (ee_s16 \<times> core_results) option" where
  "calc_func pdata res =
     do {
       d \<leftarrow> rd (datas res) pdata;
       let data = ld_data16 d;
       let optype = signed_drop_bit 7 data AND 1;
       if optype \<noteq> 0 then Some (data AND 0x007f, res)
       else do {
         let flag = data AND 0x7;
         let dtype0 = signed_drop_bit 3 data AND 0xf;
         let dtype = dtype0 OR push_bit 4 dtype0;
         (retval, res1) \<leftarrow> calc_switch flag dtype data res;
         let res2 = res1\<lparr>r_crc := crcu16 retval (r_crc res1)\<rparr>;
         let retval' = retval AND 0x007f;
         res3 \<leftarrow> set_data16 res2 pdata ((data AND 0xff00) OR 0x0080 OR retval');
         Some (retval', res3)
       }
     }"

definition cmp_complex :: "nat \<Rightarrow> nat \<Rightarrow> core_results \<Rightarrow> (ee_s32 \<times> core_results) option" where
  "cmp_complex a b res =
     do {
       (val1, res1) \<leftarrow> calc_func a res;
       (val2, res2) \<leftarrow> calc_func b res1;
       Some (scast val1 - scast val2, res2)
     }"

text \<open>The original data from its backup in the upper half.\<close>

definition regen :: "ee_s16 \<Rightarrow> ee_s16" where
  "regen x = (x AND 0xff00) OR (0x00ff AND signed_drop_bit 8 x)"

text \<open>\<open>cmp_idx\<close>, with the test \<open>res == NULL\<close> as its first argument.\<close>

definition cmp_idx :: "bool \<Rightarrow> nat \<Rightarrow> nat \<Rightarrow> core_results \<Rightarrow> (ee_s32 \<times> core_results) option" where
  "cmp_idx res_null a b w =
     do {
       w2 \<leftarrow> (if res_null then do {
                da \<leftarrow> rd (datas w) a;
                w1 \<leftarrow> set_data16 w a (regen (ld_data16 da));
                db \<leftarrow> rd (datas w1) b;
                set_data16 w1 b (regen (ld_data16 db))
              } else Some w);
       da \<leftarrow> rd (datas w2) a;
       db \<leftarrow> rd (datas w2) b;
       Some (scast (ld_idx da) - scast (ld_idx db), w2)
     }"

definition copy_info :: "core_results \<Rightarrow> nat \<Rightarrow> list_data \<Rightarrow> core_results option" where
  "copy_info w to from =
     do {
       w1 \<leftarrow> set_data16 w to (ld_data16 from);
       set_idx w1 to (ld_idx from)
     }"

section \<open>The operations on the links\<close>

definition core_list_insert_new :: "nat option \<Rightarrow> list_data \<Rightarrow> nat \<Rightarrow> nat \<Rightarrow> nat \<Rightarrow> nat \<Rightarrow> core_results
    \<Rightarrow> (nat option \<times> nat \<times> nat \<times> core_results) option" where
  "core_list_insert_new insert_point info memblock datablock memblock_end datablock_end w =
     (if memblock + 1 \<ge> memblock_end then Some (None, memblock, datablock, w)
      else if datablock + 1 \<ge> datablock_end then Some (None, memblock, datablock, w)
      else do {
        let newitem = Some memblock;
        n \<leftarrow> get_next w insert_point;
        w1 \<leftarrow> set_next w newitem n;
        w2 \<leftarrow> set_next w1 insert_point newitem;
        w3 \<leftarrow> set_info w2 newitem datablock;
        w4 \<leftarrow> copy_info w3 datablock info;
        Some (newitem, memblock + 1, datablock + 1, w4)
      })"

definition core_list_remove :: "nat option \<Rightarrow> core_results \<Rightarrow> (nat option \<times> core_results) option" where
  "core_list_remove item w =
     do {
       ret \<leftarrow> get_next w item;
       tmp \<leftarrow> get_info w item;
       i \<leftarrow> get_info w ret;
       w1 \<leftarrow> set_info w item i;
       w2 \<leftarrow> set_info w1 ret tmp;
       n \<leftarrow> get_next w2 item;
       nn \<leftarrow> get_next w2 n;
       w3 \<leftarrow> set_next w2 item nn;
       w4 \<leftarrow> set_next w3 ret None;
       Some (ret, w4)
     }"

definition core_list_undo_remove :: "nat option \<Rightarrow> nat option \<Rightarrow> core_results
    \<Rightarrow> (nat option \<times> core_results) option" where
  "core_list_undo_remove item_removed item_modified w =
     do {
       tmp \<leftarrow> get_info w item_removed;
       i \<leftarrow> get_info w item_modified;
       w1 \<leftarrow> set_info w item_removed i;
       w2 \<leftarrow> set_info w1 item_modified tmp;
       n \<leftarrow> get_next w2 item_modified;
       w3 \<leftarrow> set_next w2 item_removed n;
       w4 \<leftarrow> set_next w3 item_modified item_removed;
       Some (item_removed, w4)
     }"

text \<open>The two loops of \<open>core_list_find\<close>; on a cyclic list they may never return.\<close>

partial_function (option) find_idx :: "core_results \<Rightarrow> ee_s16 \<Rightarrow> nat option \<Rightarrow> nat option option" where
  "find_idx w idx list =
     (if list = None then Some None
      else do {
        d \<leftarrow> get_data w list;
        if ld_idx d \<noteq> idx then do { n \<leftarrow> get_next w list; find_idx w idx n }
        else Some list
      })"

partial_function (option) find_data :: "core_results \<Rightarrow> ee_s16 \<Rightarrow> nat option \<Rightarrow> nat option option" where
  "find_data w data16 list =
     (if list = None then Some None
      else do {
        d \<leftarrow> get_data w list;
        if ld_data16 d AND 0xff \<noteq> data16 then do { n \<leftarrow> get_next w list; find_data w data16 n }
        else Some list
      })"

text \<open>The item to look for: its index, and its data where it has been assigned.\<close>

definition core_list_find :: "nat option \<Rightarrow> ee_s16 \<Rightarrow> ee_s16 option \<Rightarrow> core_results \<Rightarrow> nat option option" where
  "core_list_find list idx data16 w =
     (if 0 \<le> sint idx then find_idx w idx list
      else if list = None then Some None
      else do { d \<leftarrow> data16; find_data w d list })"

partial_function (option) reverse_loop :: "nat option \<Rightarrow> nat option \<Rightarrow> core_results
    \<Rightarrow> (nat option \<times> core_results) option" where
  "reverse_loop nxt list w =
     (if list = None then Some (nxt, w)
      else do {
        tmp \<leftarrow> get_next w list;
        w' \<leftarrow> set_next w list nxt;
        reverse_loop list tmp w'
      })"

definition core_list_reverse :: "nat option \<Rightarrow> core_results \<Rightarrow> (nat option \<times> core_results) option" where
  "core_list_reverse list w = reverse_loop None list w"

section \<open>Merge sort\<close>

type_synonym list_cmp = "nat \<Rightarrow> nat \<Rightarrow> core_results \<Rightarrow> (ee_s32 \<times> core_results) option"

text \<open>A signed 32-bit counter, whose overflow is undefined.\<close>

definition s32 :: "nat \<Rightarrow> nat option" where
  "s32 n = (if n < 2 ^ 31 then Some n else None)"

text \<open>Stepping \<open>q\<close> along at most \<open>insize\<close> places: the rest of the count is the argument.\<close>

primrec split_loop :: "nat \<Rightarrow> core_results \<Rightarrow> nat option \<Rightarrow> nat \<Rightarrow> (nat option \<times> nat) option" where
  "split_loop 0 w q psize = Some (q, psize)"
| "split_loop (Suc n) w q psize =
     do {
       q' \<leftarrow> get_next w q;
       if q' = None then Some (None, psize + 1) else split_loop n w q' (psize + 1)
     }"

text \<open>Which run the next element comes from; only the last branch compares.\<close>

definition take_p :: "list_cmp \<Rightarrow> nat option \<Rightarrow> nat \<Rightarrow> nat option \<Rightarrow> nat \<Rightarrow> core_results
    \<Rightarrow> (bool \<times> core_results) option" where
  "take_p cmp p psize q qsize w =
     (if psize = 0 then Some (False, w)
      else if qsize = 0 \<or> q = None then Some (True, w)
      else do {
        a \<leftarrow> get_info w p;
        b \<leftarrow> get_info w q;
        (c, w') \<leftarrow> cmp a b w;
        Some (sint c \<le> 0, w')
      })"

definition append_elem :: "nat option \<Rightarrow> nat option \<Rightarrow> nat option \<Rightarrow> core_results
    \<Rightarrow> (nat option \<times> core_results) option" where
  "append_elem list tail e w =
     (if tail \<noteq> None then do { w' \<leftarrow> set_next w tail e; Some (list, w') }
      else Some (e, w))"

text \<open>
  Merging the run at \<open>p\<close> with the run at \<open>q\<close>.  The two guards repeat what the choice of the
  source implies, so that the recursion visibly consumes \<open>psize + qsize\<close>.
\<close>

function merge_loop :: "list_cmp \<Rightarrow> nat option \<Rightarrow> nat \<Rightarrow> nat option \<Rightarrow> nat \<Rightarrow> nat option \<Rightarrow> nat option
    \<Rightarrow> core_results \<Rightarrow> (nat option \<times> nat option \<times> nat option \<times> core_results) option" where
  "merge_loop cmp p psize q qsize list tail w =
     (if 0 < psize \<or> (0 < qsize \<and> q \<noteq> None) then do {
        (from_p, w1) \<leftarrow> take_p cmp p psize q qsize w;
        if from_p \<and> 0 < psize then do {
          n \<leftarrow> get_next w1 p;
          (list', w2) \<leftarrow> append_elem list tail p w1;
          merge_loop cmp n (psize - 1) q qsize list' p w2
        }
        else if 0 < qsize then do {
          n \<leftarrow> get_next w1 q;
          (list', w2) \<leftarrow> append_elem list tail q w1;
          merge_loop cmp p psize n (qsize - 1) list' q w2
        }
        else None
      }
      else Some (q, list, tail, w))"
  by pat_completeness auto
termination
  by (relation "measure (\<lambda>(cmp, p, psize, q, qsize, list, tail, w). psize + qsize)") auto

declare merge_loop.simps [simp del, loop_simps]

text \<open>One pass over the list, merging neighbouring runs of \<open>insize\<close> elements.\<close>

partial_function (option) pass_loop :: "list_cmp \<Rightarrow> nat \<Rightarrow> nat option \<Rightarrow> nat option \<Rightarrow> nat option \<Rightarrow> nat
    \<Rightarrow> core_results \<Rightarrow> (nat option \<times> nat option \<times> nat \<times> core_results) option" where
  "pass_loop cmp insize p list tail nmerges w =
     (if p = None then Some (list, tail, nmerges, w)
      else do {
        nmerges' \<leftarrow> s32 (nmerges + 1);
        (q, psize) \<leftarrow> split_loop insize w p 0;
        (q', list', tail', w') \<leftarrow> merge_loop cmp p psize q insize list tail w;
        pass_loop cmp insize q' list' tail' nmerges' w'
      })"

partial_function (option) sort_loop :: "list_cmp \<Rightarrow> nat \<Rightarrow> nat option \<Rightarrow> core_results
    \<Rightarrow> (nat option \<times> core_results) option" where
  "sort_loop cmp insize list w =
     do {
       (list', tail, nmerges, w1) \<leftarrow> pass_loop cmp insize list None None 0 w;
       w2 \<leftarrow> set_next w1 tail None;
       if nmerges \<le> 1 then Some (list', w2)
       else do {
         insize' \<leftarrow> s32 (insize * 2);
         sort_loop cmp insize' list' w2
       }
     }"

definition core_list_mergesort :: "nat option \<Rightarrow> list_cmp \<Rightarrow> core_results
    \<Rightarrow> (nat option \<times> core_results) option" where
  "core_list_mergesort list cmp w = sort_loop cmp 1 list w"

section \<open>The benchmark\<close>

text \<open>The variables of the find loop: \<open>info\<close> (its data unassigned at first), \<open>list\<close>, the counters.\<close>

record find_vars =
  fv_idx :: ee_s16
  fv_data16 :: "ee_s16 option"
  fv_list :: "nat option"
  fv_found :: ee_u16
  fv_missed :: ee_u16
  fv_retval :: ee_u16

text \<open>Moving the item after \<open>this_find\<close> to the place after the head.\<close>

definition cache_next :: "nat option \<Rightarrow> nat option \<Rightarrow> core_results \<Rightarrow> core_results option" where
  "cache_next this_find list w =
     do {
       finder \<leftarrow> get_next w this_find;
       if finder = None then Some w
       else do {
         n \<leftarrow> get_next w finder;
         w1 \<leftarrow> set_next w this_find n;
         h \<leftarrow> get_next w1 list;
         w2 \<leftarrow> set_next w1 finder h;
         set_next w2 list finder
       }
     }"

definition find_step :: "nat \<Rightarrow> find_vars \<times> core_results \<Rightarrow> (find_vars \<times> core_results) option" where
  "find_step i s =
     (let (v, w) = s; data16 = of_nat i AND 0xff
      in do {
        this_find \<leftarrow> core_list_find (fv_list v) (fv_idx v) (Some data16) w;
        (list, w1) \<leftarrow> core_list_reverse (fv_list v) w;
        (v', w2) \<leftarrow>
          (if this_find = None then do {
             n \<leftarrow> get_next w1 list;
             d \<leftarrow> get_data w1 n;
             Some (v\<lparr>fv_missed := fv_missed v + 1,
               fv_retval := fv_retval v + (signed_drop_bit 8 (ld_data16 d) AND 1)\<rparr>, w1)
           }
           else do {
             d \<leftarrow> get_data w1 this_find;
             let r = (if ld_data16 d AND 1 \<noteq> 0 then fv_retval v + (signed_drop_bit 9 (ld_data16 d) AND 1)
               else fv_retval v);
             w' \<leftarrow> cache_next this_find list w1;
             Some (v\<lparr>fv_found := fv_found v + 1, fv_retval := r\<rparr>, w')
           });
        Some (v'\<lparr>fv_idx := (if 0 \<le> sint (fv_idx v) then fv_idx v + 1 else fv_idx v),
          fv_data16 := Some data16, fv_list := list\<rparr>, w2)
      })"

text \<open>\<open>while (finder)\<close>: the CRC of the data of \<open>list\<close>, once per item from \<open>finder\<close> on.\<close>

partial_function (option) crc_loop :: "core_results \<Rightarrow> nat option \<Rightarrow> nat option \<Rightarrow> ee_u16
    \<Rightarrow> ee_u16 option" where
  "crc_loop w list finder retval =
     (if finder = None then Some retval
      else do {
        d \<leftarrow> get_data w list;
        n \<leftarrow> get_next w finder;
        crc_loop w list n (crc16 (ld_data16 d) retval)
      })"

definition core_bench_list :: "core_results \<Rightarrow> ee_s16 \<Rightarrow> (ee_u16 \<times> core_results) option" where
  "core_bench_list res finder_idx =
     do {
       (v, w1) \<leftarrow> for_count find_step 0 (nat (sint (r_seed3 res)))
         (\<lparr>fv_idx = finder_idx, fv_data16 = None, fv_list = r_list res,
           fv_found = 0, fv_missed = 0, fv_retval = 0\<rparr>, res);
       let retval1 = fv_retval v + (fv_found v * 4 - fv_missed v);
       (list2, w2) \<leftarrow>
         (if 0 < sint finder_idx then core_list_mergesort (fv_list v) cmp_complex w1
          else Some (fv_list v, w1));
       n \<leftarrow> get_next w2 list2;
       (remover, w3) \<leftarrow> core_list_remove n w2;
       finder \<leftarrow> core_list_find list2 (fv_idx v) (fv_data16 v) w3;
       finder' \<leftarrow> (if finder = None then get_next w3 list2 else Some finder);
       retval2 \<leftarrow> crc_loop w3 list2 finder' retval1;
       n' \<leftarrow> get_next w3 list2;
       (remover', w4) \<leftarrow> core_list_undo_remove remover n' w3;
       (list5, w5) \<leftarrow> core_list_mergesort list2 (cmp_idx True) w4;
       finder5 \<leftarrow> get_next w5 list5;
       retval3 \<leftarrow> crc_loop w5 list5 finder5 retval2;
       Some (retval3, w5)
     }"

section \<open>Initialising the list\<close>

text \<open>The data of the item inserted with the counter \<open>i\<close>.\<close>

definition item_data :: "ee_s16 \<Rightarrow> nat \<Rightarrow> ee_s16" where
  "item_data seed i =
     (let datpat = ucast (scast seed XOR (of_nat i :: ee_u32)) AND 0xf;
          dat = push_bit 3 datpat OR ucast ((of_nat i :: ee_u32) AND 7)
      in push_bit 8 dat OR (dat :: ee_u16))"

text \<open>The index given at the counter \<open>i\<close>, which the expression increments before its second use.\<close>

definition item_idx :: "ee_u32 \<Rightarrow> ee_s16 \<Rightarrow> ee_u32 \<Rightarrow> ee_s16" where
  "item_idx sz seed i =
     (if i < sz div 5 then ucast i
      else (let pat = (ucast (i XOR scast seed) :: ee_u16)
            in ucast (0x3fff AND (push_bit 8 ((i + 1) AND 7) OR (ucast pat :: ee_u32)))))"

partial_function (option) index_loop :: "ee_u32 \<Rightarrow> ee_s16 \<Rightarrow> nat option \<Rightarrow> ee_u32 \<Rightarrow> core_results
    \<Rightarrow> core_results option" where
  "index_loop sz seed finder i w =
     do {
       n \<leftarrow> get_next w finder;
       if n = None then Some w
       else do {
         d \<leftarrow> get_info w finder;
         w' \<leftarrow> set_idx w d (item_idx sz seed i);
         index_loop sz seed n (i + 1) w'
       }
     }"

definition insert_step :: "nat \<Rightarrow> ee_s16 \<Rightarrow> nat \<Rightarrow> nat \<times> nat \<times> core_results
    \<Rightarrow> (nat \<times> nat \<times> core_results) option" where
  "insert_step sz seed i s =
     (let (memblock, datablock, w) = s in do {
        (r, memblock', datablock', w') \<leftarrow>
          core_list_insert_new (Some 0) \<lparr>ld_data16 = item_data seed i, ld_idx = 0x7fff\<rparr>
            memblock datablock sz sz w;
        Some (memblock', datablock', w')
      })"

text \<open>The head is the first cell of the block, and its data item the first of the data area.\<close>

definition core_list_init :: "ee_u32 \<Rightarrow> ee_s16 \<Rightarrow> core_results \<Rightarrow> (nat option \<times> core_results) option" where
  "core_list_init blksize seed w =
     (let per_item = 16 + 4; sz = blksize div per_item - 2
      in do {
        w1 \<leftarrow> set_next w (Some 0) None;
        w2 \<leftarrow> set_info w1 (Some 0) 0;
        w3 \<leftarrow> set_idx w2 0 0;
        w4 \<leftarrow> set_data16 w3 0 0x8080;
        (r, memblock, datablock, w5) \<leftarrow>
          core_list_insert_new (Some 0) \<lparr>ld_data16 = 0xffff, ld_idx = 0x7fff\<rparr> 1 1 (unat sz) (unat sz) w4;
        (memblock', datablock', w6) \<leftarrow>
          for_count (insert_step (unat sz) seed) 0 (unat sz) (memblock, datablock, w5);
        finder \<leftarrow> get_next w6 (Some 0);
        w7 \<leftarrow> index_loop sz seed finder 1 w6;
        core_list_mergesort (Some 0) (cmp_idx True) w7
      })"

declare find_idx.simps [code] find_data.simps [code] reverse_loop.simps [code]
  pass_loop.simps [code] crc_loop.simps [code] index_loop.simps [code] sort_loop.simps [code]

end
