(* ===== verification/Core_List_Sort.thy ===== *)
theory Core_List_Sort
  imports Core_List
begin

text \<open>
  The link structure of the list and the correctness of its merge sort.  The sort is verified
  once, in a locale that states what it relies on of the comparison function: it may update
  the data and the results but not the links, and what it has once decided stays decided.
\<close>

section \<open>List segments\<close>

text \<open>\<open>lseg hs p xs q\<close>: the cells \<open>xs\<close> lead from the pointer \<open>p\<close> to the pointer \<open>q\<close>.\<close>

primrec lseg :: "list_head list \<Rightarrow> nat option \<Rightarrow> nat list \<Rightarrow> nat option \<Rightarrow> bool" where
  "lseg hs p [] q \<longleftrightarrow> p = q"
| "lseg hs p (x # xs) q \<longleftrightarrow> p = Some x \<and> x < length hs \<and> lseg hs (lh_next (hs ! x)) xs q"

lemma lseg_append: "lseg hs p (xs @ ys) q \<longleftrightarrow> (\<exists>m. lseg hs p xs m \<and> lseg hs m ys q)"
  by (induction xs arbitrary: p) auto

lemma lseg_update [simp]: "a \<notin> set xs \<Longrightarrow> lseg (hs[a := c]) p xs q \<longleftrightarrow> lseg hs p xs q"
  by (induction xs arbitrary: p) auto

lemma lseg_in: "lseg hs p xs q \<Longrightarrow> x \<in> set xs \<Longrightarrow> x < length hs"
  by (induction xs arbitrary: p) auto

lemma lseg_None [simp]: "lseg hs None xs q \<longleftrightarrow> xs = [] \<and> q = None"
  by (cases xs) auto

lemma lseg_head: "lseg hs p xs q \<Longrightarrow> xs \<noteq> [] \<Longrightarrow> p = Some (hd xs) \<and> hd xs < length hs"
  by (cases xs) auto

text \<open>What an operation that only redirects the links of the cells \<open>S\<close> leaves alone.\<close>

definition frame :: "nat set \<Rightarrow> list_head list \<Rightarrow> list_head list \<Rightarrow> bool" where
  "frame S hs hs' \<longleftrightarrow> map lh_info hs' = map lh_info hs \<and> (\<forall>a. a \<notin> S \<longrightarrow> hs' ! a = hs ! a)"

lemma frame_refl [simp]: "frame S hs hs"
  by (simp add: frame_def)

lemma frame_trans: "frame S h1 h2 \<Longrightarrow> frame S h2 h3 \<Longrightarrow> frame S h1 h3"
  by (simp add: frame_def)

lemma frame_mono: "frame S h1 h2 \<Longrightarrow> S \<subseteq> T \<Longrightarrow> frame T h1 h2"
  by (auto simp: frame_def)

lemma frame_length: "frame S hs hs' \<Longrightarrow> length hs' = length hs"
  unfolding frame_def by (metis length_map)

lemma frame_infos: "frame S hs hs' \<Longrightarrow> map lh_info hs' = map lh_info hs"
  by (simp add: frame_def)

lemma frame_next: "a < length hs \<Longrightarrow> a \<in> S \<Longrightarrow> frame S hs (hs[a := (hs ! a)\<lparr>lh_next := v\<rparr>])"
  by (auto simp: frame_def nth_list_update intro: nth_equalityI)

lemma lseg_frame: "frame S hs hs' \<Longrightarrow> set xs \<inter> S = {} \<Longrightarrow> lseg hs' p xs q \<longleftrightarrow> lseg hs p xs q"
  by (induction xs arbitrary: p) (auto simp: frame_def frame_length[unfolded frame_def])

text \<open>The cells of a list, its values and the data items fix the whole link structure.\<close>

lemma lseg_unique:
  assumes "lseg hs p xs None" "lseg hs' p' xs None" "frame (set xs) hs hs'"
  shows "hs' = hs \<and> p' = p"
proof
  show "p' = p" using assms(1,2) by (cases xs) auto
  have next_eq: "lh_next (hs' ! a) = lh_next (hs ! a)" if "a \<in> set xs" for a
    using assms(1,2) that
  proof (induction xs arbitrary: p p')
    case (Cons x xs)
    then show ?case by (cases xs) auto
  qed simp
  show "hs' = hs"
  proof (rule nth_equalityI)
    show len: "length hs' = length hs" using assms(3) by (rule frame_length)
    fix a assume a: "a < length hs'"
    then have "lh_info (hs' ! a) = lh_info (hs ! a)"
      using frame_infos[OF assms(3)] len by (metis nth_map)
    then show "hs' ! a = hs ! a"
      using next_eq assms(3) by (cases "a \<in> set xs") (auto simp: frame_def)
  qed
qed

lemma get_next_in [simp]: "a < length (heads w) \<Longrightarrow> get_next w (Some a) = Some (lh_next (heads w ! a))"
  by (simp add: get_next_def)

lemma get_info_in [simp]: "a < length (heads w) \<Longrightarrow> get_info w (Some a) = Some (lh_info (heads w ! a))"
  by (simp add: get_info_def)

lemma set_next_in [simp]:
  "a < length (heads w) \<Longrightarrow>
     set_next w (Some a) v = Some (w\<lparr>heads := (heads w)[a := (heads w ! a)\<lparr>lh_next := v\<rparr>]\<rparr>)"
  by (simp add: set_next_def)

lemma set_info_in [simp]:
  "a < length (heads w) \<Longrightarrow>
     set_info w (Some a) v = Some (w\<lparr>heads := (heads w)[a := (heads w ! a)\<lparr>lh_info := v\<rparr>]\<rparr>)"
  by (simp add: set_info_def)

lemma pointer_None [simp]:
  "get_next w None = None" "set_next w None v = None" "get_info w None = None" "set_info w None i = None"
  by (simp_all add: get_next_def set_next_def get_info_def set_info_def)

section \<open>Splitting off a run\<close>

lemma split_loop_result:
  assumes "lseg (heads w) q rest None" "rest \<noteq> []"
  shows "\<exists>q'. split_loop n w q psize = Some (q', psize + min n (length rest))
    \<and> lseg (heads w) q (take n rest) q' \<and> lseg (heads w) q' (drop n rest) None"
  using assms
proof (induction n arbitrary: q rest psize)
  case (Suc n)
  then obtain a rest' where r: "rest = a # rest'" "q = Some a" "a < length (heads w)"
    "lseg (heads w) (lh_next (heads w ! a)) rest' None" by (cases rest) auto
  show ?case
  proof (cases "rest' = []")
    case True
    then show ?thesis using r by simp
  next
    case False
    then obtain b where "lh_next (heads w ! a) = Some b" using r(4) by (cases rest') auto
    then show ?thesis using Suc.IH[OF r(4) False, of "Suc psize"] r by auto
  qed
qed simp

section \<open>The output segment\<close>

definition out_seg :: "list_head list \<Rightarrow> nat option \<Rightarrow> nat option \<Rightarrow> nat list \<Rightarrow> bool" where
  "out_seg hs list tail out \<longleftrightarrow>
     (if out = [] then list = None \<and> tail = None
      else tail = Some (last out) \<and> (\<exists>e. lseg hs list out e))"

lemma append_elem_result:
  assumes "out_seg (heads w) list tail out" "distinct (out @ [x])" "x < length (heads w)"
  shows "\<exists>list' hs'. append_elem list tail (Some x) w = Some (list', w\<lparr>heads := hs'\<rparr>)
    \<and> out_seg hs' list' (Some x) (out @ [x]) \<and> frame (set out) (heads w) hs'"
proof (cases "out = []")
  case True
  then have "append_elem list tail (Some x) w = Some (Some x, w\<lparr>heads := heads w\<rparr>)"
    using assms(1) by (simp add: out_seg_def append_elem_def)
  moreover have "out_seg (heads w) (Some x) (Some x) (out @ [x])"
    using True assms(3) by (auto simp: out_seg_def)
  ultimately show ?thesis by (metis frame_refl)
next
  case False
  then obtain bo t where out: "out = bo @ [t]" by (cases out rule: rev_cases) auto
  obtain e where e: "lseg (heads w) list (bo @ [t]) e" "tail = Some t"
    using assms(1) by (auto simp: out_seg_def out)
  have t: "t < length (heads w)" "t \<in> set out" using lseg_in[OF e(1), of t] by (simp_all add: out)
  let ?hs = "(heads w)[t := (heads w ! t)\<lparr>lh_next := Some x\<rparr>]"
  have "t \<notin> set bo" using assms(2) by (simp add: out)
  then have "lseg ?hs list (bo @ [t]) (Some x)" using e(1) t(1) by (auto simp: lseg_append)
  then have "lseg ?hs list (out @ [x]) (lh_next (?hs ! x))"
    using assms(3) unfolding out lseg_append[of _ _ "bo @ [t]"] by auto
  moreover have "append_elem list tail (Some x) w = Some (list, w\<lparr>heads := ?hs\<rparr>)"
    using e(2) t by (simp add: append_elem_def)
  moreover have "frame (set out) (heads w) ?hs" using t by (rule frame_next)
  ultimately show ?thesis by (auto simp: out_seg_def)
qed

section \<open>The interface of the comparison\<close>

text \<open>
  A comparison that returns on the data items below \<open>items\<close> while the invariant holds, keeps
  the links, and evolves the results along a preorder.
\<close>

locale comparison =
  fixes cmp :: list_cmp
    and inv :: "core_results \<Rightarrow> bool"
    and ext :: "core_results \<Rightarrow> core_results \<Rightarrow> bool"
    and items :: nat
  assumes cmp_returns: "inv w \<Longrightarrow> a < items \<Longrightarrow> b < items \<Longrightarrow>
      \<exists>c w'. cmp a b w = Some (c, w') \<and> heads w' = heads w \<and> inv w' \<and> ext w w'"
    and ext_refl: "ext w w"
    and ext_trans: "ext w w1 \<Longrightarrow> ext w1 w2 \<Longrightarrow> ext w w2"
    and inv_links: "inv (w\<lparr>heads := hs\<rparr>) = inv w"
    and ext_links: "ext w (w\<lparr>heads := hs\<rparr>)"

text \<open>One that decides an order, which later comparisons do not revoke.\<close>

locale list_order = comparison +
  fixes le :: "core_results \<Rightarrow> nat \<Rightarrow> nat \<Rightarrow> bool"
  assumes cmp_decides: "inv w \<Longrightarrow> a < items \<Longrightarrow> b < items \<Longrightarrow> cmp a b w = Some (c, w') \<Longrightarrow>
      if sint c \<le> 0 then le w' a b else le w' b a"
    and le_trans: "le w a b \<Longrightarrow> le w b d \<Longrightarrow> le w a d"
    and le_ext: "ext w w' \<Longrightarrow> le w a b \<Longrightarrow> le w' a b"
begin

definition sorted_run :: "core_results \<Rightarrow> nat list \<Rightarrow> nat list \<Rightarrow> bool" where
  "sorted_run w ids xs = sorted_wrt (\<lambda>x y. le w (ids ! x) (ids ! y)) xs"

lemma sorted_run_ext: "ext w w' \<Longrightarrow> sorted_run w ids xs \<Longrightarrow> sorted_run w' ids xs"
  unfolding sorted_run_def by (erule sorted_wrt_mono_rel[rotated]) (rule le_ext)

lemma sorted_run_Cons:
  "sorted_run w ids (x # xs) \<longleftrightarrow> (\<forall>y \<in> set xs. le w (ids ! x) (ids ! y)) \<and> sorted_run w ids xs"
  by (auto simp: sorted_run_def)

lemma sorted_run_Nil [simp]: "sorted_run w ids []"
  by (simp add: sorted_run_def)

text \<open>Putting the least element of two runs before what they merge to.\<close>

lemma merged_Cons:
  assumes "sorted_run w ids (x # P)" "sorted_run w ids Q" "Q = [] \<or> le w (ids ! x) (ids ! hd Q)"
    "mset M = mset (P @ Q)" "sorted_run w ids M"
  shows "sorted_run w ids (x # M)"
proof -
  have "le w (ids ! x) (ids ! y)" if "y \<in> set Q" for y
    using that assms(2,3) le_trans by (cases Q) (auto simp: sorted_run_Cons)
  then show ?thesis using assms(1,5) mset_eq_setD[OF assms(4)] by (auto simp: sorted_run_Cons)
qed

lemma take_p_result:
  assumes "inv w" "lseg (heads w) p P pe" "length P = psize" "lseg (heads w) q (Q @ R) None"
    "length Q \<le> qsize" "length Q = qsize \<or> R = []" "map lh_info (heads w) = ids"
    "\<forall>x \<in> set (P @ Q). ids ! x < items" "P @ Q \<noteq> []"
  shows "\<exists>b w'. take_p cmp p psize q qsize w = Some (b, w') \<and> heads w' = heads w \<and> inv w' \<and> ext w w'
    \<and> (if b then P \<noteq> [] \<and> (Q = [] \<or> le w' (ids ! hd P) (ids ! hd Q))
       else Q \<noteq> [] \<and> (P = [] \<or> le w' (ids ! hd Q) (ids ! hd P)))"
proof (cases P)
  case Nil
  then show ?thesis using assms(1,3,9) ext_refl by (auto simp: take_p_def)
next
  case P: (Cons x P')
  show ?thesis
  proof (cases Q)
    case Nil
    then show ?thesis using assms P ext_refl by (auto simp: take_p_def)
  next
    case Q: (Cons y Q')
    have xy: "p = Some x" "x < length (heads w)" "q = Some y" "y < length (heads w)"
      using assms(2,4) P Q by auto
    have i: "lh_info (heads w ! x) = ids ! x" "lh_info (heads w ! y) = ids ! y"
      using xy assms(7) by auto
    have "ids ! x < items" "ids ! y < items" using assms(8) P Q by auto
    then obtain c w' where c: "cmp (ids ! x) (ids ! y) w = Some (c, w')" "heads w' = heads w" "inv w'" "ext w w'"
      using cmp_returns assms(1) by blast
    have "if sint c \<le> 0 then le w' (ids ! x) (ids ! y) else le w' (ids ! y) (ids ! x)"
      using cmp_decides assms(1) \<open>ids ! x < items\<close> \<open>ids ! y < items\<close> c(1) by blast
    then show ?thesis using assms(3,5) P Q xy i c by (auto simp: take_p_def)
  qed
qed

section \<open>Merging two runs\<close>

text \<open>The invariant of the merge: the output so far, the two runs, and the rest of the list.\<close>

definition merging :: "nat list \<Rightarrow> nat list \<Rightarrow> core_results \<Rightarrow> nat option \<Rightarrow> nat list \<Rightarrow> nat \<Rightarrow> nat option
    \<Rightarrow> nat list \<Rightarrow> nat \<Rightarrow> nat option \<Rightarrow> nat option \<Rightarrow> nat list \<Rightarrow> bool" where
  "merging ids R w p P psize q Q qsize list tail out \<longleftrightarrow>
     inv w \<and> (\<exists>pe. lseg (heads w) p P pe) \<and> length P = psize
     \<and> lseg (heads w) q (Q @ R) None \<and> length Q \<le> qsize \<and> (length Q = qsize \<or> R = [])
     \<and> out_seg (heads w) list tail out \<and> distinct (out @ P @ Q @ R)
     \<and> map lh_info (heads w) = ids \<and> (\<forall>x \<in> set (P @ Q). ids ! x < items)
     \<and> sorted_run w ids P \<and> sorted_run w ids Q"

lemma merging_step_p:
  assumes "merging ids R w p (x # P) psize q Q qsize list tail out"
    "heads w1 = heads w" "inv w1" "ext w w1"
  shows "\<exists>n list' w2. get_next w1 p = Some n \<and> append_elem list tail p w1 = Some (list', w2)
    \<and> merging ids R w2 n P (psize - 1) q Q qsize list' p (out @ [x])
    \<and> ext w1 w2 \<and> frame (set out) (heads w) (heads w2) \<and> p = Some x \<and> 0 < psize"
proof -
  note m = assms(1)[unfolded merging_def]
  have d: "set P \<inter> set out = {}" "set (Q @ R) \<inter> set out = {}" using m by auto
  have x: "p = Some x" "x < length (heads w1)" using m assms(2) by auto
  have o: "out_seg (heads w1) list tail out" "distinct (out @ [x])" using m assms(2) by auto
  obtain list' hs where a: "append_elem list tail (Some x) w1 = Some (list', w1\<lparr>heads := hs\<rparr>)"
    "out_seg hs list' (Some x) (out @ [x])" "frame (set out) (heads w) hs"
    using append_elem_result[OF o x(2)] assms(2) by auto
  have e: "ext w1 (w1\<lparr>heads := hs\<rparr>)" "ext w (w1\<lparr>heads := hs\<rparr>)"
    using ext_links ext_trans assms(4) by blast+
  have "merging ids R (w1\<lparr>heads := hs\<rparr>) (lh_next (heads w ! x)) P (psize - 1) q Q qsize list' (Some x) (out @ [x])"
    unfolding merging_def
  proof (intro conjI)
    show "\<exists>pe. lseg (heads (w1\<lparr>heads := hs\<rparr>)) (lh_next (heads w ! x)) P pe"
      using m lseg_frame[OF a(3) d(1)] by auto
    show "lseg (heads (w1\<lparr>heads := hs\<rparr>)) q (Q @ R) None"
      using m lseg_frame[OF a(3) d(2)] by auto
    show "sorted_run (w1\<lparr>heads := hs\<rparr>) ids P" "sorted_run (w1\<lparr>heads := hs\<rparr>) ids Q"
      using m sorted_run_ext[OF e(2)] by (auto simp: sorted_run_Cons)
    show "map lh_info (heads (w1\<lparr>heads := hs\<rparr>)) = ids" using m frame_infos[OF a(3)] by simp
  qed (use m a(2) assms(3) inv_links in auto)
  then show ?thesis using x a(1,3) e(1) assms(2) m by auto
qed

lemma merging_step_q:
  assumes "merging ids R w p P psize q (x # Q) qsize list tail out"
    "heads w1 = heads w" "inv w1" "ext w w1"
  shows "\<exists>n list' w2. get_next w1 q = Some n \<and> append_elem list tail q w1 = Some (list', w2)
    \<and> merging ids R w2 p P psize n Q (qsize - 1) list' q (out @ [x])
    \<and> ext w1 w2 \<and> frame (set out) (heads w) (heads w2) \<and> q = Some x \<and> 0 < qsize"
proof -
  note m = assms(1)[unfolded merging_def]
  have d: "set P \<inter> set out = {}" "set (Q @ R) \<inter> set out = {}" using m by auto
  have x: "q = Some x" "x < length (heads w1)" using m assms(2) by auto
  have o: "out_seg (heads w1) list tail out" "distinct (out @ [x])" using m assms(2) by auto
  obtain list' hs where a: "append_elem list tail (Some x) w1 = Some (list', w1\<lparr>heads := hs\<rparr>)"
    "out_seg hs list' (Some x) (out @ [x])" "frame (set out) (heads w) hs"
    using append_elem_result[OF o x(2)] assms(2) by auto
  have e: "ext w1 (w1\<lparr>heads := hs\<rparr>)" "ext w (w1\<lparr>heads := hs\<rparr>)"
    using ext_links ext_trans assms(4) by blast+
  have "merging ids R (w1\<lparr>heads := hs\<rparr>) p P psize (lh_next (heads w ! x)) Q (qsize - 1) list' (Some x) (out @ [x])"
    unfolding merging_def
  proof (intro conjI)
    show "\<exists>pe. lseg (heads (w1\<lparr>heads := hs\<rparr>)) p P pe"
      using m lseg_frame[OF a(3) d(1)] by auto
    show "lseg (heads (w1\<lparr>heads := hs\<rparr>)) (lh_next (heads w ! x)) (Q @ R) None"
      using m lseg_frame[OF a(3) d(2)] by auto
    show "sorted_run (w1\<lparr>heads := hs\<rparr>) ids P" "sorted_run (w1\<lparr>heads := hs\<rparr>) ids Q"
      using m sorted_run_ext[OF e(2)] by (auto simp: sorted_run_Cons)
    show "map lh_info (heads (w1\<lparr>heads := hs\<rparr>)) = ids" using m frame_infos[OF a(3)] by simp
  qed (use m a(2) assms(3) inv_links in auto)
  then show ?thesis using x a(1,3) e(1) assms(2) m by auto
qed

lemma merge_loop_result:
  assumes "merging ids R w p P psize q Q qsize list tail out"
  shows "\<exists>q' list' tail' w' M. merge_loop cmp p psize q qsize list tail w = Some (q', list', tail', w')
    \<and> inv w' \<and> ext w w' \<and> lseg (heads w') q' R None \<and> out_seg (heads w') list' tail' (out @ M)
    \<and> mset M = mset (P @ Q) \<and> sorted_run w' ids M
    \<and> frame (set (out @ P @ Q)) (heads w) (heads w')"
  using assms
proof (induction "length P + length Q" arbitrary: w p P psize q Q qsize list tail out rule: less_induct)
  case less
  note m = less.prems[unfolded merging_def]
  show ?case
  proof (cases "P @ Q = []")
    case True
    then have "merge_loop cmp p psize q qsize list tail w = Some (q, list, tail, w)"
      using m by (subst merge_loop.simps) auto
    then show ?thesis using True m ext_refl by auto
  next
    case False
    then have guard: "0 < psize \<or> (0 < qsize \<and> q \<noteq> None)"
      using m by (cases P; cases Q) auto
    obtain b w1 where t: "take_p cmp p psize q qsize w = Some (b, w1)" "heads w1 = heads w" "inv w1" "ext w w1"
      "if b then P \<noteq> [] \<and> (Q = [] \<or> le w1 (ids ! hd P) (ids ! hd Q))
       else Q \<noteq> [] \<and> (P = [] \<or> le w1 (ids ! hd Q) (ids ! hd P))"
      using take_p_result[of w p P _ psize q Q R qsize ids] m False by blast
    show ?thesis
    proof (cases b)
      case True
      then obtain x P' where P: "P = x # P'" "Q = [] \<or> le w1 (ids ! x) (ids ! hd Q)"
        using t(5) by (cases P) auto
      obtain n list1 w2 where s: "get_next w1 p = Some n" "append_elem list tail p w1 = Some (list1, w2)"
        "merging ids R w2 n P' (psize - 1) q Q qsize list1 p (out @ [x])"
        "ext w1 w2" "frame (set out) (heads w) (heads w2)" "p = Some x" "0 < psize"
        using merging_step_p[of ids R w p x P' psize q Q qsize list tail out w1] less.prems P t(2-4) by blast
      obtain q' list' tail' w' M where r:
        "merge_loop cmp n (psize - 1) q qsize list1 p w2 = Some (q', list', tail', w')"
        "inv w'" "ext w2 w'" "lseg (heads w') q' R None" "out_seg (heads w') list' tail' ((out @ [x]) @ M)"
        "mset M = mset (P' @ Q)" "sorted_run w' ids M" "frame (set ((out @ [x]) @ P' @ Q)) (heads w2) (heads w')"
        using less.hyps[OF _ s(3)] P by (auto simp del: append_assoc)
      have "merge_loop cmp p psize q qsize list tail w = Some (q', list', tail', w')"
        using guard t(1) True s r(1) by (subst merge_loop.simps) simp
      moreover have w: "ext w w'" "ext w1 w'" using t(4) s(4) r(3) ext_trans by blast+
      moreover have "sorted_run w' ids P" "sorted_run w' ids Q" "Q = [] \<or> le w' (ids ! x) (ids ! hd Q)"
        using m P(2) w sorted_run_ext le_ext by blast+
      then have "sorted_run w' ids (x # M)" using merged_Cons[OF _ _ _ r(6,7)] P(1) by blast
      moreover have "frame (set (out @ P @ Q)) (heads w) (heads w')"
        by (rule frame_trans[OF frame_mono[OF s(5)] frame_mono[OF r(8)]]) (auto simp: P(1))
      moreover have "out_seg (heads w') list' tail' (out @ x # M)" using r(5) by simp
      moreover have "mset (x # M) = mset (P @ Q)" using r(6) P(1) by simp
      ultimately show ?thesis using r(2,4) by blast
    next
      case False
      then obtain x Q' where Q: "Q = x # Q'" "P = [] \<or> le w1 (ids ! x) (ids ! hd P)"
        using t(5) by (cases Q) auto
      obtain n list1 w2 where s: "get_next w1 q = Some n" "append_elem list tail q w1 = Some (list1, w2)"
        "merging ids R w2 p P psize n Q' (qsize - 1) list1 q (out @ [x])"
        "ext w1 w2" "frame (set out) (heads w) (heads w2)" "q = Some x" "0 < qsize"
        using merging_step_q[of ids R w p P psize q x Q' qsize list tail out w1] less.prems Q t(2-4) by blast
      obtain q' list' tail' w' M where r:
        "merge_loop cmp p psize n (qsize - 1) list1 q w2 = Some (q', list', tail', w')"
        "inv w'" "ext w2 w'" "lseg (heads w') q' R None" "out_seg (heads w') list' tail' ((out @ [x]) @ M)"
        "mset M = mset (P @ Q')" "sorted_run w' ids M" "frame (set ((out @ [x]) @ P @ Q')) (heads w2) (heads w')"
        using less.hyps[OF _ s(3)] Q by (auto simp del: append_assoc)
      have "merge_loop cmp p psize q qsize list tail w = Some (q', list', tail', w')"
        using guard t(1) False s r(1) by (subst merge_loop.simps) simp
      moreover have w: "ext w w'" "ext w1 w'" using t(4) s(4) r(3) ext_trans by blast+
      moreover have "sorted_run w' ids Q" "sorted_run w' ids P" "P = [] \<or> le w' (ids ! x) (ids ! hd P)"
        using m Q(2) w sorted_run_ext le_ext by blast+
      then have "sorted_run w' ids (x # M)" using merged_Cons[OF _ _ _ _ r(7), of x Q' P] Q(1) r(6) by simp
      moreover have "frame (set (out @ P @ Q)) (heads w) (heads w')"
        by (rule frame_trans[OF frame_mono[OF s(5)] frame_mono[OF r(8)]]) (auto simp: Q(1))
      moreover have "out_seg (heads w') list' tail' (out @ x # M)" using r(5) by simp
      moreover have "mset (x # M) = mset (P @ Q)" using r(6) Q(1) by simp
      ultimately show ?thesis using r(2,4) by blast
    qed
  qed
qed

section \<open>Passes over the list\<close>

text \<open>Every stretch of \<open>k\<close> elements that starts at a multiple of \<open>k\<close> is sorted.\<close>

definition runs :: "core_results \<Rightarrow> nat list \<Rightarrow> nat \<Rightarrow> nat list \<Rightarrow> bool" where
  "runs w ids k xs \<longleftrightarrow> (\<forall>j. sorted_run w ids (take k (drop (j * k) xs)))"

lemma runs_take: "runs w ids k xs \<Longrightarrow> sorted_run w ids (take k xs)"
  unfolding runs_def by (drule spec[of _ 0]) simp

lemma runs_drop: "runs w ids k xs \<Longrightarrow> runs w ids k (drop k xs)"
  unfolding runs_def
proof
  fix j assume "\<forall>j. sorted_run w ids (take k (drop (j * k) xs))"
  then have "sorted_run w ids (take k (drop (Suc j * k) xs))" by blast
  then show "sorted_run w ids (take k (drop (j * k) (drop k xs)))" by (simp add: add.commute)
qed

lemma runs_ext: "ext w w' \<Longrightarrow> runs w ids k xs \<Longrightarrow> runs w' ids k xs"
  unfolding runs_def using sorted_run_ext by blast

lemma runs_append:
  assumes "sorted_run w ids xs" "runs w ids k ys" "length xs = k \<or> length xs \<le> k \<and> ys = []"
  shows "runs w ids k (xs @ ys)"
  unfolding runs_def
proof
  fix j show "sorted_run w ids (take k (drop (j * k) (xs @ ys)))"
  proof (cases j)
    case 0
    then show ?thesis using assms(1,3) by auto
  next
    case (Suc i)
    then show ?thesis using assms(2,3) by (auto simp: runs_def)
  qed
qed

lemma runs_one: "runs w ids 1 xs"
  unfolding runs_def
proof
  fix j show "sorted_run w ids (take 1 (drop (j * 1) xs))"
    by (cases "drop (j * 1) xs") (simp_all add: sorted_run_def)
qed

text \<open>The number of merges of a pass over \<open>n\<close> elements.\<close>

definition merges :: "nat \<Rightarrow> nat \<Rightarrow> nat" where
  "merges k n = (n + 2 * k - 1) div (2 * k)"

lemma merges_step:
  assumes "0 < k" "0 < n"
  shows "merges k n = Suc (merges k (n - 2 * k))"
proof (cases "n < 2 * k")
  case True
  then have "n + 2 * k - 1 = (n - 1) + 1 * (2 * k)" using assms by simp
  then have "merges k n = (n - 1) div (2 * k) + 1" unfolding merges_def using assms(1) by (simp only: div_mult_self1)
  then show ?thesis using True assms by (simp add: merges_def)
next
  case False
  then have "n + 2 * k - 1 = (n - 2 * k + 2 * k - 1) + 1 * (2 * k)" using assms by simp
  then show ?thesis unfolding merges_def using assms(1) by (simp only: div_mult_self1)
qed

lemma merges_zero [simp]: "0 < k \<Longrightarrow> merges k 0 = 0"
  by (simp add: merges_def)

lemma merges_le:
  assumes "0 < k"
  shows "merges k n \<le> n"
proof (induction n rule: less_induct)
  case (less n)
  show ?case
  proof (cases "n = 0")
    case False
    then have "merges k (n - 2 * k) \<le> n - 2 * k" using assms by (intro less) simp
    then show ?thesis using merges_step[OF assms, of n] False assms by linarith
  qed (simp add: assms)
qed

lemma merges_one: "0 < k \<Longrightarrow> merges k n \<le> 1 \<Longrightarrow> n \<le> 2 * k"
  using merges_step[of k n] merges_step[of k "n - 2 * k"] by (cases "n \<le> 2 * k") auto

lemma pass_loop_result:
  assumes "inv w" "lseg (heads w) p rest None" "out_seg (heads w) list tail out"
    "distinct (out @ rest)" "map lh_info (heads w) = ids" "\<forall>x \<in> set rest. ids ! x < items"
    "runs w ids k rest" "0 < k" "nm + length rest < 2 ^ 31"
  shows "\<exists>list' tail' w' M. pass_loop cmp k p list tail nm w = Some (list', tail', nm + merges k (length rest), w')
    \<and> inv w' \<and> ext w w' \<and> out_seg (heads w') list' tail' (out @ M) \<and> mset M = mset rest
    \<and> runs w' ids (2 * k) M \<and> frame (set (out @ rest)) (heads w) (heads w')"
  using assms
proof (induction "length rest" arbitrary: w p rest list tail out nm rule: less_induct)
  case less
  show ?case
  proof (cases "rest = []")
    case True
    have "pass_loop cmp k p list tail nm w = Some (list, tail, nm, w)"
      using True less.prems(2) by (subst pass_loop.simps) simp
    moreover have "runs w ids (2 * k) []" by (simp add: runs_def)
    ultimately show ?thesis using True less.prems ext_refl by auto
  next
    case False
    then have p: "p \<noteq> None" using lseg_head[OF less.prems(2)] by simp
    define P Q R where "P = take k rest" and "Q = take k (drop k rest)" and "R = drop (2 * k) rest"
    have rest: "rest = P @ Q @ R"
      unfolding P_def Q_def R_def mult_2 drop_drop [symmetric] append_take_drop_id ..
    obtain q where q: "split_loop k w p 0 = Some (q, length P)" "lseg (heads w) p P q" "lseg (heads w) q (Q @ R) None"
    proof -
      have "drop k rest = Q @ R" unfolding Q_def R_def mult_2 drop_drop [symmetric] append_take_drop_id ..
      then show ?thesis
        using split_loop_result[OF less.prems(2) False, of k 0] that by (auto simp: P_def min.commute)
    qed
    have m: "merging ids R w p P (length P) q Q k list tail out"
      unfolding merging_def
    proof (intro conjI)
      show "sorted_run w ids P" "sorted_run w ids Q"
        using runs_take[OF less.prems(7)] runs_take[OF runs_drop[OF less.prems(7)]] by (simp_all add: P_def Q_def)
      show "length Q \<le> k" "length Q = k \<or> R = []" by (auto simp: Q_def R_def)
      show "distinct (out @ P @ Q @ R)" using less.prems(4) unfolding rest .
      show "\<forall>x \<in> set (P @ Q). ids ! x < items" using less.prems(6) unfolding rest by auto
    qed (use less.prems(1,3,5) q in blast)+
    obtain q' list1 tail1 w1 M1 where r:
      "merge_loop cmp p (length P) q k list tail w = Some (q', list1, tail1, w1)"
      "inv w1" "ext w w1" "lseg (heads w1) q' R None" "out_seg (heads w1) list1 tail1 (out @ M1)"
      "mset M1 = mset (P @ Q)" "sorted_run w1 ids M1" "frame (set (out @ P @ Q)) (heads w) (heads w1)"
      using merge_loop_result[OF m] by blast
    have s: "s32 (nm + 1) = Some (nm + 1)"
      using less.prems(9) False by (cases rest) (simp_all add: s32_def)
    have "runs w ids k R"
      using runs_drop[OF runs_drop[OF less.prems(7)]] by (simp add: R_def mult_2)
    then have runs1: "runs w1 ids k R" using r(3) runs_ext by blast
    have lenR: "length R < length rest" "length R = length rest - 2 * k" using False less.prems(8) by (simp_all add: R_def)
    have set1: "set M1 = set (P @ Q)" using mset_eq_setD[OF r(6)] .
    have dist1: "distinct ((out @ M1) @ R)"
      using less.prems(4) rest set1 mset_eq_imp_distinct_iff[OF r(6)] by auto
    have i1: "map lh_info (heads w1) = ids" using frame_infos[OF r(8)] less.prems(5) by simp
    have i2: "\<forall>x \<in> set R. ids ! x < items" using less.prems(6) unfolding rest by auto
    have n1: "nm + 1 + length R < 2 ^ 31" using less.prems(9) lenR(1) by linarith
    obtain list' tail' w' M where t:
      "pass_loop cmp k q' list1 tail1 (nm + 1) w1 = Some (list', tail', nm + 1 + merges k (length R), w')"
      "inv w'" "ext w1 w'" "out_seg (heads w') list' tail' ((out @ M1) @ M)" "mset M = mset R"
      "runs w' ids (2 * k) M" "frame (set ((out @ M1) @ R)) (heads w1) (heads w')"
      using less.hyps[OF lenR(1) r(2,4,5) dist1 i1 i2 runs1 less.prems(8) n1] by blast
    have "pass_loop cmp k p list tail nm w = Some (list', tail', nm + merges k (length rest), w')"
      using p s q(1) r(1) t(1) merges_step[OF less.prems(8), of "length rest"] False lenR(2)
      by (subst pass_loop.simps) simp
    moreover have "ext w w'" using r(3) t(3) ext_trans by blast
    moreover have "runs w' ids (2 * k) (M1 @ M)"
    proof (rule runs_append[OF sorted_run_ext[OF t(3) r(7)] t(6)])
      have "length M1 = length (P @ Q)" using mset_eq_length[OF r(6)] .
      moreover have "M = [] \<longleftrightarrow> R = []" using t(5) by (cases M) auto
      ultimately show "length M1 = 2 * k \<or> length M1 \<le> 2 * k \<and> M = []"
        by (auto simp: P_def Q_def R_def)
    qed
    moreover have "frame (set (out @ rest)) (heads w) (heads w')"
      by (rule frame_trans[OF frame_mono[OF r(8)] frame_mono[OF t(7)]]) (use rest set1 in auto)
    moreover have "out_seg (heads w') list' tail' (out @ M1 @ M)" using t(4) by simp
    moreover have "mset (M1 @ M) = mset rest" using r(6) t(5) rest by simp
    ultimately show ?thesis using t(2) by blast
  qed
qed

section \<open>The sort\<close>

lemma out_seg_close:
  assumes "out_seg (heads w) list tail xs" "xs \<noteq> []" "distinct xs"
  shows "\<exists>hs'. set_next w tail None = Some (w\<lparr>heads := hs'\<rparr>) \<and> lseg hs' list xs None
    \<and> frame (set xs) (heads w) hs'"
proof -
  obtain ys t where xs: "xs = ys @ [t]" using assms(2) by (cases xs rule: rev_cases) auto
  obtain e where e: "lseg (heads w) list (ys @ [t]) e" "tail = Some t"
    using assms(1) by (auto simp: out_seg_def xs)
  have t: "t < length (heads w)" "t \<in> set xs" using lseg_in[OF e(1), of t] by (simp_all add: xs)
  let ?hs = "(heads w)[t := (heads w ! t)\<lparr>lh_next := None\<rparr>]"
  have "t \<notin> set ys" using assms(3) by (simp add: xs)
  then have "lseg ?hs list xs None" using e(1) t(1) by (auto simp: xs lseg_append)
  then show ?thesis using e(2) t frame_next[OF t] by auto
qed

lemma sort_loop_result:
  assumes "inv w" "lseg (heads w) list xs None" "distinct xs" "xs \<noteq> []"
    "map lh_info (heads w) = ids" "\<forall>x \<in> set xs. ids ! x < items"
    "runs w ids k xs" "0 < k" "length xs < 2 ^ 31"
  shows "\<exists>list' w' ys. sort_loop cmp k list w = Some (list', w') \<and> inv w' \<and> ext w w'
    \<and> lseg (heads w') list' ys None \<and> mset ys = mset xs \<and> sorted_run w' ids ys
    \<and> frame (set xs) (heads w) (heads w')"
  using assms
proof (induction "length xs - k" arbitrary: w list xs k rule: less_induct)
  case less
  obtain list1 tail1 w1 ys where r:
    "pass_loop cmp k list None None 0 w = Some (list1, tail1, merges k (length xs), w1)"
    "inv w1" "ext w w1" "out_seg (heads w1) list1 tail1 ys" "mset ys = mset xs"
    "runs w1 ids (2 * k) ys" "frame (set xs) (heads w) (heads w1)"
    using pass_loop_result[of w list xs None None "[]" ids k 0] less.prems
    by (auto simp: out_seg_def)
  have ys: "ys \<noteq> []" "distinct ys" "set ys = set xs" "length ys = length xs"
    using less.prems(3,4) r(5) mset_eq_setD[OF r(5)] mset_eq_length[OF r(5)] mset_eq_imp_distinct_iff[OF r(5)]
    by auto
  obtain hs where c: "set_next w1 tail1 None = Some (w1\<lparr>heads := hs\<rparr>)" "lseg hs list1 ys None"
    "frame (set xs) (heads w1) hs"
    using out_seg_close[OF r(4) ys(1,2)] ys(3) by auto
  let ?w = "w1\<lparr>heads := hs\<rparr>"
  have w: "inv ?w" "ext w ?w" "frame (set xs) (heads w) hs"
    using r(2,3) inv_links ext_links ext_trans frame_trans[OF r(7) c(3)] by blast+
  have runs: "runs ?w ids (2 * k) ys" by (rule runs_ext[OF ext_links r(6)])
  show ?case
  proof (cases "merges k (length xs) \<le> 1")
    case True
    then have "length ys \<le> 2 * k" using merges_one[OF less.prems(8)] ys(4) by simp
    then have "sorted_run ?w ids ys" using runs_take[OF runs] by simp
    moreover have "sort_loop cmp k list w = Some (list1, ?w)"
      using r(1) c(1) True by (subst sort_loop.simps) simp
    ultimately show ?thesis using w c(2) r(5) by auto
  next
    case False
    have long: "2 * k < length xs"
    proof (rule ccontr)
      assume "\<not> 2 * k < length xs"
      then have "merges k (length xs) \<le> 1"
        using merges_step[OF less.prems(8), of "length xs"] less.prems(4,8) by simp
      with False show False ..
    qed
    then have s: "s32 (k * 2) = Some (k * 2)" using less.prems(9) by (simp add: s32_def)
    have "length ys - k * 2 < length xs - k" using long ys(4) less.prems(8) by simp
    then obtain list' w' zs where t: "sort_loop cmp (k * 2) list1 ?w = Some (list', w')" "inv w'" "ext ?w w'"
      "lseg (heads w') list' zs None" "mset zs = mset ys" "sorted_run w' ids zs"
      "frame (set ys) hs (heads w')"
      using less.hyps[of ys "k * 2" ?w list1] w(1) c(2) ys less.prems(5,6,8,9) runs frame_infos[OF w(3)]
      by (auto simp: mult.commute)
    have "sort_loop cmp k list w = Some (list', w')"
      using r(1) c(1) s t(1) False by (subst sort_loop.simps) simp
    moreover have "ext w w'" using w(2) t(3) ext_trans by blast
    moreover have "frame (set xs) (heads w) (heads w')" using frame_trans[OF w(3)] t(7) ys(3) by simp
    ultimately show ?thesis using t(2,4,5,6) r(5) by auto
  qed
qed

theorem mergesort_result:
  assumes "inv w" "lseg (heads w) list xs None" "distinct xs" "xs \<noteq> []" "length xs < 2 ^ 31"
    "\<forall>x \<in> set xs. lh_info (heads w ! x) < items"
  shows "\<exists>list' w' ys. core_list_mergesort list cmp w = Some (list', w') \<and> inv w' \<and> ext w w'
    \<and> lseg (heads w') list' ys None \<and> mset ys = mset xs
    \<and> sorted_wrt (\<lambda>x y. le w' (lh_info (heads w' ! x)) (lh_info (heads w' ! y))) ys
    \<and> frame (set xs) (heads w) (heads w')"
proof -
  let ?ids = "map lh_info (heads w)"
  have bound: "\<forall>x \<in> set xs. x < length (heads w)" using lseg_in[OF assms(2)] by blast
  then have i: "\<forall>x \<in> set xs. ?ids ! x < items" using assms(6) by simp
  obtain list' w' ys where r: "sort_loop cmp 1 list w = Some (list', w')" "inv w'" "ext w w'"
    "lseg (heads w') list' ys None" "mset ys = mset xs" "sorted_run w' ?ids ys"
    "frame (set xs) (heads w) (heads w')"
    using sort_loop_result[OF assms(1-4) refl i runs_one _ assms(5)] by auto
  have "?ids ! x = lh_info (heads w' ! x)" if "x \<in> set ys" for x
  proof -
    have "x < length (heads w')" using lseg_in[OF r(4) that] .
    moreover have "?ids = map lh_info (heads w')" using frame_infos[OF r(7)] by simp
    ultimately show ?thesis by simp
  qed
  then have "sorted_wrt (\<lambda>x y. le w' (lh_info (heads w' ! x)) (lh_info (heads w' ! y))) ys"
    using r(6) unfolding sorted_run_def by (auto intro: sorted_wrt_mono_rel[rotated])
  then show ?thesis using r unfolding core_list_mergesort_def by blast
qed

end

end
