(* ===== verification/Core_State_Props.thy ===== *)
theory Core_State_Props
  imports Core_State
begin

text \<open>
  Properties of \<open>core_state.c\<close>: the language each final state stands for, the scan of a
  zero terminated block, the corruption passes and the initialised block.
\<close>

section \<open>The languages of the final states\<close>

definition digit :: "ee_u8 \<Rightarrow> bool" where
  "digit c \<longleftrightarrow> 48 \<le> c \<and> c \<le> 57"

definition is_sign :: "ee_u8 \<Rightarrow> bool" where
  "is_sign c \<longleftrightarrow> c = 43 \<or> c = 45"

definition opt_sign :: "ee_u8 list \<Rightarrow> bool" where
  "opt_sign s \<longleftrightarrow> s = [] \<or> (\<exists>c. s = [c] \<and> is_sign c)"

definition integer_form :: "ee_u8 list \<Rightarrow> bool" where
  "integer_form t \<longleftrightarrow>
     (\<exists>s ds. t = s @ ds \<and> opt_sign s \<and> ds \<noteq> [] \<and> (\<forall>c \<in> set ds. digit c))"

definition float_form :: "ee_u8 list \<Rightarrow> bool" where
  "float_form t \<longleftrightarrow> (\<exists>s ds fs. t = s @ ds @ 46 # fs \<and> opt_sign s
     \<and> (\<forall>c \<in> set ds. digit c) \<and> (\<forall>c \<in> set fs. digit c))"

definition exponent_mark :: "ee_u8 list \<Rightarrow> bool" where
  "exponent_mark t \<longleftrightarrow> (\<exists>m e. t = m @ [e] \<and> float_form m \<and> (e = 69 \<or> e = 101))"

definition exponent_sign :: "ee_u8 list \<Rightarrow> bool" where
  "exponent_sign t \<longleftrightarrow> (\<exists>m s. t = m @ [s] \<and> exponent_mark m \<and> is_sign s)"

definition scientific_form :: "ee_u8 list \<Rightarrow> bool" where
  "scientific_form t \<longleftrightarrow>
     (\<exists>m es. t = m @ es \<and> exponent_sign m \<and> es \<noteq> [] \<and> (\<forall>c \<in> set es. digit c))"

text \<open>What a token looks like when the machine ends in each state but \<open>CORE_INVALID\<close>.\<close>

fun token_lang :: "core_state \<Rightarrow> ee_u8 list \<Rightarrow> bool" where
  "token_lang CORE_START t = (t = [])"
| "token_lang CORE_S1 t = (\<exists>c. t = [c] \<and> is_sign c)"
| "token_lang CORE_INT t = integer_form t"
| "token_lang CORE_FLOAT t = float_form t"
| "token_lang CORE_S2 t = exponent_mark t"
| "token_lang CORE_EXPONENT t = exponent_sign t"
| "token_lang CORE_SCIENTIFIC t = scientific_form t"
| "token_lang CORE_INVALID t = False"

lemma opt_sign_snoc: "opt_sign (s @ [c]) \<longleftrightarrow> s = [] \<and> is_sign c"
  by (auto simp: opt_sign_def)

lemma lang_start_sign: "token_lang CORE_START t \<or> token_lang CORE_S1 t \<longleftrightarrow> opt_sign t"
  by (auto simp: opt_sign_def)

lemma sign_not_digit: "is_sign c \<Longrightarrow> \<not> digit c"
  by (auto simp: is_sign_def digit_def)

lemma integer_form_snoc:
  "integer_form (t @ [c]) \<longleftrightarrow> digit c \<and> (opt_sign t \<or> integer_form t)" (is "?l \<longleftrightarrow> ?r")
proof
  assume ?l
  then obtain s ds where d: "t @ [c] = s @ ds" "opt_sign s" "ds \<noteq> []" "\<forall>c \<in> set ds. digit c"
    by (auto simp: integer_form_def)
  from d(3) obtain ds' c' where ds: "ds = ds' @ [c']" by (metis append_butlast_last_id)
  with d(1) have t: "t = s @ ds'" "c' = c" by auto
  show ?r
  proof (cases "ds' = []")
    case True
    with t ds d show ?thesis by auto
  next
    case False
    with t ds d have "integer_form t" by (auto simp: integer_form_def)
    with t ds d show ?thesis by auto
  qed
next
  assume r: ?r
  then consider "opt_sign t" | s ds where "t = s @ ds" "opt_sign s" "\<forall>c \<in> set ds. digit c"
    by (auto simp: integer_form_def)
  then show ?l
  proof cases
    case 1
    with r show ?thesis unfolding integer_form_def by (intro exI[of _ t] exI[of _ "[c]"]) auto
  next
    case 2
    with r show ?thesis
      unfolding integer_form_def by (intro exI[of _ s] exI[of _ "ds @ [c]"]) auto
  qed
qed

lemma float_form_snoc:
  "float_form (t @ [c]) \<longleftrightarrow>
     (c = 46 \<and> (opt_sign t \<or> integer_form t)) \<or> (digit c \<and> float_form t)" (is "?l \<longleftrightarrow> ?r")
proof
  assume ?l
  then obtain s ds fs where d: "t @ [c] = s @ ds @ 46 # fs" "opt_sign s"
      "\<forall>c \<in> set ds. digit c" "\<forall>c \<in> set fs. digit c"
    by (auto simp: float_form_def)
  show ?r
  proof (cases fs rule: rev_cases)
    case Nil
    with d have "t = s @ ds" "c = 46" by (metis append_assoc append1_eq_conv)+
    with d show ?thesis by (cases "ds = []") (auto simp: integer_form_def)
  next
    case (snoc fs' c')
    with d(1) have "t @ [c] = (s @ ds @ 46 # fs') @ [c']" by simp
    then have t: "t = s @ ds @ 46 # fs'" "c' = c" by simp_all
    have "float_form t"
      unfolding float_form_def using d snoc t
      by (intro exI[of _ s] exI[of _ ds] exI[of _ fs']) auto
    moreover have "digit c" using d(4) snoc t by simp
    ultimately show ?thesis by simp
  qed
next
  assume ?r
  then consider "c = 46" "opt_sign t" | "c = 46" "integer_form t" | "digit c" "float_form t" by auto
  then show ?l
  proof cases
    case 1
    then show ?thesis unfolding float_form_def by (intro exI[of _ t] exI[of _ "[]"]) auto
  next
    case 2
    then obtain s ds where "t = s @ ds" "opt_sign s" "\<forall>c \<in> set ds. digit c"
      by (auto simp: integer_form_def)
    with 2 show ?thesis
      unfolding float_form_def by (intro exI[of _ s] exI[of _ ds] exI[of _ "[]"]) auto
  next
    case 3
    then obtain s ds fs where "t = s @ ds @ 46 # fs" "opt_sign s" "\<forall>c \<in> set ds. digit c"
      "\<forall>c \<in> set fs. digit c" by (auto simp: float_form_def)
    with 3 show ?thesis
      unfolding float_form_def by (intro exI[of _ s] exI[of _ ds] exI[of _ "fs @ [c]"]) auto
  qed
qed

lemma exponent_mark_snoc: "exponent_mark (t @ [c]) \<longleftrightarrow> float_form t \<and> (c = 69 \<or> c = 101)"
  by (auto simp: exponent_mark_def)

lemma exponent_sign_snoc: "exponent_sign (t @ [c]) \<longleftrightarrow> exponent_mark t \<and> is_sign c"
  by (auto simp: exponent_sign_def)

lemma scientific_form_snoc:
  "scientific_form (t @ [c]) \<longleftrightarrow> digit c \<and> (exponent_sign t \<or> scientific_form t)" (is "?l \<longleftrightarrow> ?r")
proof
  assume ?l
  then obtain m es where d: "t @ [c] = m @ es" "exponent_sign m" "es \<noteq> []" "\<forall>c \<in> set es. digit c"
    by (auto simp: scientific_form_def)
  from d(3) obtain es' c' where es: "es = es' @ [c']" by (metis append_butlast_last_id)
  with d(1) have t: "t = m @ es'" "c' = c" by auto
  show ?r
    using t es d by (cases "es' = []") (auto simp: scientific_form_def)
next
  assume r: ?r
  then consider "exponent_sign t" | m es where "t = m @ es" "exponent_sign m" "\<forall>c \<in> set es. digit c"
    by (auto simp: scientific_form_def)
  then show ?l
  proof cases
    case 1
    with r show ?thesis
      unfolding scientific_form_def by (intro exI[of _ t] exI[of _ "[c]"]) auto
  next
    case 2
    with r show ?thesis
      unfolding scientific_form_def by (intro exI[of _ m] exI[of _ "es @ [c]"]) auto
  qed
qed

lemmas snoc_forms = integer_form_snoc float_form_snoc exponent_mark_snoc exponent_sign_snoc
  scientific_form_snoc

section \<open>The machine without its counters\<close>

definition cst_next :: "core_state \<Rightarrow> ee_u8 \<Rightarrow> core_state" where
  "cst_next st c = fst (cst_switch st c (\<lambda>_. 0))"

lemma fst_cst_switch: "fst (cst_switch st c tc) = cst_next st c"
  by (cases st) (simp_all add: cst_next_def)

lemma isdigit_iff: "ee_isdigit c \<noteq> 0 \<longleftrightarrow> digit c"
  by (simp add: ee_isdigit_def digit_def)

lemma cst_next_simps [simp]:
  "cst_next CORE_START c = (if digit c then CORE_INT else if is_sign c then CORE_S1
     else if c = 46 then CORE_FLOAT else CORE_INVALID)"
  "cst_next CORE_S1 c = (if digit c then CORE_INT else if c = 46 then CORE_FLOAT else CORE_INVALID)"
  "cst_next CORE_INT c = (if c = 46 then CORE_FLOAT else if digit c then CORE_INT else CORE_INVALID)"
  "cst_next CORE_FLOAT c = (if c = 69 \<or> c = 101 then CORE_S2
     else if digit c then CORE_FLOAT else CORE_INVALID)"
  "cst_next CORE_S2 c = (if is_sign c then CORE_EXPONENT else CORE_INVALID)"
  "cst_next CORE_EXPONENT c = (if digit c then CORE_SCIENTIFIC else CORE_INVALID)"
  "cst_next CORE_SCIENTIFIC c = (if digit c then CORE_SCIENTIFIC else CORE_INVALID)"
  "cst_next CORE_INVALID c = CORE_INVALID"
  by (auto simp: cst_next_def ee_isdigit_def digit_def is_sign_def)

definition cst_run :: "ee_u8 list \<Rightarrow> core_state" where
  "cst_run t = foldl cst_next CORE_START t"

lemma cst_run_simps [simp]:
  "cst_run [] = CORE_START"
  "cst_run (t @ [c]) = cst_next (cst_run t) c"
  by (simp_all add: cst_run_def)

lemma special_not_digit [simp]:
  "\<not> digit 46" "\<not> digit 69" "\<not> digit 101" "\<not> is_sign 46" "\<not> is_sign 69" "\<not> is_sign 101"
  by (simp_all add: digit_def is_sign_def)

text \<open>The run ends in a valid state exactly when the token is in the language of that state.\<close>

lemma cst_run_lang: "st \<noteq> CORE_INVALID \<Longrightarrow> cst_run t = st \<longleftrightarrow> token_lang st t"
proof (induction t arbitrary: st rule: rev_induct)
  case Nil
  then show ?case
    by (cases st) (auto simp: integer_form_def float_form_def exponent_mark_def exponent_sign_def
        scientific_form_def)
next
  case (snoc c t)
  have ih: "cst_run t = s \<longleftrightarrow> token_lang s t" if "s \<noteq> CORE_INVALID" for s
    using snoc.IH that .
  have lang: "opt_sign t \<longleftrightarrow> cst_run t = CORE_START \<or> cst_run t = CORE_S1"
    "integer_form t \<longleftrightarrow> cst_run t = CORE_INT" "float_form t \<longleftrightarrow> cst_run t = CORE_FLOAT"
    "exponent_mark t \<longleftrightarrow> cst_run t = CORE_S2" "exponent_sign t \<longleftrightarrow> cst_run t = CORE_EXPONENT"
    "scientific_form t \<longleftrightarrow> cst_run t = CORE_SCIENTIFIC"
    using ih[of CORE_START] ih[of CORE_S1] ih[of CORE_INT] ih[of CORE_FLOAT] ih[of CORE_S2]
      ih[of CORE_EXPONENT] ih[of CORE_SCIENTIFIC] lang_start_sign[of t] by auto
  have nil: "t = [] \<longleftrightarrow> cst_run t = CORE_START" using ih[of CORE_START] by simp
  show ?case
    using snoc.prems
    by (cases st; cases "cst_run t")
      (auto simp: snoc_forms lang nil sign_not_digit)
qed

section \<open>One transition\<close>

lemma foldl_invalid [simp]: "foldl cst_next CORE_INVALID t = CORE_INVALID"
  by (induction t) auto

lemma cst_loop_step:
  assumes "str < length mem" "mem ! str \<noteq> 0" "mem ! str \<noteq> 44" "st \<noteq> CORE_INVALID"
  shows "\<exists>tc'. cst_loop mem str st tc = cst_loop mem (Suc str) (cst_next st (mem ! str)) tc'"
  using assms
  by (subst cst_loop.simps) (auto simp: Let_def case_prod_beta fst_cst_switch)

lemma cst_loop_stop:
  assumes "str < length mem" "mem ! str = 0 \<or> st = CORE_INVALID"
  shows "cst_loop mem str st tc = Some (str, st, tc)"
  using assms by (subst cst_loop.simps) auto

lemma cst_loop_comma:
  assumes "str < length mem" "mem ! str = 44" "st \<noteq> CORE_INVALID"
  shows "cst_loop mem str st tc = Some (Suc str, st, tc)"
  using assms by (subst cst_loop.simps) auto

text \<open>Running over bytes that keep the machine valid.\<close>

lemma cst_loop_run:
  assumes "\<forall>c \<in> set t. c \<noteq> 0 \<and> c \<noteq> 44" "foldl cst_next st t \<noteq> CORE_INVALID"
  shows "\<exists>tc'. cst_loop (pre @ t @ post) (length pre) st tc
    = cst_loop (pre @ t @ post) (length pre + length t) (foldl cst_next st t) tc'"
  using assms
proof (induction t arbitrary: pre st tc)
  case Nil
  then show ?case by auto
next
  case (Cons c t)
  have valid: "st \<noteq> CORE_INVALID" using Cons.prems(2) by auto
  let ?m = "pre @ (c # t) @ post"
  have "?m ! length pre = c" by (simp add: nth_append)
  then obtain tc1 where
    "cst_loop ?m (length pre) st tc = cst_loop ?m (Suc (length pre)) (cst_next st c) tc1"
    using cst_loop_step[of "length pre" ?m st tc] valid Cons.prems(1) by auto
  moreover obtain tc2 where
    "cst_loop ((pre @ [c]) @ t @ post) (length (pre @ [c])) (cst_next st c) tc1
     = cst_loop ((pre @ [c]) @ t @ post) (length (pre @ [c]) + length t)
         (foldl cst_next (cst_next st c) t) tc2"
    using Cons.IH[of "cst_next st c" "pre @ [c]" tc1] Cons.prems by auto
  ultimately show ?case by auto
qed

lemma transition_valid:
  assumes "\<forall>c \<in> set t. c \<noteq> 0 \<and> c \<noteq> 44" "token_lang st t" "d = 0 \<or> d = 44"
  shows "\<exists>tc'. core_state_transition (pre @ t @ d # post) (length pre) tc
    = Some (length pre + length t + (if d = 44 then 1 else 0), st, tc')"
proof -
  have st: "st \<noteq> CORE_INVALID" using assms(2) by auto
  then have run: "foldl cst_next CORE_START t = st"
    using cst_run_lang[of st t] assms(2) by (simp add: cst_run_def)
  obtain tc1 where 1: "core_state_transition (pre @ t @ d # post) (length pre) tc
      = cst_loop (pre @ t @ d # post) (length pre + length t) st tc1"
    using cst_loop_run[OF assms(1), of CORE_START pre "d # post" tc] run st
    unfolding core_state_transition_def by auto
  have "(pre @ t @ d # post) ! (length pre + length t) = d"
    by (metis append_assoc length_append nth_append_length)
  then show ?thesis
    using 1 assms(3) st cst_loop_stop[of "length pre + length t" "pre @ t @ d # post" st tc1]
      cst_loop_comma[of "length pre + length t" "pre @ t @ d # post" st tc1]
    by auto
qed

lemma transition_invalid:
  assumes "\<forall>c \<in> set (u @ [c]). c \<noteq> 0 \<and> c \<noteq> 44" "token_lang st u"
    "\<forall>s. \<not> token_lang s (u @ [c])"
  shows "\<exists>tc'. core_state_transition (pre @ u @ c # d # post) (length pre) tc
    = Some (length pre + length u + 1, CORE_INVALID, tc')"
proof -
  let ?m = "pre @ u @ c # d # post"
  have st: "st \<noteq> CORE_INVALID" using assms(2) by auto
  then have run: "foldl cst_next CORE_START u = st"
    using cst_run_lang[of st u] assms(2) by (simp add: cst_run_def)
  have "cst_run (u @ [c]) = CORE_INVALID"
    using assms(3) cst_run_lang by blast
  then have bad: "cst_next st c = CORE_INVALID" using run by (simp add: cst_run_def)
  obtain tc1 where 1: "core_state_transition ?m (length pre) tc
      = cst_loop ?m (length pre + length u) st tc1"
    using cst_loop_run[of u CORE_START pre "c # d # post" tc] assms(1) run st
    unfolding core_state_transition_def by auto
  have nth: "?m ! (length pre + length u) = c"
    by (metis append_assoc length_append nth_append_length)
  obtain tc2 where "cst_loop ?m (length pre + length u) st tc1
      = cst_loop ?m (Suc (length pre + length u)) CORE_INVALID tc2"
    using cst_loop_step[of "length pre + length u" ?m st tc1] nth bad st assms(1) by auto
  then show ?thesis
    using 1 cst_loop_stop[of "Suc (length pre + length u)" ?m CORE_INVALID tc2] by auto
qed

section \<open>Scanning a terminated block\<close>

definition first_zero :: "ee_u8 list \<Rightarrow> nat \<Rightarrow> nat \<Rightarrow> bool" where
  "first_zero mem p z \<longleftrightarrow> p \<le> z \<and> z < length mem \<and> mem ! z = 0 \<and> (\<forall>i. p \<le> i \<and> i < z \<longrightarrow> mem ! i \<noteq> 0)"

lemma first_zero_exists:
  assumes "z < length mem" "mem ! z = 0" "p \<le> z"
  shows "\<exists>z'. first_zero mem p z'"
proof -
  let ?P = "\<lambda>i. p \<le> i \<and> mem ! i = 0"
  have "?P (LEAST i. ?P i)" using assms by (intro LeastI[of ?P z]) simp
  moreover have "(LEAST i. ?P i) \<le> z" using assms by (intro Least_le) simp
  moreover have "mem ! i \<noteq> 0" if "p \<le> i" "i < (LEAST i. ?P i)" for i
    using not_less_Least[OF that(2)] that(1) by simp
  ultimately show ?thesis
    unfolding first_zero_def using assms(1)
    by (intro exI[of _ "LEAST i. ?P i"]) auto
qed

lemma first_zero_Suc: "first_zero mem p z \<Longrightarrow> p < z \<Longrightarrow> first_zero mem (Suc p) z"
  by (auto simp: first_zero_def)

lemma first_zero_mono: "first_zero mem p z \<Longrightarrow> p \<le> q \<Longrightarrow> q \<le> z \<Longrightarrow> first_zero mem q z"
  by (auto simp: first_zero_def)

lemma cst_loop_progress:
  assumes "first_zero mem p z"
  shows "\<exists>p' st' tc'. cst_loop mem p st tc = Some (p', st', tc') \<and> p \<le> p' \<and> p' \<le> z
    \<and> (p < z \<and> st \<noteq> CORE_INVALID \<longrightarrow> p < p')"
  using assms
proof (induction "z - p" arbitrary: p st tc rule: less_induct)
  case less
  have p: "p < length mem" "p \<le> z" using less.prems by (auto simp: first_zero_def)
  consider "mem ! p = 0 \<or> st = CORE_INVALID" | "mem ! p = 44" "st \<noteq> CORE_INVALID"
    | "mem ! p \<noteq> 0" "mem ! p \<noteq> 44" "st \<noteq> CORE_INVALID" by blast
  then show ?case
  proof cases
    case 1
    have "p = z \<or> st = CORE_INVALID"
      using 1 less.prems p by (auto simp: first_zero_def)
    with 1 p show ?thesis by (auto simp: cst_loop_stop)
  next
    case 2
    from 2 have "mem ! p \<noteq> 0" by simp
    then have "p \<noteq> z" using less.prems by (auto simp: first_zero_def)
    with 2 p show ?thesis by (auto simp: cst_loop_comma)
  next
    case 3
    then have "p < z" using less.prems p by (auto simp: first_zero_def le_less)
    moreover obtain tc1 where "cst_loop mem p st tc = cst_loop mem (Suc p) (cst_next st (mem ! p)) tc1"
      using cst_loop_step 3 p by blast
    ultimately show ?thesis
      using less.hyps[of "Suc p" "cst_next st (mem ! p)" tc1] first_zero_Suc[OF less.prems]
      by fastforce
  qed
qed

lemma scan_terminates:
  assumes "first_zero mem p z"
  shows "\<exists>fc' tc'. scan mem p fc tc = Some (fc', tc')"
  using assms
proof (induction "z - p" arbitrary: p fc tc rule: less_induct)
  case less
  have p: "p < length mem" "p \<le> z" using less.prems by (auto simp: first_zero_def)
  show ?case
  proof (cases "mem ! p = 0")
    case True
    with p show ?thesis by (subst scan.simps) simp
  next
    case False
    then have lt: "p < z" using less.prems p by (auto simp: first_zero_def le_less)
    obtain p' st' tc' where t: "core_state_transition mem p tc = Some (p', st', tc')" "p < p'" "p' \<le> z"
      using cst_loop_progress[OF less.prems, of CORE_START tc] lt
      unfolding core_state_transition_def by auto
    have "\<exists>fc2 tc2. scan mem p' (bump fc st') tc' = Some (fc2, tc2)"
      by (rule less.hyps) (use t lt first_zero_mono[OF less.prems] in auto)
    with False p t show ?thesis by (subst scan.simps) simp
  qed
qed

text \<open>A block that is a sequence of valid tokens is counted by the languages of its tokens.\<close>

definition joined :: "ee_u8 list list \<Rightarrow> ee_u8 list" where
  "joined toks = concat (map (\<lambda>t. t @ [44]) toks)"

lemma joined_simps [simp]:
  "joined [] = []"
  "joined (t # ts) = t @ 44 # joined ts"
  "joined (ts @ us) = joined ts @ joined us"
  by (simp_all add: joined_def)

definition token_count :: "core_state \<Rightarrow> ee_u8 list list \<Rightarrow> ee_u32" where
  "token_count st toks = of_nat (length (filter (token_lang st) toks))"

lemma token_lang_unique: "token_lang st t \<Longrightarrow> token_lang st' t \<Longrightarrow> st = st'"
  using cst_run_lang by (metis token_lang.simps(8))

lemma scan_counts_from:
  assumes "\<forall>t \<in> set toks. (\<forall>c \<in> set t. c \<noteq> 0 \<and> c \<noteq> 44) \<and> (\<exists>st. token_lang st t)"
  shows "\<exists>tc'. scan (pre @ joined toks @ 0 # post) (length pre) fc tc
    = Some (\<lambda>st. fc st + token_count st toks, tc')"
  using assms
proof (induction toks arbitrary: pre fc tc)
  case Nil
  then show ?case by (subst scan.simps) (simp add: nth_append token_count_def)
next
  case (Cons t toks)
  let ?m = "pre @ joined (t # toks) @ 0 # post"
  from Cons.prems obtain st where t: "\<forall>c \<in> set t. c \<noteq> 0 \<and> c \<noteq> 44" "token_lang st t" by auto
  obtain tc1 where tr: "core_state_transition ?m (length pre) tc
      = Some (length (pre @ t @ [44]), st, tc1)"
    using transition_valid[OF t, of 44 pre "joined toks @ 0 # post" tc] by auto
  have nz: "?m ! length pre \<noteq> 0" "length pre < length ?m"
    using t(1) by (cases t; simp add: nth_append)+
  have "(pre @ t @ [44]) @ joined toks @ 0 # post = ?m" by simp
  then obtain tc2 where "scan ?m (length (pre @ t @ [44])) (bump fc st) tc1
      = Some (\<lambda>s. bump fc st s + token_count s toks, tc2)"
    using Cons.IH[of "pre @ t @ [44]" "bump fc st" tc1] Cons.prems by auto
  moreover have "(\<lambda>s. bump fc st s + token_count s toks) = (\<lambda>s. fc s + token_count s (t # toks))"
    using t(2) token_lang_unique by (fastforce simp: bump_def token_count_def)
  ultimately show ?case using tr nz by (subst scan.simps) simp
qed

section \<open>The corruption passes\<close>

text \<open>The offsets a pass visits, and the byte it leaves.\<close>

definition visited :: "nat \<Rightarrow> nat \<Rightarrow> nat \<Rightarrow> nat \<Rightarrow> bool" where
  "visited s n p i \<longleftrightarrow> p \<le> i \<and> i < n \<and> s dvd (i - p)"

definition corrupt_byte :: "ee_s16 \<Rightarrow> ee_u8 \<Rightarrow> ee_u8" where
  "corrupt_byte seed c = (if c \<noteq> 44 then c XOR ucast seed else c)"

lemma visited_step:
  assumes "0 < s" "p < n"
  shows "visited s n p i \<longleftrightarrow> i = p \<or> visited s n (p + s) i"
proof
  assume v: "visited s n p i"
  show "i = p \<or> visited s n (p + s) i"
  proof (cases "i = p")
    case False
    with v have "0 < i - p" "s dvd i - p" by (auto simp: visited_def)
    then have "s \<le> i - p" by (simp add: dvd_imp_le)
    with v \<open>s dvd i - p\<close> show ?thesis
      by (auto simp: visited_def) (metis diff_diff_left dvd_minus_self)
  qed simp
next
  assume "i = p \<or> visited s n (p + s) i"
  then show "visited s n p i"
  proof
    assume "i = p"
    then show ?thesis using assms by (simp add: visited_def)
  next
    assume v: "visited s n (p + s) i"
    then have eq: "i - p = (i - (p + s)) + s" by (auto simp: visited_def)
    have "s dvd (i - (p + s)) + s" using v by (intro dvd_add) (auto simp: visited_def)
    then have "s dvd i - p" by (simp only: eq)
    with v show ?thesis by (auto simp: visited_def)
  qed
qed

lemma corrupt_result:
  assumes "0 < s" "sint step = int s" "unat blksize \<le> length mem"
  shows "\<exists>m'. corrupt blksize seed step (int p) mem = Some m' \<and> length m' = length mem
    \<and> (\<forall>i < length mem. m' ! i =
          (if visited s (unat blksize) p i then corrupt_byte seed (mem ! i) else mem ! i))"
  using assms(3)
proof (induction "unat blksize - p" arbitrary: p mem rule: less_induct)
  case less
  show ?case
  proof (cases "p < unat blksize")
    case False
    then have "\<not> int p < uint blksize" by (simp add: uint_int_unat del: of_nat_unat)
    then have "corrupt blksize seed step (int p) mem = Some mem"
      by (subst corrupt.simps) simp
    with False show ?thesis by (auto simp: visited_def)
  next
    case True
    then have lt: "int p < uint blksize" "p < length mem"
      using less.prems by (simp_all add: uint_int_unat del: of_nat_unat)
    define m1 where "m1 = mem[p := corrupt_byte seed (mem ! p)]"
    have same: "mem[p := 44] = mem" if "mem ! p = 44"
      using that list_update_id[of mem p] by simp
    have "corrupt blksize seed step (int p) mem = corrupt blksize seed step (int (p + s)) m1"
      by (subst corrupt.simps) (use lt assms(2) same in \<open>simp add: m1_def corrupt_byte_def\<close>)
    moreover have "unat blksize - (p + s) < unat blksize - p" "unat blksize \<le> length m1"
      using True assms(1) less.prems by (auto simp: m1_def)
    from less.hyps[OF this] obtain m' where m': "corrupt blksize seed step (int (p + s)) m1 = Some m'"
      "length m' = length m1"
      "\<forall>i < length m1. m' ! i =
        (if visited s (unat blksize) (p + s) i then corrupt_byte seed (m1 ! i) else m1 ! i)"
      by blast
    moreover have "m' ! i = (if visited s (unat blksize) p i then corrupt_byte seed (mem ! i) else mem ! i)"
      if "i < length mem" for i
      using m'(3) that visited_step[OF assms(1) True, of i] assms(1)
      by (cases "i = p") (auto simp: m1_def visited_def)
    ultimately show ?thesis by (auto simp: m1_def)
  qed
qed

text \<open>With a step of at least two, one of two adjacent terminators survives a pass.\<close>

lemma visited_adjacent:
  assumes "2 \<le> s" "visited s n p i"
  shows "\<not> visited s n p (Suc i)"
proof
  assume "visited s n p (Suc i)"
  then have "s dvd Suc i - p" "s dvd i - p" "p \<le> i" using assms by (auto simp: visited_def)
  then have "s dvd Suc (i - p)" by (simp add: Suc_diff_le)
  with \<open>s dvd i - p\<close> have "s dvd 1" by (metis dvd_add_right_iff plus_1_eq_Suc add.commute)
  with assms(1) show False by simp
qed

lemma corrupt_byte_twice:
  assumes "ucast seed1 = (ucast seed2 :: ee_u8)" "c XOR ucast seed1 \<noteq> 44"
  shows "corrupt_byte seed2 (corrupt_byte seed1 c) = c"
  using assms by (simp add: corrupt_byte_def)

text \<open>
  The block the benchmark works on: it fills the memory and ends in two zero bytes, as
  \<open>core_init_state\<close> leaves it.
\<close>

definition terminated :: "ee_u32 \<Rightarrow> ee_u8 list \<Rightarrow> bool" where
  "terminated blksize mem \<longleftrightarrow> length mem = unat blksize \<and> 2 \<le> length mem
     \<and> mem ! (length mem - 1) = 0 \<and> mem ! (length mem - 2) = 0"

lemma bench_state_passes:
  assumes "terminated blksize mem" "2 \<le> sint step"
  shows "\<exists>crc' mem1 mem2. core_bench_state blksize mem seed1 seed2 step crc = Some (crc', mem2)
    \<and> corrupt blksize seed1 step 0 mem = Some mem1 \<and> corrupt blksize seed2 step 0 mem1 = Some mem2"
proof -
  define s where "s = nat (sint step)"
  define n where "n = length mem"
  have s: "2 \<le> s" "0 < s" "sint step = int s" using assms(2) by (auto simp: s_def)
  have n: "n = unat blksize" "2 \<le> n" "mem ! (n - 1) = 0" "mem ! (n - 2) = 0"
    using assms(1) by (auto simp: terminated_def n_def)
  obtain z0 where "first_zero mem 0 z0"
    using first_zero_exists[of "n - 1" mem 0] n by (auto simp: n_def)
  then obtain fc tc where scan1: "scan mem 0 (\<lambda>_. 0) (\<lambda>_. 0) = Some (fc, tc)"
    using scan_terminates by blast
  have le: "unat blksize \<le> length mem" using n by (simp add: n_def)
  obtain m1 where m1: "corrupt blksize seed1 step 0 mem = Some m1" "length m1 = n"
    "\<forall>i < n. m1 ! i = (if visited s n 0 i then corrupt_byte seed1 (mem ! i) else mem ! i)"
    using corrupt_result[OF s(2,3) le, of seed1 0] n by (auto simp: n_def)
  obtain z where "z < n" "m1 ! z = 0"
  proof (cases "visited s n 0 (n - 2)")
    case True
    then have "\<not> visited s n 0 (Suc (n - 2))" using visited_adjacent s(1) by blast
    then have "m1 ! (n - 1) = 0" using m1(3) n by (auto simp: Suc_diff_Suc numeral_2_eq_2)
    with that n show ?thesis by (auto intro: that[of "n - 1"])
  next
    case False
    then have "m1 ! (n - 2) = 0" using m1(3) n by auto
    with that n show ?thesis by (auto intro: that[of "n - 2"])
  qed
  then obtain z' where "first_zero m1 0 z'" using first_zero_exists[of z m1 0] m1(2) by auto
  then obtain fc2 tc2 where scan2: "scan m1 0 fc tc = Some (fc2, tc2)"
    using scan_terminates by blast
  have le1: "unat blksize \<le> length m1" using m1 n by simp
  obtain m2 where m2: "corrupt blksize seed2 step 0 m1 = Some m2"
    using corrupt_result[OF s(2,3) le1, of seed2 0] by auto
  show ?thesis
    using scan1 m1(1) scan2 m2 by (simp add: core_bench_state_def)
qed

lemma bench_state_memory:
  assumes "terminated blksize mem" "2 \<le> sint step"
    "core_bench_state blksize mem seed1 seed2 step crc = Some (crc', mem')"
  shows "length mem' = length mem \<and> (\<forall>i < length mem. mem' ! i =
    (if visited (nat (sint step)) (length mem) 0 i
     then corrupt_byte seed2 (corrupt_byte seed1 (mem ! i)) else mem ! i))"
proof -
  define s where "s = nat (sint step)"
  have s: "0 < s" "sint step = int s" using assms(2) by (auto simp: s_def)
  have n: "unat blksize = length mem" using assms(1) by (simp add: terminated_def)
  obtain mem1 where c: "corrupt blksize seed1 step 0 mem = Some mem1"
    "corrupt blksize seed2 step 0 mem1 = Some mem'"
    using bench_state_passes[OF assms(1,2), of seed1 seed2 crc] assms(3) by auto
  have 1: "length mem1 = length mem" "\<forall>i < length mem. mem1 ! i =
      (if visited s (length mem) 0 i then corrupt_byte seed1 (mem ! i) else mem ! i)"
    using corrupt_result[OF s, of blksize mem seed1 0] n c by auto
  have 2: "length mem' = length mem1" "\<forall>i < length mem1. mem' ! i =
      (if visited s (length mem) 0 i then corrupt_byte seed2 (mem1 ! i) else mem1 ! i)"
    using corrupt_result[OF s, of blksize mem1 seed2 0] n c 1 by auto
  show ?thesis using 1 2 by (auto simp: s_def)
qed

text \<open>Nothing is lost when no byte becomes a comma.\<close>

lemma bench_state_identity:
  assumes "terminated blksize mem" "2 \<le> sint step" "ucast seed1 = (ucast seed2 :: ee_u8)"
    "\<forall>c \<in> set mem. c XOR ucast seed1 = 44 \<longrightarrow> c = 44"
  shows "\<exists>crc'. core_bench_state blksize mem seed1 seed2 step crc = Some (crc', mem)"
proof -
  obtain crc' mem' where r: "core_bench_state blksize mem seed1 seed2 step crc = Some (crc', mem')"
    using bench_state_passes[OF assms(1,2)] by blast
  have m: "length mem' = length mem" "\<forall>i < length mem. mem' ! i =
    (if visited (nat (sint step)) (length mem) 0 i
     then corrupt_byte seed2 (corrupt_byte seed1 (mem ! i)) else mem ! i)"
    using bench_state_memory[OF assms(1,2) r] by auto
  have twice: "corrupt_byte seed2 (corrupt_byte seed1 c) = c" if "c \<in> set mem" for c
    using assms(4) that corrupt_byte_twice[OF assms(3), of c]
    by (cases "c XOR ucast seed1 = 44") (auto simp: corrupt_byte_def)
  have "mem' = mem"
    by (rule nth_equalityI) (use m twice in auto)
  with r show ?thesis by blast
qed

section \<open>The initialised block\<close>

definition pattern :: "ee_s16 \<Rightarrow> ee_u8 list" where
  "pattern seed = fst (select_pattern seed)"

lemma unat_and_3: "unat (x AND 3 :: ee_s16) < 4"
proof -
  have "x AND 3 \<le> 3" by (rule word_and_le1)
  then show ?thesis by (simp add: word_le_nat_alt)
qed

lemma pattern_mem:
  "pattern seed \<in> set (intpat @ floatpat @ scipat @ errpat)"
proof -
  have "length intpat = 4" "length floatpat = 4" "length scipat = 4" "length errpat = 4"
    by (simp_all add: intpat_def floatpat_def scipat_def errpat_def)
  with unat_and_3[of "drop_bit 3 seed"] show ?thesis
    by (auto simp: pattern_def select_pattern_def Let_def)
qed

lemma select_pattern_eq:
  "select_pattern seed = (pattern seed, of_nat (length (pattern seed)))"
  and length_pattern: "length (pattern seed) = 4 \<or> length (pattern seed) = 8"
proof -
  have j: "unat (drop_bit 3 seed AND 3) < 4" by (rule unat_and_3)
  have len: "\<forall>j<4. length (intpat ! j) = 4" "\<forall>j<4. length (floatpat ! j) = 8"
    "\<forall>j<4. length (scipat ! j) = 8" "\<forall>j<4. length (errpat ! j) = 8"
    by (simp_all add: all_less_4 intpat_def floatpat_def scipat_def errpat_def)
  then show "select_pattern seed = (pattern seed, of_nat (length (pattern seed)))"
    "length (pattern seed) = 4 \<or> length (pattern seed) = 8"
    using j by (auto simp: pattern_def select_pattern_def Let_def)
qed

lemma pattern_bytes: "\<forall>c \<in> set (pattern seed). c \<noteq> 0 \<and> c \<noteq> 44"
proof -
  have "\<forall>t \<in> set (intpat @ floatpat @ scipat @ errpat). \<forall>c \<in> set t. c \<noteq> 0 \<and> c \<noteq> 44"
    by (simp add: intpat_def floatpat_def scipat_def errpat_def)
  then show ?thesis using pattern_mem by blast
qed

lemma put_token_result:
  assumes "unat nxt = length buf" "unat tot + length buf < length mem"
  shows "put_token tot nxt buf mem
    = Some (take (unat tot) mem @ buf @ 44 # drop (Suc (unat tot + length buf)) mem)"
proof -
  define t where "t = unat tot"
  define P where "P = (\<lambda>i m. m = take t mem @ take i buf @ drop (t + i) mem)"
  have "\<exists>m. for_count (\<lambda>i m. do { c \<leftarrow> rd buf i; wr m (t + i) c }) 0 (length buf) mem = Some m
      \<and> P (0 + length buf) m"
  proof (rule for_count_rule)
    fix j m
    assume j: "0 \<le> j" "j < 0 + length buf" and m: "P j m"
    have lt: "t + j < length mem" using j assms(2) by (simp add: t_def)
    have d: "drop (t + j) mem = mem ! (t + j) # drop (Suc (t + j)) mem"
      using lt by (rule Cons_nth_drop_Suc [symmetric])
    have len: "length (take t mem @ take j buf) = t + j" using j lt by simp
    have "m[t + j := buf ! j] = take t mem @ take (Suc j) buf @ drop (t + Suc j) mem"
    proof -
      have "m = (take t mem @ take j buf) @ mem ! (t + j) # drop (Suc (t + j)) mem"
        using m d by (simp add: P_def)
      then have "m[t + j := buf ! j] = (take t mem @ take j buf) @ buf ! j # drop (Suc (t + j)) mem"
        using len by (metis list_update_length)
      then show ?thesis using j by (simp add: take_Suc_conv_app_nth)
    qed
    moreover have "t + j < length m" using m j lt by (simp add: P_def)
    ultimately show "\<exists>s'. (do { c \<leftarrow> rd buf j; wr m (t + j) c }) = Some s' \<and> P (Suc j) s'"
      using j by (simp add: P_def)
  qed (simp add: P_def)
  then have loop: "for_count (\<lambda>i m. do { c \<leftarrow> rd buf i; wr m (t + i) c }) 0 (length buf) mem
      = Some (take t mem @ buf @ drop (t + length buf) mem)"
    by (simp add: P_def)
  let ?m = "take t mem @ buf @ drop (t + length buf) mem"
  have lt: "t + length buf < length mem" using assms(2) by (simp add: t_def)
  have "drop (t + length buf) mem = mem ! (t + length buf) # drop (Suc (t + length buf)) mem"
    using lt by (rule Cons_nth_drop_Suc [symmetric])
  then have "?m = (take t mem @ buf) @ mem ! (t + length buf) # drop (Suc (t + length buf)) mem"
    by simp
  moreover have "length (take t mem @ buf) = t + length buf" using lt by simp
  ultimately have "?m[t + length buf := 44] = (take t mem @ buf) @ 44 # drop (Suc (t + length buf)) mem"
    by (metis list_update_length)
  then show ?thesis
    using loop lt assms(1) by (simp add: put_token_def t_def)
qed

text \<open>The tokens the initialisation writes: the patterns of successive seeds.\<close>

definition tokens_from :: "ee_s16 \<Rightarrow> nat \<Rightarrow> ee_u8 list list" where
  "tokens_from seed n = map (\<lambda>k. pattern (seed + of_nat k)) [0..<n]"

lemma tokens_from_Suc: "tokens_from seed (Suc n) = pattern seed # tokens_from (seed + 1) n"
  by (rule nth_equalityI) (auto simp: tokens_from_def nth_Cons' algebra_simps simp del: upt_Suc)

lemma init_loop_result:
  assumes "unat sz \<le> 2 ^ 31" "unat sz \<le> length mem" "unat tot \<le> unat sz"
  shows "\<exists>n tot'. init_loop sz seed tot (of_nat (length (pattern seed))) (pattern seed) mem
      = Some (tot', take (unat tot) mem @ joined (tokens_from seed n) @ drop (unat tot') mem)
    \<and> unat tot' = unat tot + length (joined (tokens_from seed n))
    \<and> (0 < n \<longrightarrow> unat tot' < unat sz)
    \<and> unat sz \<le> unat tot' + length (pattern (seed + of_nat n)) + 1"
  using assms(2,3)
proof (induction "unat sz - unat tot" arbitrary: tot seed mem rule: less_induct)
  case less
  let ?l = "length (pattern seed)"
  have l: "?l \<le> 8" "0 < ?l" using length_pattern[of seed] by auto
  have small: "unat tot + ?l + 1 < 2 ^ 32" using less.prems assms(1) l by simp
  have ul: "unat (of_nat ?l :: ee_u32) = ?l" using l by (simp add: unat_of_nat_32)
  have sum: "unat (tot + (of_nat ?l + 1)) = unat tot + ?l + 1"
    using small ul by (simp add: unat_word_ariths)
  have assoc: "tot + of_nat ?l + 1 = tot + (of_nat ?l + 1)" by (simp add: add.assoc)
  show ?case
  proof (cases "unat tot + ?l + 1 < unat sz")
    case False
    then have "init_loop sz seed tot (of_nat ?l) (pattern seed) mem = Some (tot, mem)"
      by (subst init_loop.simps) (simp add: assoc word_less_nat_alt sum)
    with False show ?thesis
      by (intro exI[of _ 0] exI[of _ tot]) (simp add: tokens_from_def)
  next
    case True
    define tot1 where "tot1 = tot + (of_nat ?l + 1)"
    define m1 where "m1 = take (unat tot) mem @ pattern seed @ 44 # drop (Suc (unat tot + ?l)) mem"
    have put: "put_token tot (of_nat ?l) (pattern seed) mem = Some m1"
      unfolding m1_def by (rule put_token_result) (use ul True less.prems in auto)
    have step: "init_loop sz seed tot (of_nat ?l) (pattern seed) mem
        = init_loop sz (seed + 1) tot1 (of_nat (length (pattern (seed + 1)))) (pattern (seed + 1)) m1"
      by (subst init_loop.simps)
        (use True put l ul in \<open>simp add: assoc word_less_nat_alt sum tot1_def select_pattern_eq Let_def\<close>)
    have m1: "length m1 = length mem" "unat tot1 = unat tot + ?l + 1"
      using True less.prems by (auto simp: m1_def tot1_def sum)
    have "unat sz - unat tot1 < unat sz - unat tot" "unat sz \<le> length m1" "unat tot1 \<le> unat sz"
      using True less.prems m1 by auto
    from less.hyps[OF this, of "seed + 1"]
    obtain n tot' where r: "init_loop sz (seed + 1) tot1 (of_nat (length (pattern (seed + 1)))) (pattern (seed + 1)) m1
        = Some (tot', take (unat tot1) m1 @ joined (tokens_from (seed + 1) n) @ drop (unat tot') m1)"
      "unat tot' = unat tot1 + length (joined (tokens_from (seed + 1) n))"
      "0 < n \<longrightarrow> unat tot' < unat sz"
      "unat sz \<le> unat tot' + length (pattern (seed + 1 + of_nat n)) + 1"
      by blast
    have "take (unat tot1) m1 = take (unat tot) mem @ pattern seed @ [44]"
      using less.prems True by (simp add: m1_def m1(2))
    moreover have "drop (unat tot') m1 = drop (unat tot') mem"
      using r(2) True less.prems m1(2) by (simp add: m1_def add.commute add.left_commute)
    moreover have "unat tot' < unat sz"
      using r(2,3) m1(2) True by (cases n) (auto simp: tokens_from_def)
    ultimately show ?thesis
      using step r m1(2)
      by (intro exI[of _ "Suc n"] exI[of _ tot']) (simp add: tokens_from_Suc add.commute add.left_commute)
  qed
qed

lemma fill_zero_result:
  assumes "unat sz \<le> length mem" "unat tot \<le> unat sz"
  shows "fill_zero sz tot mem
    = Some (take (unat tot) mem @ replicate (unat sz - unat tot) 0 @ drop (unat sz) mem)"
  using assms
proof (induction "unat sz - unat tot" arbitrary: tot mem rule: less_induct)
  case less
  show ?case
  proof (cases "tot < sz")
    case False
    then have "unat tot = unat sz" using less.prems by (simp add: word_less_nat_alt)
    then show ?thesis using False by (subst fill_zero.simps) simp
  next
    case True
    then have lt: "unat tot < unat sz" by (simp add: word_less_nat_alt)
    have s: "unat (tot + 1) = Suc (unat tot)"
      using True by (rule unat_add_1)
    have "fill_zero sz tot mem = fill_zero sz (tot + 1) (mem[unat tot := 0])"
      using True lt less.prems by (subst fill_zero.simps) simp
    also have "\<dots> = Some (take (unat (tot + 1)) (mem[unat tot := 0])
        @ replicate (unat sz - unat (tot + 1)) 0 @ drop (unat sz) (mem[unat tot := 0]))"
      by (rule less.hyps) (use lt s less.prems in auto)
    also have "take (unat (tot + 1)) (mem[unat tot := 0]) = take (unat tot) mem @ [0]"
      using lt less.prems s by (simp add: take_Suc_conv_app_nth)
    finally show ?thesis
      using lt less.prems s by (simp add: Suc_diff_Suc flip: replicate_Suc)
  qed
qed

lemma core_init_layout:
  assumes "2 \<le> unat sz" "unat sz \<le> 2 ^ 31" "unat sz \<le> length mem"
  shows "\<exists>n. core_init_state sz seed mem = Some (joined (tokens_from (seed + 1) n)
        @ replicate (unat sz - length (joined (tokens_from (seed + 1) n))) 0 @ drop (unat sz) mem)
    \<and> length (joined (tokens_from (seed + 1) n)) + 2 \<le> unat sz
    \<and> unat sz \<le> length (joined (tokens_from (seed + 1) n)) + length (pattern (seed + 1 + of_nat n)) + 2"
proof -
  let ?sz' = "sz - 1"
  have "1 \<le> sz" using assms(1) by (simp add: word_le_nat_alt)
  then have sz': "unat ?sz' = unat sz - 1" by (simp add: unat_sub)
  obtain n tot' mem' where r: "init_loop ?sz' seed 0 0 [] mem = Some (tot', mem')"
    "mem' = joined (tokens_from (seed + 1) n) @ drop (unat tot') mem"
    "unat tot' = length (joined (tokens_from (seed + 1) n))" "unat tot' < unat ?sz'"
    "unat ?sz' \<le> unat tot' + length (pattern (seed + 1 + of_nat n)) + 1"
  proof (cases "1 < ?sz'")
    case False
    then have "init_loop ?sz' seed 0 0 [] mem = Some (0, mem)" by (subst init_loop.simps) simp
    moreover have "unat ?sz' = 1" using False sz' assms(1) by (simp add: word_less_nat_alt)
    ultimately show ?thesis
      by (intro that[of 0 mem 0]) (simp_all add: tokens_from_def)
  next
    case True
    then have "init_loop ?sz' seed 0 0 [] mem = init_loop ?sz' (seed + 1) 0
        (of_nat (length (pattern (seed + 1)))) (pattern (seed + 1)) mem"
      by (subst init_loop.simps) (simp add: select_pattern_eq Let_def)
    moreover have "unat ?sz' \<le> 2 ^ 31" "unat ?sz' \<le> length mem" "unat 0 \<le> unat ?sz'"
      using assms sz' by simp_all
    from init_loop_result[OF this, of "seed + 1"] obtain n tot' where
      "init_loop ?sz' (seed + 1) 0 (of_nat (length (pattern (seed + 1)))) (pattern (seed + 1)) mem
        = Some (tot', joined (tokens_from (seed + 1) n) @ drop (unat tot') mem)"
      "unat tot' = length (joined (tokens_from (seed + 1) n))"
      "0 < n \<longrightarrow> unat tot' < unat ?sz'"
      "unat ?sz' \<le> unat tot' + length (pattern (seed + 1 + of_nat n)) + 1" by auto
    moreover from this have "unat tot' < unat ?sz'"
      using True by (cases n) (auto simp: tokens_from_def word_less_nat_alt)
    ultimately show ?thesis using that by auto
  qed
  have "fill_zero (?sz' + 1) tot' mem'
      = Some (take (unat tot') mem' @ replicate (unat sz - unat tot') 0 @ drop (unat sz) mem')"
    using fill_zero_result[of sz mem' tot'] r sz' assms by simp
  moreover have "drop (unat sz) mem' = drop (unat sz) mem"
    using r sz' by simp
  ultimately show ?thesis
    using r sz' by (intro exI[of _ n]) (auto simp: core_init_state_def)
qed

lemma core_init_terminated:
  assumes "core_init_state sz seed mem = Some mem'" "length mem = unat sz" "2 \<le> unat sz" "unat sz \<le> 2 ^ 31"
  shows "terminated sz mem'"
proof -
  obtain n where n: "mem' = joined (tokens_from (seed + 1) n)
        @ replicate (unat sz - length (joined (tokens_from (seed + 1) n))) 0"
    "length (joined (tokens_from (seed + 1) n)) + 2 \<le> unat sz"
    using core_init_layout[OF assms(3,4), of mem seed] assms(1,2) by auto
  then show ?thesis
    using assms(3) by (auto simp: terminated_def nth_append)
qed

text \<open>The bytes an initialised block can hold.\<close>

definition init_bytes :: "ee_u8 list" where
  "init_bytes = 0 # 44 # concat (intpat @ floatpat @ scipat @ errpat)"

lemma core_init_bytes:
  assumes "core_init_state sz seed mem = Some mem'" "length mem = unat sz" "2 \<le> unat sz" "unat sz \<le> 2 ^ 31"
  shows "set mem' \<subseteq> set init_bytes"
proof -
  obtain n where n: "mem' = joined (tokens_from (seed + 1) n)
        @ replicate (unat sz - length (joined (tokens_from (seed + 1) n))) 0"
    using core_init_layout[OF assms(3,4), of mem seed] assms(1,2) by auto
  have pat: "set (pattern s) \<subseteq> set init_bytes" for s
  proof -
    have "set (pattern s) \<subseteq> set (concat (intpat @ floatpat @ scipat @ errpat))"
      using pattern_mem[of s] by (simp only: set_concat) blast
    then show ?thesis by (simp only: init_bytes_def list.set) blast
  qed
  have sep: "0 \<in> set init_bytes" "44 \<in> set init_bytes" by (simp_all add: init_bytes_def)
  have "set (joined (map (\<lambda>k. pattern (f k)) ks)) \<subseteq> set init_bytes" for f and ks :: "nat list"
  proof (induction ks)
    case Nil
    show ?case by simp
  next
    case (Cons k ks)
    then show ?case
      using pat[of "f k"] sep(2) by (simp only: list.map joined_simps set_append list.set) blast
  qed
  then have "set (joined (tokens_from (seed + 1) n)) \<subseteq> set init_bytes"
    unfolding tokens_from_def .
  moreover have "set (replicate k 0) \<subseteq> set init_bytes" for k
    using sep(1) by (simp only: set_replicate_conv_if) simp
  ultimately show ?thesis unfolding n by (simp only: set_append) blast
qed

section \<open>Properties\<close>

text \<open>C7: One call of \<open>core_state_transition\<close> at the start of a token that belongs to the
  language of a valid final state (an integer, a float, a number with an exponent, or one of
  their proper prefixes) consumes exactly that token, and its comma when one follows, and
  returns that state.\<close>

theorem state_transition_valid_token:
  assumes "\<forall>c \<in> set t. c \<noteq> 0 \<and> c \<noteq> 44" "d = 0 \<or> d = 44" "token_lang st t"
  shows "\<exists>tc'. core_state_transition (pre @ t @ d # post) (length pre) tc
    = Some (length pre + length t + (if d = 44 then 1 else 0), st, tc')"
  using transition_valid[OF assms(1,3,2)] .

lemma scientific_example: "token_lang CORE_SCIENTIFIC [43, 48, 46, 54, 101, 45, 49, 50]"
  by (subst cst_run_lang [symmetric]) (simp_all add: cst_run_def digit_def is_sign_def)

theorem state_transition_valid_token_witness:
  "\<exists>tc'. core_state_transition ([53, 44] @ [43, 48, 46, 54, 101, 45, 49, 50] @ 44 # [49, 0])
     (length [53, 44 :: ee_u8]) (\<lambda>_. 0)
   = Some (length [53, 44 :: ee_u8] + length [43, 48, 46, 54, 101, 45, 49, 50 :: ee_u8]
       + (if (44 :: ee_u8) = 44 then 1 else 0), CORE_SCIENTIFIC, tc')"
  by (rule state_transition_valid_token) (simp_all only: scientific_example, simp_all)

text \<open>A call stops right after the first byte that no valid form allows, whatever follows:
  the consumed bytes are the longest valid prefix and that byte, and the state returned is
  \<open>CORE_INVALID\<close>.\<close>

theorem state_transition_invalid_token:
  assumes "\<forall>b \<in> set (u @ [c]). b \<noteq> 0 \<and> b \<noteq> 44" "token_lang st u"
    "\<forall>s. \<not> token_lang s (u @ [c])"
  shows "\<exists>tc'. core_state_transition (pre @ u @ c # d # post) (length pre) tc
    = Some (length pre + length u + 1, CORE_INVALID, tc')"
  using transition_invalid[OF assms] .

lemma integer_example: "token_lang CORE_INT [45, 56, 55]"
  by (subst cst_run_lang [symmetric]) (simp_all add: cst_run_def digit_def is_sign_def)

lemma integer_exponent_invalid: "\<not> token_lang s ([45, 56, 55] @ [101])"
proof (cases "s = CORE_INVALID")
  case False
  have "cst_run ([45, 56, 55] @ [101]) = CORE_INVALID"
    by (simp add: cst_run_def digit_def is_sign_def)
  with False show ?thesis by (simp flip: cst_run_lang)
qed simp

theorem state_transition_invalid_token_witness:
  "\<exists>tc'. core_state_transition ([] @ [45, 56, 55] @ 101 # 43 # [56, 51, 50, 44, 0])
     (length ([] :: ee_u8 list)) (\<lambda>_. 0)
   = Some (length ([] :: ee_u8 list) + length [45, 56, 55 :: ee_u8] + 1, CORE_INVALID, tc')"
  by (rule state_transition_invalid_token [where st = CORE_INT])
    (simp_all only: integer_example integer_exponent_invalid, simp_all)

text \<open>Scanning a zero terminated block that is a sequence of comma terminated valid tokens
  ends, and counts in \<open>final_counts\<close>, for every state, exactly the tokens of the language of
  that state.\<close>

theorem state_scan_counts:
  assumes "\<forall>t \<in> set toks. (\<forall>c \<in> set t. c \<noteq> 0 \<and> c \<noteq> 44) \<and> (\<exists>st. token_lang st t)"
  shows "\<exists>tc'. scan (joined toks @ 0 # post) 0 (\<lambda>_. 0) (\<lambda>_. 0)
    = Some (\<lambda>st. token_count st toks, tc')"
  using scan_counts_from[OF assms, of "[]" post "\<lambda>_. 0" "\<lambda>_. 0"] by simp

theorem state_scan_counts_witness:
  "\<exists>tc'. scan (joined [[45, 56, 55], [43, 48, 46, 54, 101, 45, 49, 50]] @ 0 # [7]) 0 (\<lambda>_. 0) (\<lambda>_. 0)
    = Some (\<lambda>st. token_count st [[45, 56, 55], [43, 48, 46, 54, 101, 45, 49, 50]], tc')"
proof -
  have "\<exists>st. token_lang st [45, 56, 55]" "\<exists>st. token_lang st [43, 48, 46, 54, 101, 45, 49, 50]"
    using integer_example scientific_example by blast+
  then show ?thesis by (intro state_scan_counts) simp
qed

text \<open>C20: \<open>core_init_state\<close> with a block of at least two bytes writes only inside it: it fills
  the block with the patterns of the successive seeds, each with its comma, as many as leave
  two bytes free, and zeroes the rest; what follows the block is unchanged.\<close>

theorem state_init_layout:
  assumes "2 \<le> unat sz" "unat sz \<le> 2 ^ 31" "unat sz \<le> length mem"
  shows "\<exists>n. core_init_state sz seed mem = Some (joined (tokens_from (seed + 1) n)
        @ replicate (unat sz - length (joined (tokens_from (seed + 1) n))) 0 @ drop (unat sz) mem)
    \<and> length (joined (tokens_from (seed + 1) n)) + 2 \<le> unat sz
    \<and> unat sz \<le> length (joined (tokens_from (seed + 1) n)) + length (pattern (seed + 1 + of_nat n)) + 2"
  using core_init_layout[OF assms] .

theorem state_init_layout_witness:
  "\<exists>n. core_init_state 666 0 (replicate 700 1) = Some (joined (tokens_from (0 + 1) n)
        @ replicate (unat (666 :: ee_u32) - length (joined (tokens_from (0 + 1) n))) 0
        @ drop (unat (666 :: ee_u32)) (replicate 700 1))
    \<and> length (joined (tokens_from (0 + 1) n)) + 2 \<le> unat (666 :: ee_u32)
    \<and> unat (666 :: ee_u32)
        \<le> length (joined (tokens_from (0 + 1) n)) + length (pattern (0 + 1 + of_nat n)) + 2"
  by (rule state_init_layout) simp_all

text \<open>C22: The benchmark is memory safe and returns on every initialised block, for all seeds
  and every step of at least two: a corruption pass may hit a terminator, but never both of
  the two that the initialisation leaves, so no scan leaves the block.\<close>

theorem state_bench_safe:
  assumes "length mem = unat sz" "2 \<le> unat sz" "unat sz \<le> 2 ^ 31" "2 \<le> sint step"
  shows "\<exists>mem0 crc' mem'. core_init_state sz seed mem = Some mem0
    \<and> core_bench_state sz mem0 seed1 seed2 step crc = Some (crc', mem')"
proof -
  obtain mem0 where i: "core_init_state sz seed mem = Some mem0"
    using core_init_layout[OF assms(2,3), of mem seed] assms(1) by auto
  then have "terminated sz mem0" using core_init_terminated assms(1-3) by blast
  from bench_state_passes[OF this assms(4)] i show ?thesis by blast
qed

theorem state_bench_safe_witness:
  "\<exists>mem0 crc' mem'. core_init_state 666 0x3415 (replicate 666 0) = Some mem0
    \<and> core_bench_state 666 mem0 0x3415 0x3415 0x22 7 = Some (crc', mem')"
  by (rule state_bench_safe) simp_all

text \<open>C21: With equal low seed bytes the benchmark puts the block back exactly when no byte it
  visits, other than a comma, is turned into a comma by the corruption: the undo pass skips
  commas, so such a byte is lost.\<close>

theorem state_bench_restores_iff:
  assumes "terminated blksize mem" "2 \<le> sint step" "ucast seed1 = (ucast seed2 :: ee_u8)"
    "core_bench_state blksize mem seed1 seed2 step crc = Some (crc', mem')"
  shows "mem' = mem \<longleftrightarrow> (\<forall>i. visited (nat (sint step)) (length mem) 0 i
    \<longrightarrow> mem ! i XOR ucast seed1 = 44 \<longrightarrow> mem ! i = 44)"
proof -
  have m: "length mem' = length mem" "\<forall>i < length mem. mem' ! i =
    (if visited (nat (sint step)) (length mem) 0 i
     then corrupt_byte seed2 (corrupt_byte seed1 (mem ! i)) else mem ! i)"
    using bench_state_memory[OF assms(1,2,4)] by auto
  have byte: "corrupt_byte seed2 (corrupt_byte seed1 c) = c \<longleftrightarrow> (c XOR ucast seed1 = 44 \<longrightarrow> c = 44)" for c
    using corrupt_byte_twice[OF assms(3), of c]
    by (cases "c XOR ucast seed1 = 44") (auto simp: corrupt_byte_def)
  have "mem' = mem \<longleftrightarrow> (\<forall>i < length mem. mem' ! i = mem ! i)"
    using m(1) by (auto simp: list_eq_iff_nth_eq)
  then show ?thesis using m(2) byte by (auto simp: visited_def)
qed

lemma bench_restore_block:
  "terminated 4 [49, 50, 0, 0] \<and> (\<exists>r. core_bench_state 4 [49, 50, 0, 0] 29 29 2 0 = Some r)"
proof -
  have t: "terminated 4 [49, 50, 0, 0]" by (simp add: terminated_def)
  have "(2 :: int) \<le> sint (2 :: ee_s16)" by simp
  from bench_state_passes[OF t this, of 29 29 0] t show ?thesis by blast
qed

theorem state_bench_restores_iff_witness:
  "\<exists>crc' mem'. core_bench_state 4 [49, 50, 0, 0] 29 29 2 0 = Some (crc', mem') \<and> mem' \<noteq> [49, 50, 0, 0]"
proof -
  obtain crc' mem' where r: "core_bench_state 4 [49, 50, 0, 0] 29 29 2 0 = Some (crc', mem')"
    using bench_restore_block by auto
  have "mem' = [49, 50, 0, 0] \<longleftrightarrow> (\<forall>i. visited (nat (sint (2 :: ee_s16))) (length [49, 50, 0, 0 :: ee_u8]) 0 i
    \<longrightarrow> [49, 50, 0, 0 :: ee_u8] ! i XOR ucast (29 :: ee_s16) = 44 \<longrightarrow> [49, 50, 0, 0 :: ee_u8] ! i = 44)"
    by (rule state_bench_restores_iff[OF _ _ refl r]) (use bench_restore_block in auto)
  moreover have "visited (nat (sint (2 :: ee_s16))) (length [49, 50, 0, 0 :: ee_u8]) 0 0"
    by (simp add: visited_def)
  ultimately have "mem' \<noteq> [49, 50, 0, 0]" by (auto dest!: spec[of _ 0])
  with r show ?thesis by blast
qed

text \<open>On a block made by \<open>core_init_state\<close>, and for the seeds of the benchmark's own runs
  (0, 0x3415 and 8), the two corruption passes cancel: the memory after the benchmark is the
  initialised block again, so every iteration sees the same input.\<close>

theorem state_bench_restores_init:
  assumes "core_init_state sz seed mem = Some mem0" "length mem = unat sz" "2 \<le> unat sz"
    "unat sz \<le> 2 ^ 31" "2 \<le> sint step" "s = 0 \<or> s = 0x3415 \<or> s = 8"
    "core_bench_state sz mem0 s s step crc = Some (crc', mem')"
  shows "mem' = mem0"
proof -
  have t: "terminated sz mem0" using core_init_terminated assms(1-4) by blast
  have "\<forall>c \<in> set init_bytes. c XOR ucast s = 44 \<longrightarrow> c = 44"
    using assms(6) by (auto simp: init_bytes_def intpat_def floatpat_def scipat_def errpat_def)
  then have ok: "c XOR ucast s = 44 \<longrightarrow> c = 44" if "c \<in> set mem0" for c
    using core_init_bytes[OF assms(1-4)] that by blast
  have "\<exists>crc'. core_bench_state sz mem0 s s step crc = Some (crc', mem0)"
    by (rule bench_state_identity[OF t assms(5) refl]) (use ok in blast)
  then show ?thesis using assms(7) by simp
qed

theorem state_bench_restores_init_witness:
  "\<exists>mem0 crc'. core_init_state 666 0x3415 (replicate 666 0) = Some mem0
    \<and> core_bench_state 666 mem0 0x3415 0x3415 0x22 7 = Some (crc', mem0)"
proof -
  have u: "length (replicate 666 (0 :: ee_u8)) = unat (666 :: ee_u32)" "2 \<le> unat (666 :: ee_u32)"
    "unat (666 :: ee_u32) \<le> 2 ^ 31" "2 \<le> sint (0x22 :: ee_s16)" by simp_all
  obtain mem0 where i: "core_init_state 666 0x3415 (replicate 666 0) = Some mem0"
    using core_init_layout[OF u(2,3), of "replicate 666 0" "0x3415"] u(1) by auto
  then have "terminated 666 mem0" using core_init_terminated u by blast
  then obtain crc' mem' where b: "core_bench_state 666 mem0 0x3415 0x3415 0x22 7 = Some (crc', mem')"
    using bench_state_passes u(4) by blast
  have "mem' = mem0" by (rule state_bench_restores_init[OF i u _ b]) simp
  with i b show ?thesis by blast
qed

end
