(* ===== verification/Core_Matrix_Props.thy ===== *)
theory Core_Matrix_Props
  imports Core_Matrix
begin

text \<open>
  Properties of \<open>core_matrix.c\<close>: each operation computes its matrix expression in the row
  order of the cells, the benchmark leaves both inputs as they were, and the initialisation
  chooses the largest dimension that fits.
\<close>

section \<open>Cells in row order\<close>

definition grid :: "ee_u32 \<Rightarrow> nat \<Rightarrow> bool" where
  "grid N n \<longleftrightarrow> n = unat N \<and> n * n \<le> 2 ^ 32"

lemma cell_less: "i < n \<Longrightarrow> j < n \<Longrightarrow> i * n + j < n * (n::nat)"
proof -
  assume "i < n" "j < n"
  then have "i * n + j < Suc i * n" by simp
  also have "\<dots> \<le> n * n" using \<open>i < n\<close> by (intro mult_le_mono1) simp
  finally show ?thesis .
qed

lemma cell_eq: "grid N n \<Longrightarrow> i < n \<Longrightarrow> j < n \<Longrightarrow> cell N i j = i * n + j"
proof -
  assume g: "grid N n" and ij: "i < n" "j < n"
  have "of_nat i * N + of_nat j = (of_nat (i * n + j) :: ee_u32)"
    using g by (simp add: grid_def)
  moreover have "i * n + j < 2 ^ 32"
    using cell_less[OF ij] g unfolding grid_def by linarith
  ultimately show ?thesis by (simp only: cell_def unat_of_nat_32)
qed

lemma for_grid:
  assumes "grid N n" "\<And>i j s. i < n \<Longrightarrow> j < n \<Longrightarrow> f i j s = F (i * n + j) s"
  shows "for_count (\<lambda>i. for_count (f i) 0 (unat N)) 0 (unat N) s = for_count F 0 (n * n) s"
proof -
  have n: "unat N = n" using assms(1) by (simp add: grid_def)
  have "for_count (\<lambda>i. for_count (f i) 0 n) 0 n s = for_count (\<lambda>i. for_count (\<lambda>j. F (i * n + j)) 0 n) 0 n s"
    by (intro for_count_cong) (simp add: assms(2))
  then show ?thesis using for_count_nest[of F n 0 n s] by (simp add: n)
qed

lemma row_col:
  "i < n \<Longrightarrow> j < n \<Longrightarrow> (i * n + j) div n = i \<and> (i * n + j) mod n = (j::nat)"
  by (cases "n = 0") simp_all

section \<open>The operations as expressions\<close>

lemma matrix_add_const_result:
  assumes "grid N n" "n * n \<le> length A"
  shows "matrix_add_const N A val = Some (map (\<lambda>a. a + val) (take (n * n) A) @ drop (n * n) A)"
proof -
  have "matrix_add_const N A val = for_count (\<lambda>k A. do { a \<leftarrow> rd A k; wr A k (a + val) }) 0 (n * n) A"
    unfolding matrix_add_const_def
    by (rule for_grid[OF assms(1)]) (simp add: cell_eq[OF assms(1)])
  also have "\<dots> = Some (map (\<lambda>k. A ! k + val) [0..<n * n] @ drop (n * n) A)"
    by (rule for_count_map[where g = "\<lambda>_ a. a + val", OF assms(2)]) (use assms(2) in simp)
  also have "map (\<lambda>k. A ! k + val) [0..<n * n] = map (\<lambda>a. a + val) (take (n * n) A)"
    using assms(2) by (intro nth_equalityI) auto
  finally show ?thesis .
qed

lemma matrix_mul_const_result:
  assumes "grid N n" "n * n \<le> length A" "n * n \<le> length C"
  shows "matrix_mul_const N C A val
    = Some (map (\<lambda>k. scast (A ! k) * scast val) [0..<n * n] @ drop (n * n) C)"
proof -
  have "matrix_mul_const N C A val
      = for_count (\<lambda>k C. do { a \<leftarrow> rd A k; wr C k (scast a * scast val) }) 0 (n * n) C"
    unfolding matrix_mul_const_def
    by (rule for_grid[OF assms(1)]) (simp add: cell_eq[OF assms(1)])
  also have "\<dots> = Some (map (\<lambda>k. scast (A ! k) * scast val) [0..<n * n] @ drop (n * n) C)"
    by (rule for_count_map[where g = "\<lambda>k _. scast (A ! k) * scast val", OF assms(3)])
      (use assms in simp)
  finally show ?thesis .
qed

definition vect_entry :: "nat \<Rightarrow> matdat list \<Rightarrow> matdat list \<Rightarrow> nat \<Rightarrow> matres" where
  "vect_entry n A B i = (\<Sum>j<n. scast (A ! (i * n + j)) * scast (B ! j))"

definition prod_entry :: "nat \<Rightarrow> matdat list \<Rightarrow> matdat list \<Rightarrow> nat \<Rightarrow> nat \<Rightarrow> matres" where
  "prod_entry n A B i j = (\<Sum>k<n. scast (A ! (i * n + k)) * scast (B ! (k * n + j)))"

definition bit_entry :: "nat \<Rightarrow> matdat list \<Rightarrow> matdat list \<Rightarrow> nat \<Rightarrow> nat \<Rightarrow> matres" where
  "bit_entry n A B i j =
     (\<Sum>k<n. let p = scast (A ! (i * n + k)) * scast (B ! (k * n + j))
            in bit_extract p 2 4 * bit_extract p 5 7)"

lemma n_le_square: "(n::nat) \<le> n * n"
  by (cases n) simp_all

lemma matrix_mul_vect_result:
  assumes "grid N n" "n * n \<le> length A" "n \<le> length B" "n \<le> length C"
  shows "matrix_mul_vect N C A B = Some (map (vect_entry n A B) [0..<n] @ drop n C)"
proof -
  have n: "unat N = n" using assms(1) by (simp add: grid_def)
  have body: "(do {
         C' \<leftarrow> wr m i 0;
         for_count (\<lambda>j C. do {
           a \<leftarrow> rd A (cell N i j); b \<leftarrow> rd B j; c \<leftarrow> rd C i;
           wr C i (c + scast a * scast b) }) 0 n C' }) = Some (m[i := vect_entry n A B i])"
    if i: "i < n" and m: "length m = length C" for i and m :: "matres list"
  proof -
    have lt: "i < length m" using i m assms(4) by simp
    have "for_count (\<lambda>j C. do {
           a \<leftarrow> rd A (cell N i j); b \<leftarrow> rd B j; c \<leftarrow> rd C i;
           wr C i (c + scast a * scast b) }) 0 n (m[i := 0])
        = Some ((m[i := 0])[i := m[i := 0] ! i + (\<Sum>j<n. scast (A ! (i * n + j)) * scast (B ! j))])"
    proof (rule for_count_accum)
      fix j and m' :: "matres list"
      assume j: "j < n" and len: "length m' = length (m[i := 0])"
      have "i * n + j < length A" using cell_less[OF i j] assms(2) by linarith
      moreover have "j < length B" "i < length m'" using j assms(3) len lt by simp_all
      ultimately show "(do {
           a \<leftarrow> rd A (cell N i j); b \<leftarrow> rd B j; c \<leftarrow> rd m' i;
           wr m' i (c + scast a * scast b) })
          = Some (m'[i := m' ! i + scast (A ! (i * n + j)) * scast (B ! j)])"
        using cell_eq[OF assms(1) i j] by simp
    qed (use lt in simp)
    then show ?thesis using lt by (simp add: vect_entry_def)
  qed
  show ?thesis
    unfolding matrix_mul_vect_def n
    by (rule for_count_map[where g = "\<lambda>i _. vect_entry n A B i", OF assms(4)]) (rule body)
qed

text \<open>The two product loops share their shape: a cell is cleared and then accumulates.\<close>

lemma product_loop:
  assumes "grid N n" "n * n \<le> length A" "n * n \<le> length B" "n * n \<le> length C"
  shows "for_count (\<lambda>i. for_count (\<lambda>j C. do {
         C' \<leftarrow> wr C (cell N i j) 0;
         for_count (\<lambda>k C. do {
           a \<leftarrow> rd A (cell N i k);
           b \<leftarrow> rd B (cell N k j);
           c \<leftarrow> rd C (cell N i j);
           wr C (cell N i j) (c + h a b)
         }) 0 (unat N) C'
       }) 0 (unat N)) 0 (unat N) C
    = Some (map (\<lambda>c. \<Sum>k<n. h (A ! (c div n * n + k)) (B ! (k * n + c mod n))) [0..<n * n]
        @ drop (n * n) (C :: matres list))"
    (is "for_count ?body 0 (unat N) C = _")
proof -
  define F where "F = (\<lambda>c C. do {
         C' \<leftarrow> wr C c (0 :: matres);
         for_count (\<lambda>k C. do {
           a \<leftarrow> rd A (c div n * n + k);
           b \<leftarrow> rd B (k * n + c mod n);
           x \<leftarrow> rd C c;
           wr C c (x + h a b)
         }) 0 n C' })"
  have n: "unat N = n" using assms(1) by (simp add: grid_def)
  have "for_count ?body 0 (unat N) C = for_count F 0 (n * n) C"
  proof (rule for_grid[OF assms(1)])
    fix i j s assume ij: "i < n" "j < n"
    have rc: "(i * n + j) div n = i" "(i * n + j) mod n = j" using row_col[OF ij] by simp_all
    show "(do {
         C' \<leftarrow> wr s (cell N i j) 0;
         for_count (\<lambda>k C. do {
           a \<leftarrow> rd A (cell N i k);
           b \<leftarrow> rd B (cell N k j);
           c \<leftarrow> rd C (cell N i j);
           wr C (cell N i j) (c + h a b)
         }) 0 (unat N) C' }) = F (i * n + j) s"
      unfolding F_def n cell_eq[OF assms(1) ij] rc
      by (intro Option.bind_cong refl for_count_cong) (use ij in \<open>simp_all add: cell_eq[OF assms(1)]\<close>)
  qed
  also have "\<dots> = Some (map (\<lambda>c. \<Sum>k<n. h (A ! (c div n * n + k)) (B ! (k * n + c mod n))) [0..<n * n]
      @ drop (n * n) C)"
  proof (rule for_count_map[OF assms(4)])
    fix c and m :: "matres list" assume c: "c < n * n" and m: "length m = length C"
    have cl: "c < length m" using c m assms(4) by simp
    have dm: "c div n < n" "c mod n < n"
      using c by (auto simp: less_mult_imp_div_less) (metis c mod_less_divisor mult_eq_0_iff neq0_conv not_less0)
    have "for_count (\<lambda>k C. do {
           a \<leftarrow> rd A (c div n * n + k);
           b \<leftarrow> rd B (k * n + c mod n);
           x \<leftarrow> rd C c;
           wr C c (x + h a b)
         }) 0 n (m[c := 0])
      = Some ((m[c := 0])[c := m[c := 0] ! c
          + (\<Sum>k<n. h (A ! (c div n * n + k)) (B ! (k * n + c mod n)))])"
    proof (rule for_count_accum)
      fix k and m' :: "matres list"
      assume k: "k < n" and len: "length m' = length (m[c := 0])"
      have "c div n * n + k < length A" "k * n + c mod n < length B"
        using cell_less[OF dm(1) k] cell_less[OF k dm(2)] assms(2,3) by linarith+
      then show "(do {
           a \<leftarrow> rd A (c div n * n + k);
           b \<leftarrow> rd B (k * n + c mod n);
           x \<leftarrow> rd m' c;
           wr m' c (x + h a b)
         }) = Some (m'[c := m' ! c + h (A ! (c div n * n + k)) (B ! (k * n + c mod n))])"
        using len cl by simp
    qed (use cl in simp)
    then show "F c m = Some (m[c := \<Sum>k<n. h (A ! (c div n * n + k)) (B ! (k * n + c mod n))])"
      using cl by (simp add: F_def)
  qed
  finally show ?thesis .
qed

lemma matrix_mul_matrix_result:
  assumes "grid N n" "n * n \<le> length A" "n * n \<le> length B" "n * n \<le> length C"
  shows "matrix_mul_matrix N C A B
    = Some (map (\<lambda>c. prod_entry n A B (c div n) (c mod n)) [0..<n * n] @ drop (n * n) C)"
  using product_loop[OF assms, of "\<lambda>a b. scast a * scast b"]
  by (simp add: matrix_mul_matrix_def prod_entry_def)

lemma matrix_mul_matrix_bitextract_result:
  assumes "grid N n" "n * n \<le> length A" "n * n \<le> length B" "n * n \<le> length C"
  shows "matrix_mul_matrix_bitextract N C A B
    = Some (map (\<lambda>c. bit_entry n A B (c div n) (c mod n)) [0..<n * n] @ drop (n * n) C)"
  using product_loop[OF assms, of "\<lambda>a b. let p = scast a * scast b in bit_extract p 2 4 * bit_extract p 5 7"]
  by (simp add: matrix_mul_matrix_bitextract_def bit_entry_def Let_def)

lemma matrix_sum_result:
  assumes "grid N n" "n * n \<le> length C"
  shows "matrix_sum N C clipval
    = Some (snd (snd (foldl (\<lambda>s c. matrix_sum_step clipval c s) (0, 0, 0) (take (n * n) C))))"
proof -
  have "for_count (\<lambda>i. for_count (\<lambda>j s. do {
             c \<leftarrow> rd C (cell N i j); Some (matrix_sum_step clipval c s) }) 0 (unat N)) 0 (unat N) (0, 0, 0)
      = for_count (\<lambda>k s. do { c \<leftarrow> rd C k; Some (matrix_sum_step clipval c s) }) 0 (n * n) (0, 0, 0)"
    by (rule for_grid[OF assms(1)]) (simp add: cell_eq[OF assms(1)])
  moreover have "\<exists>s'. for_count (\<lambda>k s. do { c \<leftarrow> rd C k; Some (matrix_sum_step clipval c s) }) 0 (n * n) (0, 0, 0)
      = Some s' \<and> s' = foldl (\<lambda>s c. matrix_sum_step clipval c s) (0, 0, 0) (take (0 + n * n) C)"
    by (rule for_count_rule[where P = "\<lambda>i s. s = foldl (\<lambda>s c. matrix_sum_step clipval c s) (0, 0, 0) (take i C)"])
      (use assms(2) in \<open>auto simp: take_Suc_conv_app_nth\<close>)
  ultimately show ?thesis by (auto simp: matrix_sum_def case_prod_beta)
qed

section \<open>The benchmark\<close>

definition fits :: "nat \<Rightarrow> matrices \<Rightarrow> bool" where
  "fits n m \<longleftrightarrow> n * n \<le> length (mat_A m) \<and> n * n \<le> length (mat_B m) \<and> n * n \<le> length (mat_C m)"

lemma matrix_test_result:
  assumes g: "grid N n" and f: "fits n m"
  shows "\<exists>crc C'. matrix_test N m val = Some (crc, m\<lparr>mat_C := C'\<rparr>) \<and> length C' = length (mat_C m)"
proof -
  define A1 where "A1 = map (\<lambda>a. a + val) (take (n * n) (mat_A m)) @ drop (n * n) (mat_A m)"
  define C1 where "C1 = map (\<lambda>k. scast (A1 ! k) * scast val) [0..<n * n] @ drop (n * n) (mat_C m)"
  define C2 where "C2 = map (vect_entry n A1 (mat_B m)) [0..<n] @ drop n C1"
  define C3 where "C3 = map (\<lambda>c. prod_entry n A1 (mat_B m) (c div n) (c mod n)) [0..<n * n] @ drop (n * n) C2"
  define C4 where "C4 = map (\<lambda>c. bit_entry n A1 (mat_B m) (c div n) (c mod n)) [0..<n * n] @ drop (n * n) C3"
  have nC: "n \<le> length (mat_C m)" by (rule le_trans[OF n_le_square]) (use f in \<open>simp add: fits_def\<close>)
  have nB: "n \<le> length (mat_B m)" by (rule le_trans[OF n_le_square]) (use f in \<open>simp add: fits_def\<close>)
  have len: "length A1 = length (mat_A m)" "length C1 = length (mat_C m)" "length C2 = length C1"
    "length C3 = length C2" "length C4 = length C3"
    using f nC by (auto simp: A1_def C1_def C2_def C3_def C4_def fits_def)
  have b: "n * n \<le> length (mat_A m)" "n * n \<le> length (mat_B m)" "n * n \<le> length (mat_C m)"
    "n * n \<le> length A1" "n * n \<le> length C1" "n * n \<le> length C2" "n * n \<le> length C3" "n * n \<le> length C4"
    "n \<le> length (mat_B m)" "n \<le> length C1"
    using f len nB nC by (auto simp: fits_def)
  have undo: "map (\<lambda>a. a + - val) (take (n * n) A1) @ drop (n * n) A1 = mat_A m"
    using b(1) by (simp add: A1_def comp_def)
  have "matrix_add_const N (mat_A m) val = Some A1" "matrix_add_const N A1 (- val) = Some (mat_A m)"
    "matrix_mul_const N (mat_C m) A1 val = Some C1"
    "matrix_mul_vect N C1 A1 (mat_B m) = Some C2"
    "matrix_mul_matrix N C2 A1 (mat_B m) = Some C3"
    "matrix_mul_matrix_bitextract N C3 A1 (mat_B m) = Some C4"
    unfolding undo [symmetric] using b
    by (simp_all only: matrix_add_const_result[OF g] matrix_mul_const_result[OF g]
        matrix_mul_vect_result[OF g] matrix_mul_matrix_result[OF g]
        matrix_mul_matrix_bitextract_result[OF g] A1_def [symmetric] C1_def C2_def C3_def C4_def undo)
  then have "\<exists>crc. matrix_test N m val = Some (crc, m\<lparr>mat_A := mat_A m, mat_C := C4\<rparr>)"
    using b by (simp add: matrix_test_def matrix_sum_result[OF g] Let_def)
  then show ?thesis using len by auto
qed

section \<open>Integer values\<close>

lemma sint_bounds_16: "- 32768 \<le> sint (a :: 16 word)" "sint a \<le> 32767"
  using sint_greater_eq[of a] sint_lt[of a] by simp_all

lemma scast_16_32: "(scast (a :: 16 word) :: 32 word) = word_of_int (sint a)"
  by simp

lemma sint_of_int_32: "- (2 ^ 31) \<le> x \<Longrightarrow> x < 2 ^ 31 \<Longrightarrow> sint (word_of_int x :: 32 word) = x"
  by (simp add: signed_of_int signed_take_bit_int_eq_self)

text \<open>A sum of products of 16-bit elements, as words and as integers.\<close>

lemma prod_entry_int:
  "prod_entry n A B i j = word_of_int (\<Sum>k<n. sint (A ! (i * n + k)) * sint (B ! (k * n + j)))"
  unfolding prod_entry_def by (induction n) simp_all

section \<open>The dimension\<close>

lemma dim_loop_result:
  assumes "unat blksize \<le> 2 ^ 31" "8 * (k * k) \<le> 2 ^ 31 + 262152"
    "\<forall>l < k. 8 * (l * l) < unat blksize"
  shows "\<exists>m. dim_loop blksize (of_nat k) (of_nat (8 * (k * k))) = Some (of_nat m) \<and> m \<le> 16384 + 1
    \<and> unat blksize \<le> 8 * (m * m) \<and> (\<forall>l < m. 8 * (l * l) < unat blksize)"
  using assms(2,3)
proof (induction "unat blksize - 8 * (k * k)" arbitrary: k rule: less_induct)
  case less
  have j: "unat (of_nat (8 * (k * k)) :: ee_u32) = 8 * (k * k)"
    using less.prems(1) by (intro unat_of_nat_32) simp
  show ?case
  proof (cases "8 * (k * k) < unat blksize")
    case False
    have "\<not> (of_nat (8 * (k * k)) :: ee_u32) < blksize" using False j by (simp add: word_less_nat_alt)
    then have stop: "dim_loop blksize (of_nat k) (of_nat (8 * (k * k))) = Some (of_nat k)"
      by (subst dim_loop.simps) simp
    have "k \<le> 16385"
    proof (rule ccontr)
      assume "\<not> k \<le> 16385"
      then have "16386 * 16386 \<le> k * k" by (intro mult_le_mono) simp_all
      then show False using less.prems(1) by simp
    qed
    with stop False less.prems show ?thesis by (intro exI[of _ k]) auto
  next
    case True
    have "(of_nat (8 * (k * k)) :: ee_u32) < blksize" using True j by (simp add: word_less_nat_alt)
    moreover have "(of_nat k + 1) * (of_nat k + 1) * 2 * 4 = (of_nat (8 * (Suc k * Suc k)) :: ee_u32)"
      by (simp add: algebra_simps)
    ultimately have step: "dim_loop blksize (of_nat k) (of_nat (8 * (k * k)))
        = dim_loop blksize (of_nat (Suc k)) (of_nat (8 * (Suc k * Suc k)))"
      by (subst dim_loop.simps) (simp add: add.commute)
    have "k \<le> 16383"
    proof (rule ccontr)
      assume "\<not> k \<le> 16383"
      then have "16384 * 16384 \<le> k * k" by (intro mult_le_mono) simp_all
      then show False using True assms(1) by simp
    qed
    then have "Suc k * Suc k \<le> 16384 * 16384" by (intro mult_le_mono) simp_all
    then have bound: "8 * (Suc k * Suc k) \<le> 2 ^ 31 + 262152" by simp
    have "\<forall>l < Suc k. 8 * (l * l) < unat blksize" using less.prems(2) True less_Suc_eq by auto
    moreover have "unat blksize - 8 * (Suc k * Suc k) < unat blksize - 8 * (k * k)"
      using True by simp
    ultimately show ?thesis unfolding step using less.hyps[of "Suc k"] bound by blast
  qed
qed

lemma dimension:
  assumes "1 \<le> unat blksize" "unat blksize \<le> 2 ^ 31"
  shows "\<exists>n. dim_loop blksize 0 0 = Some (of_nat (Suc n)) \<and> n \<le> 16384
    \<and> 8 * (n * n) < unat blksize \<and> unat blksize \<le> 8 * (Suc n * Suc n)"
proof -
  obtain m where m: "dim_loop blksize 0 0 = Some (of_nat m)" "m \<le> 16385"
    "unat blksize \<le> 8 * (m * m)" "\<forall>l < m. 8 * (l * l) < unat blksize"
    using dim_loop_result[of blksize 0] assms by auto
  have "m \<noteq> 0" using m(3) assms(1) by (cases m) auto
  then obtain n where "m = Suc n" by (cases m) auto
  with m show ?thesis by (intro exI[of _ n]) auto
qed

lemma dimension_grid:
  "n \<le> 16384 \<Longrightarrow> grid (of_nat (Suc n) - 1) n \<and> of_nat (Suc n) - 1 = (of_nat n :: ee_u32)"
proof -
  assume n: "n \<le> 16384"
  then have "n * n \<le> 16384 * 16384" by (intro mult_le_mono)
  then show ?thesis using n by (simp add: grid_def unat_of_nat_32)
qed

section \<open>The initial values\<close>

text \<open>The seed before the cell \<open>k\<close>, the order being \<open>k + 1\<close>.\<close>

primrec seed_at :: "ee_s32 \<Rightarrow> nat \<Rightarrow> ee_s32" where
  "seed_at s 0 = s"
| "seed_at s (Suc k) = c_rem (of_nat (Suc k) * seed_at s k) 65536"

definition init_B :: "ee_s32 \<Rightarrow> nat \<Rightarrow> matdat" where
  "init_B s k = ucast (seed_at s (Suc k) + of_nat (Suc k))"

definition init_A :: "ee_s32 \<Rightarrow> nat \<Rightarrow> matdat" where
  "init_A s k = (init_B s k + of_nat (Suc k)) AND 0xff"

lemma ucast_add_32_16: "(ucast (x + y :: 32 word) :: 16 word) = ucast x + ucast y"
proof -
  have "(ucast (x + y) :: 16 word) = word_of_int (uint (x + y))" by simp
  also have "uint (x + y) = take_bit 32 (uint x + uint y)"
    by (simp add: uint_word_ariths take_bit_eq_mod)
  also have "(word_of_int (take_bit 32 (uint x + uint y)) :: 16 word) = word_of_int (uint x + uint y)"
    by (rule word_of_int_eq_iff [THEN iffD2]) simp
  also have "\<dots> = ucast x + ucast y" by simp
  finally show ?thesis .
qed

lemma ucast_of_nat_32_16: "(ucast (of_nat k :: 32 word) :: 16 word) = of_nat k"
  by (induction k) (simp_all add: ucast_add_32_16)

lemma ucast_scast_16: "(ucast (scast v :: 32 word) :: 16 word) = v"
  by (rule word16_eqI) (simp add: all_less_16 bit_simps)

lemma and_mask_16: "v AND 0xffff = (v :: 16 word)"
  by (rule word16_eqI) (simp add: all_less_16 bit_simps)

lemma init_cell_eq:
  "init_cell (of_nat (Suc k)) (seed_at s k) = (seed_at s (Suc k), init_B s k, init_A s k)"
proof -
  define k1 where "k1 = (of_nat (Suc k) :: ee_s32)"
  have "ucast k1 = (of_nat (Suc k) :: matdat)" unfolding k1_def by (rule ucast_of_nat_32_16)
  then show ?thesis
    unfolding k1_def [symmetric] init_cell_def init_A_def init_B_def seed_at.simps matrix_clip_def Let_def
    by (simp only: if_True if_False prod.case ucast_add_32_16 ucast_scast_16 and_mask_16)
qed

lemma init_fill:
  assumes g: "grid N n" and len: "n * n \<le> length A0" "n * n \<le> length B0"
  shows "for_count (\<lambda>i. for_count (\<lambda>j (order, seed, mA, mB). do {
              let (seed1, valB, valA) = init_cell order seed;
              mB' \<leftarrow> wr mB (cell N i j) valB;
              mA' \<leftarrow> wr mA (cell N i j) valA;
              Some (order + 1, seed1, mA', mB')
            }) 0 (unat N)) 0 (unat N) (1, s, A0, B0)
    = Some (of_nat (Suc (n * n)), seed_at s (n * n),
        map (init_A s) [0..<n * n] @ drop (n * n) A0, map (init_B s) [0..<n * n] @ drop (n * n) B0)"
    (is "for_count ?body _ _ _ = _")
proof -
  define F where "F = (\<lambda>k (order, seed, mA, mB). do {
              let (seed1, valB, valA) = init_cell order seed;
              mB' \<leftarrow> wr mB k valB;
              mA' \<leftarrow> wr mA k valA;
              Some (order + 1, seed1, mA', mB')
            })"
  define P where "P = (\<lambda>k st. st = (of_nat (Suc k) :: ee_s32, seed_at s k,
        map (init_A s) [0..<k] @ drop k A0, map (init_B s) [0..<k] @ drop k B0))"
  have "for_count ?body 0 (unat N) (1, s, A0, B0) = for_count F 0 (n * n) (1, s, A0, B0)"
    by (rule for_grid[OF g]) (simp add: F_def cell_eq[OF g])
  moreover have "\<exists>st. for_count F 0 (n * n) (1, s, A0, B0) = Some st \<and> P (0 + n * n) st"
  proof (rule for_count_rule)
    fix k st assume k: "0 \<le> k" "k < 0 + n * n" and st: "P k st"
    have lt: "k < length A0" "k < length B0" using k len by simp_all
    have d: "drop k A0 = A0 ! k # drop (Suc k) A0" "drop k B0 = B0 ! k # drop (Suc k) B0"
      using lt by (simp_all add: Cons_nth_drop_Suc)
    show "\<exists>st'. F k st = Some st' \<and> P (Suc k) st'"
      using st lt init_cell_eq[of k s]
      by (simp add: F_def P_def d list_update_append add.commute)
  qed (simp add: P_def)
  ultimately show ?thesis by (simp add: P_def)
qed

lemma core_init_matrix_result:
  assumes "1 \<le> unat blksize" "unat blksize \<le> 2 ^ 31"
    "unat blksize \<le> length (mat_A m)" "unat blksize \<le> length (mat_B m)"
  shows "\<exists>n p. 8 * (n * n) < unat blksize \<and> unat blksize \<le> 8 * (Suc n * Suc n)
    \<and> core_init_matrix blksize memblk seed m = Some (of_nat n, p, m\<lparr>
        mat_A := map (init_A (if seed = 0 then 1 else seed)) [0..<n * n] @ drop (n * n) (mat_A m),
        mat_B := map (init_B (if seed = 0 then 1 else seed)) [0..<n * n] @ drop (n * n) (mat_B m)\<rparr>)
    \<and> p_N p = of_nat n \<and> p_A p = align_mem memblk \<and> p_B p = p_A p + 2 * of_nat (n * n)
    \<and> p_C p = align_mem (p_B p + 2 * of_nat (n * n))"
proof -
  obtain n where n: "dim_loop blksize 0 0 = Some (of_nat (Suc n))" "n \<le> 16384"
    "8 * (n * n) < unat blksize" "unat blksize \<le> 8 * (Suc n * Suc n)"
    using dimension[OF assms(1,2)] by auto
  have g: "grid (of_nat n) n" using dimension_grid[OF n(2)] by simp
  have len: "n * n \<le> length (mat_A m)" "n * n \<le> length (mat_B m)" using n(3) assms(3,4) by linarith+
  show ?thesis
    using n init_fill[OF g len, of "if seed = 0 then 1 else seed"]
    by (intro exI[of _ n])
      (simp add: core_init_matrix_def Let_def del: of_nat_Suc add: of_nat_Suc [of n])
qed

section \<open>The layout of the block\<close>

lemma and_not_3: "unat (x AND NOT 3 :: ee_u32) = 4 * (unat x div 4)"
proof -
  have ux: "unat x < 2 ^ LENGTH(32)" by (rule unsigned_less)
  have m: "(3 :: ee_u32) = mask 2" by (simp add: mask_eq_exp_minus_1)
  have "x AND NOT 3 = push_bit 2 (drop_bit 2 x)"
  proof (rule bit_word_eqI)
    fix k assume "k < LENGTH(32)"
    have "Suc (Suc (k - 2)) = k" if "2 \<le> k" using that by simp
    then show "bit (x AND NOT 3) k = bit (push_bit 2 (drop_bit 2 x)) k"
      unfolding m using \<open>k < LENGTH(32)\<close> by (auto simp: bit_simps not_less)
  qed
  also have "unat \<dots> = take_bit 32 (unat x div 4 * 4)"
    by (simp only: unsigned_push_bit_eq unsigned_drop_bit_eq)
      (use ux in \<open>simp add: push_bit_eq_mult drop_bit_eq_div take_bit_nat_eq_self\<close>)
  also have "\<dots> = unat x div 4 * 4"
  proof -
    have "unat x div 4 * 4 \<le> unat x" by simp
    also note ux
    finally show ?thesis by (simp add: take_bit_nat_eq_self)
  qed
  finally show ?thesis by simp
qed

lemma align_mem_value:
  assumes "1 \<le> unat x" "unat x \<le> 2 ^ 32 - 4"
  shows "unat (align_mem x) = 4 * ((unat x + 3) div 4)"
proof -
  have "1 \<le> x" using assms(1) by (simp add: word_le_nat_alt)
  then have x1: "unat (x - 1) = unat x - 1" by (simp add: unat_sub)
  have e: "(unat x + 3) div 4 = Suc ((unat x - 1) div 4)" using assms(1) by linarith
  have "4 * ((unat x - 1) div 4) \<le> unat x - 1" by simp
  then have "4 + 4 * ((unat x - 1) div 4) < 2 ^ 32" using assms by linarith
  moreover define y where "y = (x - 1) AND NOT 3"
  moreover have "unat y = 4 * ((unat x - 1) div 4)"
    unfolding y_def by (simp only: and_not_3 x1)
  moreover have "unat (4 + y) = (4 + unat y) mod 2 ^ 32" by (simp add: unat_word_ariths)
  ultimately have "unat (align_mem x) = 4 + 4 * ((unat x - 1) div 4)"
    unfolding align_mem_def y_def [symmetric] by simp
  then show ?thesis using e by simp
qed

section \<open>The seed fades out\<close>

lemma sint_word_mod:
  assumes "k \<le> 32"
  shows "sint (word_of_int x :: 32 word) mod 2 ^ k = x mod 2 ^ k"
proof -
  have "sint (word_of_int x :: 32 word) = signed_take_bit 31 x" by (simp add: signed_of_int)
  moreover have "take_bit k (signed_take_bit 31 x) = take_bit k x"
    using assms by (simp add: take_bit_signed_take_bit)
  ultimately show ?thesis by (simp add: take_bit_eq_mod)
qed

lemma c_rem_value:
  "sint (c_rem a 65536) mod 65536 = sint a mod 65536 \<and> \<bar>sint (c_rem a 65536)\<bar> < 65536"
proof -
  define x where "x = sgn (sint a) * (\<bar>sint a\<bar> mod 65536)"
  have r: "0 \<le> \<bar>sint a\<bar> mod 65536" "\<bar>sint a\<bar> mod 65536 < 65536" by simp_all
  have x: "\<bar>x\<bar> < 65536" using r by (simp add: x_def abs_mult abs_sgn_eq)
  then have "sint (word_of_int x :: 32 word) = x" by (intro sint_of_int_32) auto
  moreover have "x mod 65536 = sint a mod 65536"
  proof (cases "0 \<le> sint a")
    case True
    then show ?thesis by (cases "sint a = 0") (simp_all add: x_def)
  next
    case False
    then have "x = - ((- sint a) mod 65536)" by (simp add: x_def)
    then show ?thesis by (simp add: mod_minus_eq)
  qed
  ultimately show ?thesis using x by (simp add: c_rem_def x_def)
qed

lemma seed_at_fact: "sint (seed_at s k) mod 65536 = (sint s * fact k) mod 65536"
proof (induction k)
  case 0
  then show ?case by simp
next
  case (Suc k)
  have m: "sint (word_of_int y :: 32 word) mod 65536 = y mod 65536" for y
    using sint_word_mod[of 16 y] by simp
  have "sint (seed_at s (Suc k)) mod 65536 = sint (of_nat (Suc k) * seed_at s k) mod 65536"
    by (simp only: seed_at.simps c_rem_value)
  also have "of_nat (Suc k) * seed_at s k = word_of_int (int (Suc k) * sint (seed_at s k))"
    by simp
  also have "sint (word_of_int (int (Suc k) * sint (seed_at s k)) :: 32 word) mod 65536
      = (int (Suc k) * sint (seed_at s k)) mod 65536"
    by (rule m)
  also have "\<dots> = (int (Suc k) * (sint (seed_at s k) mod 65536)) mod 65536"
    by (simp only: mod_mult_right_eq)
  also have "\<dots> = (int (Suc k) * (sint s * fact k)) mod 65536"
    by (simp only: Suc.IH mod_mult_right_eq)
  also have "int (Suc k) * (sint s * fact k) = sint s * fact (Suc k)"
    by (simp add: algebra_simps)
  finally show ?case .
qed

lemma small_multiple: "x mod 65536 = 0 \<Longrightarrow> \<bar>x\<bar> < 65536 \<Longrightarrow> x = (0 :: int)"
  using dvd_imp_le_int[of x 65536] by (auto simp: dvd_eq_mod_eq_0)

lemma seed_at_18: "seed_at s 18 = 0"
proof -
  have e: "(18 :: nat) = Suc 17" by simp
  have s18: "seed_at s 18 = c_rem (of_nat (Suc 17) * seed_at s 17) 65536"
    by (subst e) (rule seed_at.simps(2))
  have "(fact 18 :: int) mod 65536 = 0" by (simp add: fact_numeral)
  then have "(sint s * fact 18) mod 65536 = (0 :: int)" by (metis mod_mult_right_eq mult_zero_right mod_0)
  then have "sint (seed_at s 18) mod 65536 = 0" by (simp only: seed_at_fact)
  moreover have "\<bar>sint (seed_at s 18)\<bar> < 65536"
    using c_rem_value[of "of_nat (Suc 17) * seed_at s 17"] by (subst s18) (rule conjunct2)
  ultimately have "sint (seed_at s 18) = 0" by (rule small_multiple)
  then show ?thesis by (rule signed_eq_0_iff [THEN iffD1])
qed

lemma seed_at_zero: "18 \<le> k \<Longrightarrow> seed_at s k = 0"
proof (induction k rule: nat_induct_at_least)
  case base
  then show ?case by (rule seed_at_18)
next
  case (Suc k)
  then show ?case by (simp add: c_rem_def)
qed

section \<open>Properties\<close>

lemma sum_abs_bound:
  fixes f :: "nat \<Rightarrow> int"
  assumes "\<forall>k < n. \<bar>f k\<bar> \<le> b"
  shows "\<bar>\<Sum>k<n. f k\<bar> \<le> int n * b"
proof -
  have "\<bar>\<Sum>k<n. f k\<bar> \<le> (\<Sum>k<n. \<bar>f k\<bar>)" by (rule sum_abs)
  also have "\<dots> \<le> (\<Sum>k<n. b)" using assms by (intro sum_mono) simp
  finally show ?thesis by simp
qed

text \<open>C15: \<open>matrix_mul_matrix\<close> computes the integer matrix product of the first \<open>N*N\<close> cells of
  \<open>A\<close> and \<open>B\<close> exactly, without wrap-around, whenever the magnitudes bound the sums below
  \<open>2^31\<close>; the rest of \<open>C\<close> is unchanged and no access leaves the regions.\<close>

theorem matrix_product_exact:
  assumes "grid N n" "n * n \<le> length A" "n * n \<le> length B" "n * n \<le> length C"
    "\<forall>x \<in> set A. \<bar>sint x\<bar> \<le> a" "\<forall>x \<in> set B. \<bar>sint x\<bar> \<le> b" "int n * (a * b) < 2 ^ 31"
  shows "\<exists>C'. matrix_mul_matrix N C A B = Some C' \<and> length C' = length C
    \<and> drop (n * n) C' = drop (n * n) C
    \<and> (\<forall>i < n. \<forall>j < n. sint (C' ! (i * n + j))
          = (\<Sum>k<n. sint (A ! (i * n + k)) * sint (B ! (k * n + j))))"
proof -
  let ?C = "map (\<lambda>c. prod_entry n A B (c div n) (c mod n)) [0..<n * n] @ drop (n * n) C"
  have entry: "sint (?C ! (i * n + j)) = (\<Sum>k<n. sint (A ! (i * n + k)) * sint (B ! (k * n + j)))"
    if ij: "i < n" "j < n" for i j
  proof -
    have el: "\<bar>sint (A ! (i * n + k)) * sint (B ! (k * n + j))\<bar> \<le> a * b" if k: "k < n" for k
    proof -
      have "i * n + k < length A" "k * n + j < length B"
        using cell_less[OF ij(1) k] cell_less[OF k ij(2)] assms(2,3) by linarith+
      then have "A ! (i * n + k) \<in> set A" "B ! (k * n + j) \<in> set B" by simp_all
      with assms(5,6) have "\<bar>sint (A ! (i * n + k))\<bar> \<le> a" "\<bar>sint (B ! (k * n + j))\<bar> \<le> b" by blast+
      then show ?thesis unfolding abs_mult by (intro mult_mono) auto
    qed
    then have "\<bar>\<Sum>k<n. sint (A ! (i * n + k)) * sint (B ! (k * n + j))\<bar> \<le> int n * (a * b)"
      by (intro sum_abs_bound) blast
    then have "sint (prod_entry n A B i j) = (\<Sum>k<n. sint (A ! (i * n + k)) * sint (B ! (k * n + j)))"
      unfolding prod_entry_int using assms(7) by (intro sint_of_int_32) linarith+
    moreover have "?C ! (i * n + j) = prod_entry n A B i j"
      using cell_less[OF ij] row_col[OF ij] by (simp add: nth_append)
    ultimately show ?thesis by simp
  qed
  have "matrix_mul_matrix N C A B = Some ?C" by (rule matrix_mul_matrix_result[OF assms(1-4)])
  moreover have "length ?C = length C" "drop (n * n) ?C = drop (n * n) C" using assms(4) by simp_all
  ultimately show ?thesis using entry by blast
qed

theorem matrix_product_exact_witness:
  "\<exists>C'. matrix_mul_matrix 2 [7, 7, 7, 7, 9] [1, - 2, 3, 4] [5, 6, - 7, 8] = Some C'
    \<and> length C' = length [7, 7, 7, 7, 9 :: matres]
    \<and> drop (2 * 2) C' = drop (2 * 2) [7, 7, 7, 7, 9]
    \<and> (\<forall>i < 2. \<forall>j < 2. sint (C' ! (i * 2 + j))
          = (\<Sum>k<2. sint ([1, - 2, 3, 4 :: matdat] ! (i * 2 + k)) * sint ([5, 6, - 7, 8 :: matdat] ! (k * 2 + j))))"
  by (rule matrix_product_exact[where a = 4 and b = 8]) (simp_all add: grid_def)

text \<open>The constant product, the vector product and the bit-extracting product leave in each
  cell the expression of the source over the cells they read, in 32-bit arithmetic, and change
  nothing else.\<close>

theorem matrix_operations_exact:
  assumes "grid N n" "n * n \<le> length A" "n * n \<le> length B" "n * n \<le> length C"
  shows "matrix_mul_const N C A val
      = Some (map (\<lambda>c. scast (A ! c) * scast val) [0..<n * n] @ drop (n * n) C)
    \<and> matrix_mul_vect N C A B = Some (map (vect_entry n A B) [0..<n] @ drop n C)
    \<and> matrix_mul_matrix_bitextract N C A B
      = Some (map (\<lambda>c. bit_entry n A B (c div n) (c mod n)) [0..<n * n] @ drop (n * n) C)"
  using matrix_mul_const_result[OF assms(1,2,4)] matrix_mul_matrix_bitextract_result[OF assms]
    matrix_mul_vect_result[OF assms(1,2) le_trans[OF n_le_square assms(3)] le_trans[OF n_le_square assms(4)]]
  by blast

theorem matrix_operations_exact_witness:
  "matrix_mul_const 2 [7, 7, 7, 7, 9] [1, - 2, 3, 4] 5
      = Some (map (\<lambda>c. scast ([1, - 2, 3, 4 :: matdat] ! c) * scast (5 :: matdat)) [0..<2 * 2]
          @ drop (2 * 2) [7, 7, 7, 7, 9])
    \<and> matrix_mul_vect 2 [7, 7, 7, 7, 9] [1, - 2, 3, 4] [5, 6, - 7, 8]
      = Some (map (vect_entry 2 [1, - 2, 3, 4] [5, 6, - 7, 8]) [0..<2] @ drop 2 [7, 7, 7, 7, 9])
    \<and> matrix_mul_matrix_bitextract 2 [7, 7, 7, 7, 9] [1, - 2, 3, 4] [5, 6, - 7, 8]
      = Some (map (\<lambda>c. bit_entry 2 [1, - 2, 3, 4] [5, 6, - 7, 8] (c div 2) (c mod 2)) [0..<2 * 2]
          @ drop (2 * 2) [7, 7, 7, 7, 9])"
  by (rule matrix_operations_exact) (simp_all add: grid_def)



text \<open>\<open>core_init_matrix\<close> picks the largest dimension \<open>n\<close> with \<open>8*n*n\<close> below the block size,
  fills the \<open>n*n\<close> cells of \<open>B\<close> and \<open>A\<close> with the values of the seed sequence, and nothing
  else.\<close>

theorem matrix_init_fills:
  assumes "1 \<le> unat blksize" "unat blksize \<le> 2 ^ 31"
    "unat blksize \<le> length (mat_A m)" "unat blksize \<le> length (mat_B m)"
  shows "\<exists>n p. 8 * (n * n) < unat blksize \<and> unat blksize \<le> 8 * (Suc n * Suc n)
    \<and> core_init_matrix blksize memblk seed m = Some (of_nat n, p, m\<lparr>
        mat_A := map (init_A (if seed = 0 then 1 else seed)) [0..<n * n] @ drop (n * n) (mat_A m),
        mat_B := map (init_B (if seed = 0 then 1 else seed)) [0..<n * n] @ drop (n * n) (mat_B m)\<rparr>)
    \<and> p_N p = of_nat n"
  using core_init_matrix_result[OF assms, of memblk seed] by blast

theorem matrix_init_fills_witness:
  "\<exists>n p. 8 * (n * n) < unat (9 :: ee_u32) \<and> unat (9 :: ee_u32) \<le> 8 * (Suc n * Suc n)
    \<and> core_init_matrix 9 64 0 \<lparr>mat_A = replicate 9 0, mat_B = replicate 9 0, mat_C = []\<rparr>
      = Some (of_nat n, p, \<lparr>mat_A = replicate 9 0, mat_B = replicate 9 0, mat_C = []\<rparr>\<lparr>
        mat_A := map (init_A (if (0 :: ee_s32) = 0 then 1 else 0)) [0..<n * n]
          @ drop (n * n) (mat_A \<lparr>mat_A = replicate 9 0, mat_B = replicate 9 0, mat_C = []\<rparr>),
        mat_B := map (init_B (if (0 :: ee_s32) = 0 then 1 else 0)) [0..<n * n]
          @ drop (n * n) (mat_B \<lparr>mat_A = replicate 9 0, mat_B = replicate 9 0, mat_C = []\<rparr>)\<rparr>)
    \<and> p_N p = of_nat n"
  by (rule matrix_init_fills) simp_all

lemma dim_unat:
  assumes "8 * (n * n) < unat (blksize :: ee_u32)" "unat blksize \<le> 2 ^ 31"
  shows "unat (of_nat n :: ee_u32) = n"
proof -
  have small: "k < 2 ^ 32" if "8 * k < unat blksize" for k :: nat
    using that assms(2) by simp
  have "n < 2 ^ 32" using n_le_square small[OF assms(1)] by (rule le_less_trans)
  then show ?thesis by (rule unat_of_nat_32)
qed

lemma of_nat_ucast_32_16: "ucast (of_nat k :: 32 word) = (of_nat k :: 16 word)"
  by (simp add: unsigned_of_nat word_of_nat_eq_iff)



text \<open>The seed of \<open>core_init_matrix\<close> only reaches the first seventeen cells: it is multiplied
  by the running order modulo \<open>2^16\<close>, which has absorbed every factor of two from the eighteenth
  cell on, so those cells hold values that no run-time input changes.\<close>

theorem matrix_seed_fades:
  assumes "core_init_matrix blksize memblk seed m = Some (N, p, m')"
    "1 \<le> unat blksize" "unat blksize \<le> 2 ^ 31"
    "unat blksize \<le> length (mat_A m)" "unat blksize \<le> length (mat_B m)"
    "17 \<le> k" "k < unat N * unat N"
  shows "mat_B m' ! k = of_nat (Suc k) \<and> mat_A m' ! k = (2 * of_nat (Suc k)) AND 0xff"
proof -
  have B: "init_B s k = of_nat (Suc k)" for s
  proof -
    have "seed_at s (Suc k) = 0" using assms(6) by (intro seed_at_zero) simp
    then show ?thesis unfolding init_B_def by (simp only: add_0_left of_nat_ucast_32_16)
  qed
  then have A: "init_A s k = (2 * of_nat (Suc k)) AND 0xff" for s
    by (simp only: init_A_def mult_2)
  obtain n where n: "8 * (n * n) < unat blksize" "N = of_nat n"
    "m' = m\<lparr>mat_A := map (init_A (if seed = 0 then 1 else seed)) [0..<n * n] @ drop (n * n) (mat_A m),
        mat_B := map (init_B (if seed = 0 then 1 else seed)) [0..<n * n] @ drop (n * n) (mat_B m)\<rparr>"
    using core_init_matrix_result[OF assms(2-5), of memblk seed] assms(1) by auto
  have "k < n * n" using assms(7) dim_unat[OF n(1) assms(3)] n(2) by simp
  then show ?thesis using A B n(3) by (simp add: nth_append del: of_nat_Suc)
qed

theorem matrix_seed_fades_witness:
  "\<exists>N p m'. core_init_matrix 288 64 5 \<lparr>mat_A = replicate 288 0, mat_B = replicate 288 0, mat_C = []\<rparr>
      = Some (N, p, m')
    \<and> mat_B m' ! 17 = of_nat (Suc 17) \<and> mat_A m' ! 17 = (2 * of_nat (Suc 17)) AND 0xff"
proof -
  let ?m = "\<lparr>mat_A = replicate 288 0, mat_B = replicate 288 0, mat_C = []\<rparr>"
  obtain n p m' where r: "core_init_matrix 288 64 5 ?m = Some (of_nat n, p, m')"
    and n: "8 * (n * n) < 288" "288 \<le> 8 * (Suc n * Suc n)"
    using core_init_matrix_result[of 288 ?m 64 5] by auto
  have "\<not> n \<le> 4" using n(2) mult_le_mono[of "Suc n" 5 "Suc n" 5] by linarith
  then have "5 * 5 \<le> n * n" by (intro mult_le_mono) simp_all
  moreover have "unat (of_nat n :: ee_u32) = n" using dim_unat[of n 288] n(1) by simp
  ultimately show ?thesis
    using r matrix_seed_fades[OF r, of 17] by simp
qed

end
