(* ===== verification/Core_List_Props.thy ===== *)
theory Core_List_Props
  imports Core_List_Sort Core_State_Props Core_Matrix_Props
begin

text \<open>
  The correctness of \<open>core_list_join.c\<close>: the two comparisons of the benchmark meet the
  interface of the sort, the link operations act on the cells of the list as the functions
  of the same name on HOL lists, and the benchmark puts the list back.
\<close>

section \<open>Sorting by index\<close>

lemma signed_diff_16: "sint (scast x - scast y :: ee_s32) = sint (x :: ee_s16) - sint (y :: ee_s16)"
proof -
  have "(scast x - scast y :: ee_s32) = word_of_int (sint x - sint y)"
    by simp
  moreover have "- (2 ^ 15) \<le> sint x" "sint x < 2 ^ 15" "- (2 ^ 15) \<le> sint y" "sint y < 2 ^ 15"
    using sint_greater_eq[of x] sint_less[of x] sint_greater_eq[of y] sint_less[of y] by simp_all
  ultimately show ?thesis using sint_of_int_32[of "sint x - sint y"] by simp
qed

lemma regen_regen [simp]: "regen (regen x) = regen x"
  by (rule word16_eqI) (simp add: all_less_16 regen_def bit_simps)

definition regen_item :: "list_data \<Rightarrow> list_data \<Rightarrow> bool" where
  "regen_item d d' \<longleftrightarrow> ld_idx d' = ld_idx d
     \<and> (ld_data16 d' = ld_data16 d \<or> ld_data16 d' = regen (ld_data16 d))"

definition idx_ext :: "core_results \<Rightarrow> core_results \<Rightarrow> bool" where
  "idx_ext w w' \<longleftrightarrow> w'\<lparr>heads := [], datas := []\<rparr> = w\<lparr>heads := [], datas := []\<rparr>
     \<and> list_all2 regen_item (datas w) (datas w')"

definition idx_le :: "core_results \<Rightarrow> nat \<Rightarrow> nat \<Rightarrow> bool" where
  "idx_le w a b \<longleftrightarrow> a < length (datas w) \<and> b < length (datas w)
     \<and> sint (ld_idx (datas w ! a)) \<le> sint (ld_idx (datas w ! b))
     \<and> regen (ld_data16 (datas w ! a)) = ld_data16 (datas w ! a)
     \<and> regen (ld_data16 (datas w ! b)) = ld_data16 (datas w ! b)"

lemma regen_item_refl [simp]: "regen_item d d"
  by (simp add: regen_item_def)

lemma regen_item_trans: "regen_item a b \<Longrightarrow> regen_item b c \<Longrightarrow> regen_item a c"
  by (auto simp: regen_item_def)

lemma regen_item_one: "regen_item d (d\<lparr>ld_data16 := regen (ld_data16 d)\<rparr>)"
  by (simp add: regen_item_def)

lemma set_data16_in [simp]:
  "i < length (datas w) \<Longrightarrow>
     set_data16 w i v = Some (w\<lparr>datas := (datas w)[i := (datas w ! i)\<lparr>ld_data16 := v\<rparr>]\<rparr>)"
  by (simp add: set_data16_def)

lemma list_all2_update:
  "(\<And>x. R x x) \<Longrightarrow> i < length xs \<Longrightarrow> R (xs ! i) y \<Longrightarrow> list_all2 R xs (xs[i := y])"
  by (auto simp: list_all2_conv_all_nth nth_list_update)

definition regen_at :: "nat \<Rightarrow> list_data list \<Rightarrow> list_data list" where
  "regen_at i ds = ds[i := (ds ! i)\<lparr>ld_data16 := regen (ld_data16 (ds ! i))\<rparr>]"

lemma regen_at_all2: "i < length ds \<Longrightarrow> list_all2 regen_item ds (regen_at i ds)"
  unfolding regen_at_def by (rule list_all2_update) (simp_all add: regen_item_one)

lemma cmp_idx_null_result:
  assumes "a < length (datas w)" "b < length (datas w)"
  shows "\<exists>ds. cmp_idx True a b w
      = Some (scast (ld_idx (datas w ! a)) - scast (ld_idx (datas w ! b)), w\<lparr>datas := ds\<rparr>)
    \<and> list_all2 regen_item (datas w) ds \<and> regen (ld_data16 (ds ! a)) = ld_data16 (ds ! a)
    \<and> regen (ld_data16 (ds ! b)) = ld_data16 (ds ! b)"
proof -
  let ?ds = "regen_at b (regen_at a (datas w))"
  have len: "length (regen_at i ds) = length ds" for i ds by (simp add: regen_at_def)
  have "cmp_idx True a b w
      = Some (scast (ld_idx (datas w ! a)) - scast (ld_idx (datas w ! b)), w\<lparr>datas := ?ds\<rparr>)"
    using assms by (simp add: cmp_idx_def regen_at_def nth_list_update)
  moreover have "list_all2 regen_item (datas w) ?ds"
    using list_all2_trans[OF regen_item_trans regen_at_all2 regen_at_all2] assms len by simp
  moreover have "regen (ld_data16 (?ds ! a)) = ld_data16 (?ds ! a)" "regen (ld_data16 (?ds ! b)) = ld_data16 (?ds ! b)"
    using assms by (auto simp: regen_at_def nth_list_update)
  ultimately show ?thesis by blast
qed

lemma idx_le_ext: "idx_ext w w' \<Longrightarrow> idx_le w a b \<Longrightarrow> idx_le w' a b"
  unfolding idx_ext_def idx_le_def list_all2_conv_all_nth regen_item_def
  by (elim conjE) (metis regen_regen)

lemma idx_ext_trans:
  assumes "idx_ext w w1" "idx_ext w1 w2"
  shows "idx_ext w w2"
proof -
  have "list_all2 regen_item (datas w) (datas w2)"
    using assms list_all2_trans[of regen_item regen_item regen_item] regen_item_trans
    unfolding idx_ext_def by blast
  then show ?thesis using assms by (simp only: idx_ext_def)
qed

interpretation by_idx: list_order "cmp_idx True" "\<lambda>w. length (datas w) = n" idx_ext n idx_le for n
proof
  fix w w1 w2 w' :: core_results and a b d :: nat and c :: ee_s32 and hs :: "list_head list"
  show "\<exists>c w'. cmp_idx True a b w = Some (c, w') \<and> heads w' = heads w \<and> length (datas w') = n \<and> idx_ext w w'"
    if "length (datas w) = n" "a < n" "b < n"
    using cmp_idx_null_result[of a w b] that by (fastforce simp: idx_ext_def dest: list_all2_lengthD)
  show "idx_ext w w" by (simp add: idx_ext_def list_all2_refl)
  show "idx_ext w w2" if "idx_ext w w1" "idx_ext w1 w2"
    using that by (rule idx_ext_trans)
  show "length (datas (w\<lparr>heads := hs\<rparr>)) = n \<longleftrightarrow> length (datas w) = n" by simp
  show "idx_ext w (w\<lparr>heads := hs\<rparr>)" by (simp add: idx_ext_def list_all2_refl)
  show "if sint c \<le> 0 then idx_le w' a b else idx_le w' b a"
    if h: "length (datas w) = n" "a < n" "b < n" "cmp_idx True a b w = Some (c, w')"
  proof -
    obtain ds where ds: "c = scast (ld_idx (datas w ! a)) - scast (ld_idx (datas w ! b))" "w' = w\<lparr>datas := ds\<rparr>"
      "list_all2 regen_item (datas w) ds" "regen (ld_data16 (ds ! a)) = ld_data16 (ds ! a)"
      "regen (ld_data16 (ds ! b)) = ld_data16 (ds ! b)"
      using cmp_idx_null_result[of a w b] h by auto
    have "length ds = n" "ld_idx (ds ! a) = ld_idx (datas w ! a)" "ld_idx (ds ! b) = ld_idx (datas w ! b)"
      using ds(3) h(1-3) by (auto simp: list_all2_conv_all_nth regen_item_def)
    then show ?thesis using ds h(2,3) by (simp add: idx_le_def signed_diff_16)
  qed
  show "idx_le w a d" if "idx_le w a b" "idx_le w b d" using that by (auto simp: idx_le_def)
  show "idx_le w' a b" if "idx_ext w w'" "idx_le w a b" using that by (rule idx_le_ext)
qed

section \<open>Sorting by computed value\<close>

text \<open>What the benchmark relies on when it computes a value: the matrices fit their regions, and
  the state block is terminated and survives its two corruption passes.\<close>

definition bench_ready :: "core_results \<Rightarrow> bool" where
  "bench_ready w \<longleftrightarrow> (\<exists>n. grid (p_N (r_mat w)) n \<and> fits n (mats w))
     \<and> terminated (r_size w) (state_mem w) \<and> ucast (r_seed1 w) = (ucast (r_seed2 w) :: ee_u8)
     \<and> (\<forall>c \<in> set (state_mem w). c XOR ucast (r_seed1 w) = 44 \<longrightarrow> c = 44)"

definition cached :: "list_data \<Rightarrow> bool" where
  "cached d \<longleftrightarrow> bit (ld_data16 d) 7"

definition cached_value :: "list_data \<Rightarrow> ee_s16" where
  "cached_value d = ld_data16 d AND 0x7f"

text \<open>An item is left alone, or gets its value cached over the backup of its data.\<close>

definition cache_item :: "list_data \<Rightarrow> list_data \<Rightarrow> bool" where
  "cache_item d d' \<longleftrightarrow> d' = d \<or> (\<not> cached d \<and> cached d' \<and> ld_idx d' = ld_idx d
     \<and> ld_data16 d' AND 0xff00 = ld_data16 d AND 0xff00)"

definition complex_ext :: "core_results \<Rightarrow> core_results \<Rightarrow> bool" where
  "complex_ext w w' \<longleftrightarrow>
     (\<exists>hs ds c cm cs C. w' = w\<lparr>heads := hs, datas := ds, r_crc := c, r_crcmatrix := cm, r_crcstate := cs,
         mats := (mats w)\<lparr>mat_C := C\<rparr>\<rparr>
       \<and> length C = length (mat_C (mats w)) \<and> list_all2 cache_item (datas w) ds)"

definition complex_le :: "core_results \<Rightarrow> nat \<Rightarrow> nat \<Rightarrow> bool" where
  "complex_le w a b \<longleftrightarrow> a < length (datas w) \<and> b < length (datas w)
     \<and> cached (datas w ! a) \<and> cached (datas w ! b)
     \<and> sint (cached_value (datas w ! a)) \<le> sint (cached_value (datas w ! b))"

lemma cache_item_refl [simp]: "cache_item d d"
  by (simp add: cache_item_def)

lemma cache_item_trans: "cache_item a b \<Longrightarrow> cache_item b c \<Longrightarrow> cache_item a c"
  by (auto simp: cache_item_def)

lemma cache_item_cached: "cache_item d d' \<Longrightarrow> cached d \<Longrightarrow> d' = d"
  by (auto simp: cache_item_def)

lemma complex_ext_intro:
  "length C = length (mat_C (mats w)) \<Longrightarrow> list_all2 cache_item (datas w) ds \<Longrightarrow>
   complex_ext w (w\<lparr>heads := hs, datas := ds, r_crc := c, r_crcmatrix := cm, r_crcstate := cs,
     mats := (mats w)\<lparr>mat_C := C\<rparr>\<rparr>)"
  unfolding complex_ext_def by blast

lemma complex_ext_fields:
  assumes "w'\<lparr>heads := [], datas := [], r_crc := 0, r_crcmatrix := 0, r_crcstate := 0, mats := mats w\<rparr>
      = w\<lparr>heads := [], datas := [], r_crc := 0, r_crcmatrix := 0, r_crcstate := 0\<rparr>"
    "mats w' = (mats w)\<lparr>mat_C := C\<rparr>" "length C = length (mat_C (mats w))"
    "list_all2 cache_item (datas w) (datas w')"
  shows "complex_ext w w'"
proof -
  have "w' = w\<lparr>heads := heads w', datas := datas w', r_crc := r_crc w', r_crcmatrix := r_crcmatrix w',
      r_crcstate := r_crcstate w', mats := (mats w)\<lparr>mat_C := C\<rparr>\<rparr>"
    using assms(1,2) by (cases w; cases w') simp
  then show ?thesis using complex_ext_intro[OF assms(3,4)] by metis
qed

lemma complex_ext_links: "complex_ext w (w\<lparr>heads := hs\<rparr>)"
  using complex_ext_intro[where w = w and hs = hs and ds = "datas w" and C = "mat_C (mats w)" and c = "r_crc w"
      and cm = "r_crcmatrix w" and cs = "r_crcstate w"]
  by (simp add: list_all2_refl)

lemma complex_ext_refl: "complex_ext w w"
  using complex_ext_links[of w "heads w"] by simp

lemma complex_ext_trans:
  assumes "complex_ext w w1" "complex_ext w1 w2"
  shows "complex_ext w w2"
proof -
  obtain hs1 ds1 c1 cm1 cs1 C1 where 1: "w1 = w\<lparr>heads := hs1, datas := ds1, r_crc := c1, r_crcmatrix := cm1,
      r_crcstate := cs1, mats := (mats w)\<lparr>mat_C := C1\<rparr>\<rparr>"
    "length C1 = length (mat_C (mats w))" "list_all2 cache_item (datas w) ds1"
    using assms(1) by (auto simp: complex_ext_def)
  obtain hs ds c cm cs C where 2: "w2 = w1\<lparr>heads := hs, datas := ds, r_crc := c, r_crcmatrix := cm,
      r_crcstate := cs, mats := (mats w1)\<lparr>mat_C := C\<rparr>\<rparr>"
    "length C = length (mat_C (mats w1))" "list_all2 cache_item (datas w1) ds"
    using assms(2) by (auto simp: complex_ext_def)
  have "list_all2 cache_item ds1 ds" using 2(3) 1(1) by simp
  with 1(3) have "list_all2 cache_item (datas w) ds"
    using list_all2_trans[of cache_item cache_item cache_item] cache_item_trans by blast
  then have "complex_ext w (w\<lparr>heads := hs, datas := ds, r_crc := c, r_crcmatrix := cm, r_crcstate := cs,
      mats := (mats w)\<lparr>mat_C := C\<rparr>\<rparr>)"
    using 1 2 by (intro complex_ext_intro) simp_all
  then show ?thesis using 1 2 by simp
qed

lemma complex_ext_ready: "complex_ext w w' \<Longrightarrow> bench_ready w' \<longleftrightarrow> bench_ready w"
  by (auto simp: complex_ext_def bench_ready_def fits_def)

lemma complex_ext_inputs:
  "complex_ext w w' \<Longrightarrow> r_list w' = r_list w \<and> r_seed1 w' = r_seed1 w \<and> r_seed2 w' = r_seed2 w
     \<and> r_seed3 w' = r_seed3 w \<and> r_size w' = r_size w \<and> r_iterations w' = r_iterations w
     \<and> r_execs w' = r_execs w \<and> r_mat w' = r_mat w \<and> state_mem w' = state_mem w \<and> r_err w' = r_err w"
  by (auto simp: complex_ext_def)

lemma complex_ext_items: "complex_ext w w' \<Longrightarrow> list_all2 cache_item (datas w) (datas w')"
  by (auto simp: complex_ext_def)

lemma complex_ext_length: "complex_ext w w' \<Longrightarrow> length (datas w') = length (datas w)"
  using complex_ext_items list_all2_lengthD by metis

lemma complex_ext_cached:
  assumes "complex_ext w w'" "a < length (datas w)" "cached (datas w ! a)"
  shows "datas w' ! a = datas w ! a"
  using list_all2_nthD[OF complex_ext_items[OF assms(1)] assms(2)] assms(3) by (rule cache_item_cached)

lemma complex_le_ext: "complex_ext w w' \<Longrightarrow> complex_le w a b \<Longrightarrow> complex_le w' a b"
  using complex_ext_length complex_ext_cached by (simp add: complex_le_def)

lemma cached_test: "signed_drop_bit 7 x AND 1 \<noteq> 0 \<longleftrightarrow> bit (x :: ee_s16) 7"
proof -
  have "signed_drop_bit 7 x AND 1 = of_bool (bit x 7)"
    by (rule word16_eqI) (simp add: all_less_16 bit_simps)
  then show ?thesis by simp
qed

lemma cache_bits:
  "bit ((x AND 0xff00) OR 0x80 OR (r AND 0x7f) :: ee_s16) 7"
  "((x AND 0xff00) OR 0x80 OR (r AND 0x7f) :: ee_s16) AND 0xff00 = x AND 0xff00"
  "((x AND 0xff00) OR 0x80 OR (r AND 0x7f) :: ee_s16) AND 0x7f = r AND 0x7f"
  by (simp add: bit_simps) (rule word16_eqI, simp add: all_less_16 bit_simps)+

lemma calc_switch_result:
  assumes "bench_ready w"
  shows "\<exists>r w'. calc_switch flag dtype data w = Some (r, w') \<and> heads w' = heads w \<and> datas w' = datas w
    \<and> complex_ext w w'"
proof -
  consider "flag = 0" | "flag \<noteq> 0" "flag = 1" | "flag \<noteq> 0" "flag \<noteq> 1" by blast
  then show ?thesis
  proof cases
    case 1
    let ?step = "if sint dtype < 0x22 then 0x22 else dtype"
    have "2 \<le> sint ?step" by simp
    then obtain crc where "core_bench_state (r_size w) (state_mem w) (r_seed1 w) (r_seed2 w) ?step (r_crc w)
        = Some (crc, state_mem w)"
      using bench_state_identity[of "r_size w" "state_mem w" ?step "r_seed1 w" "r_seed2 w" "r_crc w"] assms
      by (auto simp: bench_ready_def)
    then have "calc_switch flag dtype data w
        = Some (crc, if r_crcstate w = 0 then w\<lparr>r_crcstate := crc\<rparr> else w)"
      using 1 by (simp add: calc_switch_def Let_def)
    moreover have "complex_ext w (if r_crcstate w = 0 then w\<lparr>r_crcstate := crc\<rparr> else w)"
      using complex_ext_refl complex_ext_intro[where w = w and hs = "heads w" and ds = "datas w"
          and C = "mat_C (mats w)" and c = "r_crc w" and cm = "r_crcmatrix w" and cs = crc]
      by (simp add: list_all2_refl)
    ultimately show ?thesis by auto
  next
    case 2
    obtain n where "grid (p_N (r_mat w)) n" "fits n (mats w)" using assms by (auto simp: bench_ready_def)
    then obtain crc C where m: "matrix_test (p_N (r_mat w)) (mats w) dtype = Some (crc, (mats w)\<lparr>mat_C := C\<rparr>)"
      "length C = length (mat_C (mats w))"
      using matrix_test_result by blast
    let ?r = "crc16 crc (r_crc w)"
    let ?w = "if r_crcmatrix w = 0 then w\<lparr>mats := (mats w)\<lparr>mat_C := C\<rparr>, r_crcmatrix := ?r\<rparr>
        else w\<lparr>mats := (mats w)\<lparr>mat_C := C\<rparr>\<rparr>"
    have "calc_switch flag dtype data w = Some (?r, ?w)"
      using 2 m(1) by (simp add: calc_switch_def core_bench_matrix_def Let_def)
    moreover have "complex_ext w ?w"
      by (rule complex_ext_fields[where C = C]) (simp_all add: m(2) list_all2_refl)
    ultimately show ?thesis by auto
  next
    case 3
    then show ?thesis using complex_ext_refl by (simp add: calc_switch_def)
  qed
qed

lemma calc_func_result:
  assumes "bench_ready w" "a < length (datas w)"
  shows "\<exists>w'. calc_func a w = Some (cached_value (datas w' ! a), w') \<and> heads w' = heads w
    \<and> complex_ext w w' \<and> cached (datas w' ! a)"
proof (cases "cached (datas w ! a)")
  case True
  then show ?thesis using assms(2) complex_ext_refl[of w] cached_test
    by (auto simp: calc_func_def cached_def cached_value_def)
next
  case False
  define x where "x = ld_data16 (datas w ! a)"
  have nb: "\<not> signed_drop_bit 7 x AND 1 \<noteq> 0" using False unfolding cached_test x_def cached_def by blast
  obtain r w1 where c: "calc_switch (x AND 7) ((signed_drop_bit 3 x AND 0xf) OR push_bit 4 (signed_drop_bit 3 x AND 0xf)) x w
      = Some (r, w1)" "heads w1 = heads w" "datas w1 = datas w" "complex_ext w w1"
    using calc_switch_result[OF assms(1)] by blast
  let ?d = "(datas w ! a)\<lparr>ld_data16 := (x AND 0xff00) OR 0x0080 OR (r AND 0x7f)\<rparr>"
  let ?w = "w1\<lparr>r_crc := crcu16 r (r_crc w1), datas := (datas w)[a := ?d]\<rparr>"
  have "calc_func a w = Some (r AND 0x7f, ?w)"
    using assms(2) nb c(1,3) by (simp add: calc_func_def Let_def flip: x_def)
  moreover have "cache_item (datas w ! a) ?d"
    using False cache_bits by (simp add: cache_item_def cached_def x_def)
  then have "list_all2 cache_item (datas w1) ((datas w)[a := ?d])"
    using assms(2) c(3) by (simp add: list_all2_update)
  then have "complex_ext w1 ?w"
    by (intro complex_ext_fields[where C = "mat_C (mats w1)"]) simp_all
  then have "complex_ext w ?w" using c(4) complex_ext_trans by blast
  ultimately show ?thesis using assms(2) c(2) cache_bits by (auto simp: cached_def cached_value_def)
qed

interpretation by_value: list_order cmp_complex "\<lambda>w. length (datas w) = n \<and> bench_ready w" complex_ext n complex_le for n
proof
  fix w w1 w2 w' :: core_results and a b d :: nat and c :: ee_s32 and hs :: "list_head list"
  have cmp: "\<exists>w'. cmp_complex a b w = Some (scast (cached_value (datas w' ! a)) - scast (cached_value (datas w' ! b)), w')
      \<and> heads w' = heads w \<and> (length (datas w') = n \<and> bench_ready w') \<and> complex_ext w w'
      \<and> cached (datas w' ! a) \<and> cached (datas w' ! b)"
    if h: "length (datas w) = n \<and> bench_ready w" "a < n" "b < n"
  proof -
    obtain w1 where 1: "calc_func a w = Some (cached_value (datas w1 ! a), w1)" "heads w1 = heads w"
      "complex_ext w w1" "cached (datas w1 ! a)"
      using calc_func_result[of w a] h by auto
    have i1: "length (datas w1) = n" "bench_ready w1"
      using complex_ext_length[OF 1(3)] complex_ext_ready[OF 1(3)] h by auto
    obtain w2 where 2: "calc_func b w1 = Some (cached_value (datas w2 ! b), w2)" "heads w2 = heads w1"
      "complex_ext w1 w2" "cached (datas w2 ! b)"
      using calc_func_result[of w1 b] i1 h by auto
    have i2: "length (datas w2) = n" "bench_ready w2" "datas w2 ! a = datas w1 ! a"
      using complex_ext_length[OF 2(3)] complex_ext_ready[OF 2(3)] complex_ext_cached[OF 2(3) _ 1(4)] i1 h by auto
    have "complex_ext w w2" using 1(3) 2(3) by (rule complex_ext_trans)
    moreover have "cmp_complex a b w = Some (scast (cached_value (datas w2 ! a)) - scast (cached_value (datas w2 ! b)), w2)"
      using 1(1) 2(1) i2(3) by (simp add: cmp_complex_def)
    moreover have "heads w2 = heads w" using 1(2) 2(2) by simp
    ultimately show ?thesis using i2 1(4) 2(4) by metis
  qed
  show "\<exists>c w'. cmp_complex a b w = Some (c, w') \<and> heads w' = heads w \<and> (length (datas w') = n \<and> bench_ready w') \<and> complex_ext w w'"
    if "length (datas w) = n \<and> bench_ready w" "a < n" "b < n" using cmp[OF that] by blast
  show "if sint c \<le> 0 then complex_le w' a b else complex_le w' b a"
    if "length (datas w) = n \<and> bench_ready w" "a < n" "b < n" "cmp_complex a b w = Some (c, w')"
    using cmp[OF that(1-3)] that(2-4) by (auto simp: complex_le_def signed_diff_16)
  show "complex_ext w w" by (rule complex_ext_refl)
  show "complex_ext w w2" if "complex_ext w w1" "complex_ext w1 w2" using that by (rule complex_ext_trans)
  show "(length (datas (w\<lparr>heads := hs\<rparr>)) = n \<and> bench_ready (w\<lparr>heads := hs\<rparr>))
      \<longleftrightarrow> (length (datas w) = n \<and> bench_ready w)" by (simp add: bench_ready_def)
  show "complex_ext w (w\<lparr>heads := hs\<rparr>)" by (rule complex_ext_links)
  show "complex_le w a d" if "complex_le w a b" "complex_le w b d" using that by (auto simp: complex_le_def)
  show "complex_le w' a b" if "complex_ext w w'" "complex_le w a b" using that by (rule complex_le_ext)
qed

end
