(* ===== verification/Core_List_Bench.thy ===== *)
theory Core_List_Bench
  imports Core_List_Props
begin

text \<open>
  The link operations of \<open>core_list_join.c\<close> as functions on the cells of the list, and the list
  benchmark: it returns, and puts the list and its items back.
\<close>

section \<open>Finding\<close>

definition item :: "core_results \<Rightarrow> nat \<Rightarrow> list_data" where
  "item w x = datas w ! lh_info (heads w ! x)"

definition items_in :: "core_results \<Rightarrow> nat list \<Rightarrow> bool" where
  "items_in w xs \<longleftrightarrow> (\<forall>x \<in> set xs. x < length (heads w) \<and> lh_info (heads w ! x) < length (datas w))"

lemma get_data_in [simp]:
  "x < length (heads w) \<Longrightarrow> lh_info (heads w ! x) < length (datas w) \<Longrightarrow> get_data w (Some x) = Some (item w x)"
  by (simp add: get_data_def item_def)

lemma items_in_simps [simp]:
  "items_in w []"
  "items_in w (x # xs) \<longleftrightarrow> x < length (heads w) \<and> lh_info (heads w ! x) < length (datas w) \<and> items_in w xs"
  by (auto simp: items_in_def)

lemma items_in_set: "items_in w xs \<Longrightarrow> set ys \<subseteq> set xs \<Longrightarrow> items_in w ys"
  by (auto simp: items_in_def)

lemma find_idx_result:
  "lseg (heads w) p xs None \<Longrightarrow> items_in w xs \<Longrightarrow>
     find_idx w i p = Some (List.find (\<lambda>x. ld_idx (item w x) = i) xs)"
proof (induction xs arbitrary: p)
  case Nil
  then show ?case by (subst find_idx.simps) simp
next
  case (Cons x xs)
  then show ?case by (subst find_idx.simps) simp
qed

lemma find_data_result:
  "lseg (heads w) p xs None \<Longrightarrow> items_in w xs \<Longrightarrow>
     find_data w d p = Some (List.find (\<lambda>x. ld_data16 (item w x) AND 0xff = d) xs)"
proof (induction xs arbitrary: p)
  case Nil
  then show ?case by (subst find_data.simps) simp
next
  case (Cons x xs)
  then show ?case by (subst find_data.simps) simp
qed

definition find_cell :: "core_results \<Rightarrow> ee_s16 \<Rightarrow> ee_s16 \<Rightarrow> nat list \<Rightarrow> nat option" where
  "find_cell w i d xs = (if 0 \<le> sint i then List.find (\<lambda>x. ld_idx (item w x) = i) xs
     else List.find (\<lambda>x. ld_data16 (item w x) AND 0xff = d) xs)"

lemma core_list_find_result:
  "lseg (heads w) p xs None \<Longrightarrow> items_in w xs \<Longrightarrow> core_list_find p i (Some d) w = Some (find_cell w i d xs)"
  using lseg_None by (auto simp: core_list_find_def find_cell_def find_idx_result find_data_result)

lemma find_cell_in: "find_cell w i d xs = Some x \<Longrightarrow> x \<in> set xs"
  by (auto simp: find_cell_def find_Some_iff split: if_splits)

section \<open>Reversing\<close>

lemma reverse_loop_result:
  assumes "lseg (heads w) p xs None" "lseg (heads w) nxt ys None" "distinct (xs @ ys)"
  shows "\<exists>p' hs. reverse_loop nxt p w = Some (p', w\<lparr>heads := hs\<rparr>) \<and> lseg hs p' (rev xs @ ys) None
    \<and> frame (set xs) (heads w) hs"
  using assms
proof (induction xs arbitrary: w p nxt ys)
  case Nil
  then have "reverse_loop nxt p w = Some (nxt, w\<lparr>heads := heads w\<rparr>)"
    by (subst reverse_loop.simps) simp
  then show ?case using Nil.prems(2) frame_refl by (intro exI conjI) (assumption | simp)+
next
  case (Cons x xs)
  let ?w = "w\<lparr>heads := (heads w)[x := (heads w ! x)\<lparr>lh_next := nxt\<rparr>]\<rparr>"
  have p: "p = Some x" "x < length (heads w)" using Cons.prems(1) by auto
  have step: "reverse_loop nxt p w = reverse_loop (Some x) (lh_next (heads w ! x)) ?w"
    using p by (subst reverse_loop.simps) simp
  obtain p' hs where r: "reverse_loop (Some x) (lh_next (heads w ! x)) ?w = Some (p', ?w\<lparr>heads := hs\<rparr>)"
    "lseg hs p' (rev xs @ (x # ys)) None" "frame (set xs) (heads ?w) hs"
    using Cons.IH[of ?w "lh_next (heads w ! x)" "Some x" "x # ys"] Cons.prems by auto
  have "frame (set (x # xs)) (heads w) hs"
    by (rule frame_trans[OF frame_mono[OF frame_next[OF p(2)]] frame_mono[OF r(3)[simplified]]]) auto
  then show ?case using step r by auto
qed

lemma core_list_reverse_result:
  "lseg (heads w) p xs None \<Longrightarrow> distinct xs \<Longrightarrow>
     \<exists>p' hs. core_list_reverse p w = Some (p', w\<lparr>heads := hs\<rparr>) \<and> lseg hs p' (rev xs) None
       \<and> frame (set xs) (heads w) hs"
  using reverse_loop_result[of w p xs None "[]"] by (simp add: core_list_reverse_def)

section \<open>Removing and putting back\<close>

definition remove_links :: "nat \<Rightarrow> nat \<Rightarrow> list_head list \<Rightarrow> list_head list" where
  "remove_links x y hs = hs[x := \<lparr>lh_next = lh_next (hs ! y), lh_info = lh_info (hs ! y)\<rparr>,
     y := \<lparr>lh_next = None, lh_info = lh_info (hs ! x)\<rparr>]"

lemma list_head_eta: "c\<lparr>lh_info := i, lh_next := n\<rparr> = \<lparr>lh_next = n, lh_info = i\<rparr>"
  by (cases c) simp

lemma core_list_remove_result:
  assumes "x < length (heads w)" "lh_next (heads w ! x) = Some y" "y < length (heads w)" "x \<noteq> y"
  shows "core_list_remove (Some x) w = Some (Some y, w\<lparr>heads := remove_links x y (heads w)\<rparr>)"
  using assms
  by (simp add: core_list_remove_def remove_links_def list_update_swap[of x y] list_head_eta)

lemma core_list_undo_remove_result:
  assumes "x < length (heads w)" "lh_next (heads w ! x) = Some y" "y < length (heads w)" "x \<noteq> y"
  shows "core_list_undo_remove (Some y) (Some x) (w\<lparr>heads := remove_links x y (heads w)\<rparr>) = Some (Some y, w)"
proof -
  have "(heads w)[y := \<lparr>lh_next = lh_next (heads w ! y), lh_info = lh_info (heads w ! y)\<rparr>,
      x := \<lparr>lh_next = Some y, lh_info = lh_info (heads w ! x)\<rparr>] = heads w"
    using assms by (intro nth_equalityI) (auto simp: nth_list_update)
  then show ?thesis using assms
    by (simp add: core_list_undo_remove_def remove_links_def list_update_swap[of x y])
qed

lemma remove_links_lseg:
  assumes "lseg hs p (x # y # zs) None" "distinct (x # y # zs)"
  shows "lseg (remove_links x y hs) (Some x) (x # zs) None"
  using assms by (auto simp: remove_links_def)

section \<open>The find loop\<close>

text \<open>Moving the cell after \<open>z\<close> to the place after the head permutes the others.\<close>

lemma cache_next_result:
  assumes "lseg (heads w) (Some h) (h # ys) None" "distinct (h # ys)" "z \<in> set (h # ys)"
  shows "\<exists>hs zs. cache_next (Some z) (Some h) w = Some (w\<lparr>heads := hs\<rparr>)
    \<and> lseg hs (Some h) (h # zs) None \<and> mset zs = mset ys \<and> frame (set (h # ys)) (heads w) hs"
proof -
  have h: "h < length (heads w)" "lseg (heads w) (lh_next (heads w ! h)) ys None" using assms(1) by auto
  have same: ?thesis if c: "cache_next (Some z) (Some h) w = Some w"
    by (rule exI[of _ "heads w"], rule exI[of _ ys]) (simp add: c, use assms(1) in simp)
  show ?thesis
  proof (cases "z = h")
    case True
    show ?thesis
    proof (cases ys)
      case Nil
      then have "cache_next (Some z) (Some h) w = Some w" using True h by (simp add: cache_next_def)
      then show ?thesis by (rule same)
    next
      case (Cons y cs)
      then have y: "lh_next (heads w ! h) = Some y" "y < length (heads w)" "y \<noteq> h" using h assms(2) by auto
      let ?hs = "(heads w)[h := (heads w ! h)\<lparr>lh_next := lh_next (heads w ! y)\<rparr>,
          y := (heads w ! y)\<lparr>lh_next := lh_next (heads w ! y)\<rparr>, h := (heads w ! h)\<lparr>lh_next := Some y\<rparr>]"
      have "?hs = heads w" using y h(1) by (intro nth_equalityI) (auto simp: nth_list_update)
      moreover have "cache_next (Some z) (Some h) w = Some (w\<lparr>heads := ?hs\<rparr>)"
        using True h(1) y by (simp add: cache_next_def)
      ultimately have "cache_next (Some z) (Some h) w = Some w" by simp
      then show ?thesis by (rule same)
    qed
  next
    case False
    then obtain as bs where ys: "ys = as @ z # bs" using assms(3) split_list[of z ys] by auto
    have z: "z < length (heads w)" "lseg (heads w) (lh_next (heads w ! z)) bs None"
      using h(2) by (auto simp: ys lseg_append)
    show ?thesis
    proof (cases bs)
      case Nil
      then have "cache_next (Some z) (Some h) w = Some w" using z by (simp add: cache_next_def)
      then show ?thesis by (rule same)
    next
      case (Cons y cs)
      then have y: "lh_next (heads w ! z) = Some y" "y < length (heads w)"
        "lseg (heads w) (lh_next (heads w ! y)) cs None" using z by auto
      have d: "y \<noteq> h" "y \<noteq> z" "z \<noteq> h" "h \<notin> set as" "y \<notin> set as" "z \<notin> set as"
        "h \<notin> set cs" "y \<notin> set cs" "z \<notin> set cs" using assms(2) by (auto simp: ys Cons)
      let ?hs = "(heads w)[z := (heads w ! z)\<lparr>lh_next := lh_next (heads w ! y)\<rparr>,
          y := (heads w ! y)\<lparr>lh_next := lh_next (heads w ! h)\<rparr>, h := (heads w ! h)\<lparr>lh_next := Some y\<rparr>]"
      have "cache_next (Some z) (Some h) w = Some (w\<lparr>heads := ?hs\<rparr>)"
        using h(1) z(1) y d by (simp add: cache_next_def)
      moreover obtain m where m: "lseg (heads w) (lh_next (heads w ! h)) as m" "m = Some z"
        using h(2) by (auto simp: ys lseg_append)
      have "lseg ?hs (Some h) (h # y # as @ z # cs) None"
        using h(1) z(1) y d m by (auto simp: lseg_append)
      moreover have "frame (set (h # ys)) (heads w) ?hs"
        using h(1) z(1) y(2) d by (auto simp: frame_def ys Cons nth_list_update intro!: nth_equalityI)
      moreover have "mset (y # as @ z # cs) = mset ys" by (simp add: ys Cons)
      ultimately show ?thesis by blast
    qed
  qed
qed

text \<open>The state of the loop: only the links have changed, and the list is a permutation.\<close>

definition found_state :: "core_results \<Rightarrow> nat list \<Rightarrow> nat option \<Rightarrow> core_results \<Rightarrow> bool" where
  "found_state w xs p w' \<longleftrightarrow> (\<exists>hs ys. w' = w\<lparr>heads := hs\<rparr> \<and> lseg hs p ys None \<and> mset ys = mset xs
     \<and> frame (set xs) (heads w) hs)"

lemma found_stateI:
  "lseg hs p ys None \<Longrightarrow> mset ys = mset xs \<Longrightarrow> frame (set xs) (heads w) hs \<Longrightarrow>
     found_state w xs p (w\<lparr>heads := hs\<rparr>)"
  unfolding found_state_def by blast

lemma items_in_frame: "frame S (heads w) hs \<Longrightarrow> items_in (w\<lparr>heads := hs\<rparr>) xs \<longleftrightarrow> items_in w xs"
proof -
  assume f: "frame S (heads w) hs"
  have "lh_info (hs ! x) = lh_info (heads w ! x)" if "x < length hs" for x
    using frame_infos[OF f] frame_length[OF f] that by (metis nth_map)
  then show ?thesis using frame_length[OF f] by (auto simp: items_in_def)
qed

lemma find_step_result:
  assumes "found_state w xs (fv_list v) w1" "items_in w xs" "distinct xs" "2 \<le> length xs"
  shows "\<exists>v' w2. find_step i (v, w1) = Some (v', w2) \<and> found_state w xs (fv_list v') w2
    \<and> fv_data16 v' = Some (of_nat i AND 0xff)"
proof -
  obtain hs ys where f: "w1 = w\<lparr>heads := hs\<rparr>" "lseg hs (fv_list v) ys None" "mset ys = mset xs"
    "frame (set xs) (heads w) hs" using assms(1) by (auto simp: found_state_def)
  have ys: "distinct ys" "set ys = set xs" "length ys = length xs"
    using mset_eq_imp_distinct_iff[OF f(3)] mset_eq_setD[OF f(3)] mset_eq_length[OF f(3)] assms(3) by auto
  have i1: "items_in w1 ys" using items_in_frame[OF f(4)] items_in_set[OF assms(2), of ys] ys(2) f(1) by simp
  let ?d = "of_nat i AND 0xff :: ee_s16"
  have fnd: "core_list_find (fv_list v) (fv_idx v) (Some ?d) w1 = Some (find_cell w1 (fv_idx v) ?d ys)"
    using core_list_find_result[of w1 "fv_list v" ys] f(1,2) i1 by simp
  obtain p' hs2 where r: "core_list_reverse (fv_list v) w1 = Some (p', w1\<lparr>heads := hs2\<rparr>)"
    "lseg hs2 p' (rev ys) None" "frame (set ys) hs hs2"
    using core_list_reverse_result[of w1 "fv_list v" ys] f(1,2) ys(1) by auto
  let ?w2 = "w\<lparr>heads := hs2\<rparr>"
  have f2: "frame (set xs) (heads w) hs2" using frame_trans[OF f(4)] r(3) ys(2) by simp
  obtain h y zs where rev: "rev ys = h # y # zs"
    using assms(4) ys(3) by (cases "rev ys" rule: list.exhaust; cases "tl (rev ys)") auto
  have l2: "lseg hs2 (Some h) (h # y # zs) None" "p' = Some h" using r(2) rev by auto
  have sets: "set (h # y # zs) = set xs" "mset (h # y # zs) = mset xs" "distinct (h # y # zs)"
    using ys f(3) by (metis set_rev rev, metis mset_rev rev, metis distinct_rev rev)
  have i2: "items_in ?w2 (h # y # zs)" unfolding items_in_frame[OF f2]
    by (rule items_in_set[OF assms(2)]) (simp only: sets(1))
  show ?thesis
  proof (cases "find_cell w1 (fv_idx v) ?d ys")
    case None
    then have "find_step i (v, w1) = Some (v\<lparr>fv_missed := fv_missed v + 1,
        fv_retval := fv_retval v + (signed_drop_bit 8 (ld_data16 (item ?w2 y)) AND 1),
        fv_idx := (if 0 \<le> sint (fv_idx v) then fv_idx v + 1 else fv_idx v), fv_data16 := Some ?d, fv_list := p'\<rparr>, ?w2)"
      using fnd r(1) l2 i2 f(1) by (simp add: find_step_def)
    moreover have "found_state w xs p' ?w2" using r(2) f2 sets(2) unfolding rev by (intro found_stateI)
    ultimately show ?thesis by simp
  next
    case (Some z)
    then have z: "z \<in> set (h # y # zs)" using find_cell_in sets(1) ys(2) by metis
    then have zi: "z < length hs2" "lh_info (hs2 ! z) < length (datas w)" using i2 by (auto simp: items_in_def)
    obtain hs3 us where c: "cache_next (Some z) (Some h) ?w2 = Some (?w2\<lparr>heads := hs3\<rparr>)"
      "lseg hs3 (Some h) (h # us) None" "mset us = mset (y # zs)" "frame (set (h # y # zs)) hs2 hs3"
      using cache_next_result[of ?w2 h "y # zs" z] l2(1) sets(3) z by auto
    have "\<exists>v'. find_step i (v, w1) = Some (v', w\<lparr>heads := hs3\<rparr>) \<and> fv_data16 v' = Some ?d \<and> fv_list v' = Some h"
      using fnd r(1) l2(2) Some f(1) zi c(1) by (simp add: find_step_def Let_def)
    moreover have "frame (set xs) (heads w) hs3" using frame_trans[OF f2] c(4) sets(1) by simp
    then have "found_state w xs (Some h) (w\<lparr>heads := hs3\<rparr>)"
      using c(2,3) sets(2) by (intro found_stateI[of hs3 _ "h # us"]) simp_all
    ultimately show ?thesis by auto
  qed
qed

lemma find_loop_result:
  assumes "lseg (heads w) (fv_list v) xs None" "items_in w xs" "distinct xs" "2 \<le> length xs"
  shows "\<exists>v' w'. for_count find_step 0 n (v, w) = Some (v', w') \<and> found_state w xs (fv_list v') w'
    \<and> (n = 0 \<longrightarrow> v' = v) \<and> (0 < n \<longrightarrow> fv_data16 v' \<noteq> None)"
proof -
  define P where "P = (\<lambda>(i :: nat) (s :: find_vars \<times> core_results). found_state w xs (fv_list (fst s)) (snd s)
    \<and> (i = 0 \<longrightarrow> fst s = v) \<and> (0 < i \<longrightarrow> fv_data16 (fst s) \<noteq> None))"
  have "\<exists>s'. for_count find_step 0 n (v, w) = Some s' \<and> P (0 + n) s'"
  proof (rule for_count_rule)
    fix j s assume "P j s"
    then have "found_state w xs (fv_list (fst s)) (snd s)" by (simp add: P_def)
    from find_step_result[OF this assms(2-4), of j] show "\<exists>s'. find_step j s = Some s' \<and> P (Suc j) s'"
      by (auto simp: P_def)
  next
    have "found_state w xs (fv_list v) w"
      unfolding found_state_def by (rule exI[of _ "heads w"], rule exI[of _ xs]) (use assms(1) in simp)
    then show "P 0 (v, w)" by (simp add: P_def)
  qed
  then show ?thesis by (auto simp: P_def)
qed

section \<open>The checksum of the list\<close>

lemma crc_loop_result:
  assumes "lseg (heads w) p xs None" "get_data w list = Some d"
  shows "crc_loop w list p r = Some (foldl (\<lambda>r x. crc16 (ld_data16 d) r) r xs)"
  using assms(1)
proof (induction xs arbitrary: p r)
  case Nil
  then show ?case by (subst crc_loop.simps) simp
next
  case (Cons x xs)
  then show ?case by (subst crc_loop.simps) (simp add: assms(2))
qed

lemma find_cell_suffix:
  assumes "lseg (heads w) p xs None" "find_cell w i d xs = f"
  shows "\<exists>ys. lseg (heads w) f ys None"
proof (cases f)
  case None
  then show ?thesis by auto
next
  case (Some x)
  then obtain as bs where "xs = as @ x # bs" using assms(2) find_cell_in split_list by metis
  then show ?thesis using assms(1) Some by (auto simp: lseg_append intro!: exI[of _ "x # bs"])
qed

section \<open>The list benchmark\<close>

text \<open>
  The state the benchmark starts from: the cells \<open>xs\<close> hang from \<open>res->list\<close>, their items are in
  the data area, in strictly increasing order of their indices and not cached yet.
\<close>

definition list_ready :: "core_results \<Rightarrow> nat list \<Rightarrow> bool" where
  "list_ready w xs \<longleftrightarrow> lseg (heads w) (r_list w) xs None \<and> distinct xs \<and> 3 \<le> length xs \<and> length xs < 2 ^ 31
     \<and> items_in w xs \<and> sorted_wrt (\<lambda>x y. sint (ld_idx (item w x)) < sint (ld_idx (item w y))) xs
     \<and> (\<forall>x \<in> set xs. regen (ld_data16 (item w x)) = ld_data16 (item w x))"

text \<open>What the benchmark leaves: a list of the same cells in the order of their indices.\<close>

definition resorted :: "core_results \<Rightarrow> nat list \<Rightarrow> core_results \<Rightarrow> bool" where
  "resorted w xs w' \<longleftrightarrow> (\<exists>p ys. lseg (heads w') p ys None \<and> mset ys = mset xs
     \<and> sorted_wrt (\<lambda>x y. idx_le w' (lh_info (heads w' ! x)) (lh_info (heads w' ! y))) ys
     \<and> frame (set xs) (heads w) (heads w'))"

text \<open>The items after the two sorts: cached by the first, regenerated by the second.\<close>

lemma regen_high: "x AND 0xff00 = y AND 0xff00 \<Longrightarrow> regen x = regen (y :: ee_s16)"
proof -
  assume h: "x AND 0xff00 = y AND 0xff00"
  have "bit x n = bit y n" if "8 \<le> n" "n < 16" for n
  proof -
    have "bit (x AND 0xff00) n = bit (y AND 0xff00) n" using h by simp
    moreover have "bit (0xff00 :: ee_s16) n"
    proof -
      have "n \<in> {8, 9, 10, 11, 12, 13, 14, 15}" using that by auto
      then show ?thesis by auto
    qed
    ultimately show ?thesis by (simp add: bit_simps)
  qed
  then show ?thesis
    by (intro word16_eqI) (simp add: all_less_16 regen_def bit_simps)
qed

lemma restored_item:
  assumes "cache_item d d1" "regen_item d1 d2" "regen (ld_data16 d) = ld_data16 d"
    "regen (ld_data16 d2) = ld_data16 d2"
  shows "d2 = d"
proof -
  have r: "regen (ld_data16 d1) = regen (ld_data16 d)" using assms(1) unfolding cache_item_def
    by (elim disjE conjE) (simp, rule regen_high)
  have i: "ld_idx d2 = ld_idx d" using assms(1,2) by (auto simp: cache_item_def regen_item_def)
  have "regen (ld_data16 d2) = regen (ld_data16 d1)" using assms(2) by (auto simp: regen_item_def)
  then have "ld_data16 d2 = ld_data16 d" using r assms(3,4) by simp
  with i show "d2 = d" by (cases d2; cases d) simp
qed

lemma items_in_items:
  "list_all2 R (datas w) (datas w') \<Longrightarrow> map lh_info (heads w') = map lh_info (heads w) \<Longrightarrow>
     items_in w' xs \<longleftrightarrow> items_in w xs"
proof -
  assume a: "list_all2 R (datas w) (datas w')" "map lh_info (heads w') = map lh_info (heads w)"
  have "length (heads w') = length (heads w)" using a(2) by (metis length_map)
  moreover have "lh_info (heads w' ! x) = lh_info (heads w ! x)" if "x < length (heads w)" for x
    using a(2) that calculation by (metis nth_map)
  ultimately show ?thesis using list_all2_lengthD[OF a(1)] by (auto simp: items_in_def)
qed

text \<open>The first sort, by value: only when the benchmark looks for an index.\<close>

lemma value_sort_result:
  assumes "lseg (heads w) p xs None" "distinct xs" "xs \<noteq> []" "length xs < 2 ^ 31" "items_in w xs" "bench_ready w"
  shows "\<exists>p' w' ys. core_list_mergesort p cmp_complex w = Some (p', w') \<and> complex_ext w w'
    \<and> lseg (heads w') p' ys None \<and> mset ys = mset xs \<and> frame (set xs) (heads w) (heads w')"
  using by_value.mergesort_result[of w "length (datas w)" p xs] assms by (auto simp: items_in_def)

text \<open>Everything up to the second sort: the cells are permuted and some items are cached.\<close>

lemma bench_list_middle:
  assumes "lseg (heads w) p xs None" "distinct xs" "3 \<le> length xs" "items_in w xs" "0 \<le> sint i \<or> d \<noteq> None"
  shows "\<exists>n w3 finder finder' retval2 n'. get_next w p = Some n \<and> core_list_remove n w = Some (finder, w3)
    \<and> (\<exists>f f'. core_list_find p i d w3 = Some f
      \<and> (if f = None then get_next w3 p else Some f) = Some f' \<and> (\<exists>r2. crc_loop w3 p f' r1 = Some r2))
    \<and> get_next w3 p = Some n' \<and> core_list_undo_remove finder n' w3 = Some (finder, w)"
proof -
  obtain h x y zs where xs: "xs = h # x # y # zs"
    using assms(3) by (cases xs; cases "tl xs"; cases "tl (tl xs)") auto
  have l: "p = Some h" "h < length (heads w)" "lh_next (heads w ! h) = Some x" "x < length (heads w)"
    "lh_next (heads w ! x) = Some y" "y < length (heads w)" "lseg (heads w) (lh_next (heads w ! y)) zs None"
    "h \<noteq> x" "h \<noteq> y" "x \<noteq> y" "h \<notin> set zs" "x \<notin> set zs" "y \<notin> set zs" "distinct zs"
    using assms(1,2) by (auto simp: xs)
  let ?hs = "remove_links x y (heads w)" let ?w = "w\<lparr>heads := remove_links x y (heads w)\<rparr>"
  have rem: "core_list_remove (Some x) w = Some (Some y, ?w)"
    using core_list_remove_result l by blast
  have undo: "core_list_undo_remove (Some y) (Some x) ?w = Some (Some y, w)"
    using core_list_undo_remove_result l by blast
  have seg: "lseg ?hs p (h # x # zs) None" using l by (auto simp: remove_links_def)
  have it: "items_in ?w (h # x # zs)"
    using assms(4) l by (auto simp: items_in_def xs remove_links_def nth_list_update)
  have nx: "get_next ?w p = Some (Some x)" using l by (simp add: remove_links_def)
  obtain f where f: "core_list_find p i d ?w = Some f" "\<exists>ys. lseg ?hs f ys None"
  proof (cases "0 \<le> sint i")
    case True
    then have "core_list_find p i d ?w = Some (find_cell ?w i 0 (h # x # zs))"
      using find_idx_result[of ?w p "h # x # zs"] seg it by (simp add: core_list_find_def find_cell_def)
    then show ?thesis using that find_cell_suffix[of ?w p "h # x # zs"] seg by simp
  next
    case False
    then obtain d' where "d = Some d'" using assms(5) by auto
    then show ?thesis using that core_list_find_result[of ?w p "h # x # zs" i d']
        find_cell_suffix[of ?w p "h # x # zs"] seg it by simp
  qed
  obtain f' ys where f': "(if f = None then get_next ?w p else Some f) = Some f'" "lseg ?hs f' ys None"
  proof (cases "f = None")
    case True
    then show ?thesis using that[of "Some x" "x # zs"] nx seg by simp
  next
    case False
    then show ?thesis using that f(2) by auto
  qed
  have "get_data ?w p = Some (item ?w h)" using it l(1) by simp
  from crc_loop_result[of ?w, OF _ this] f'(2) have "\<exists>r2. crc_loop ?w p f' r1 = Some r2" by auto
  then show ?thesis using l rem undo nx f(1) f'(1) by auto
qed

lemma core_bench_list_result:
  assumes "lseg (heads w) (r_list w) xs None" "distinct xs" "3 \<le> length xs" "length xs < 2 ^ 31"
    "items_in w xs" "0 < sint finder_idx \<Longrightarrow> bench_ready w" "0 \<le> sint finder_idx \<or> 0 < sint (r_seed3 w)"
  shows "\<exists>ret w2 w'. core_bench_list w finder_idx = Some (ret, w') \<and> complex_ext w w2 \<and> idx_ext w2 w'
    \<and> resorted w xs w'"
proof -
  let ?n = "nat (sint (r_seed3 w))"
  let ?v = "\<lparr>fv_idx = finder_idx, fv_data16 = None, fv_list = r_list w, fv_found = 0, fv_missed = 0, fv_retval = 0\<rparr>"
  obtain v w1 where 1: "for_count find_step 0 ?n (?v, w) = Some (v, w1)" "found_state w xs (fv_list v) w1"
    "?n = 0 \<longrightarrow> v = ?v" "0 < ?n \<longrightarrow> fv_data16 v \<noteq> None"
    using find_loop_result[of w ?v xs ?n] assms(1,2,3,5) by auto
  obtain hs xs1 where f: "w1 = w\<lparr>heads := hs\<rparr>" "lseg hs (fv_list v) xs1 None" "mset xs1 = mset xs"
    "frame (set xs) (heads w) hs" using 1(2) by (auto simp: found_state_def)
  have xs1: "distinct xs1" "set xs1 = set xs" "length xs1 = length xs" "items_in w1 xs1" "complex_ext w w1"
    using mset_eq_imp_distinct_iff[OF f(3)] mset_eq_setD[OF f(3)] mset_eq_length[OF f(3)] assms(2)
      items_in_frame[OF f(4)] items_in_set[OF assms(5)] f(1) complex_ext_links by auto
  have d: "0 \<le> sint (fv_idx v) \<or> fv_data16 v \<noteq> None"
    using 1(3,4) assms(7) by (cases "?n = 0") auto
  obtain list2 w2 xs2 where 2: "(if 0 < sint finder_idx then core_list_mergesort (fv_list v) cmp_complex w1
      else Some (fv_list v, w1)) = Some (list2, w2)" "complex_ext w1 w2" "lseg (heads w2) list2 xs2 None"
    "mset xs2 = mset xs1" "frame (set xs) (heads w1) (heads w2)"
  proof (cases "0 < sint finder_idx")
    case True
    then have "bench_ready w1" using assms(6) complex_ext_ready[OF xs1(5)] by simp
    then show ?thesis
      using that True value_sort_result[of w1 "fv_list v" xs1] f(1,2) xs1 assms(3,4) by force
  next
    case False
    then show ?thesis using that[of "fv_list v" w1 xs1] f complex_ext_refl by simp
  qed
  have m2: "mset xs2 = mset xs" using 2(4) f(3) by simp
  have fr2: "frame (set xs) (heads w) (heads w2)" using frame_trans[OF f(4)] 2(5) f(1) by simp
  have ext2: "complex_ext w w2" using xs1(5) 2(2) complex_ext_trans by blast
  have xs2: "distinct xs2" "set xs2 = set xs" "length xs2 = length xs" "items_in w2 xs2"
    using mset_eq_imp_distinct_iff[OF m2] mset_eq_setD[OF m2] mset_eq_length[OF m2] assms(2)
      items_in_items[OF complex_ext_items[OF ext2] frame_infos[OF fr2]] items_in_set[OF assms(5)] by auto
  define r1 where "r1 = fv_retval v + (fv_found v * 4 - fv_missed v)"
  obtain n w3 remover f0 f1 r2 n' where 3: "get_next w2 list2 = Some n" "core_list_remove n w2 = Some (remover, w3)"
    "core_list_find list2 (fv_idx v) (fv_data16 v) w3 = Some f0"
    "(if f0 = None then get_next w3 list2 else Some f0) = Some f1" "crc_loop w3 list2 f1 r1 = Some r2"
    "get_next w3 list2 = Some n'" "core_list_undo_remove remover n' w3 = Some (remover, w2)"
    using bench_list_middle[OF 2(3) xs2(1) _ xs2(4) d, of r1] assms(3) xs2(3) by auto
  have items: "\<forall>x \<in> set xs2. lh_info (heads w2 ! x) < length (datas w2)" using xs2(4) by (simp add: items_in_def)
  obtain list5 w5 ys where 5: "core_list_mergesort list2 (cmp_idx True) w2 = Some (list5, w5)"
    "idx_ext w2 w5" "lseg (heads w5) list5 ys None" "mset ys = mset xs2"
    "sorted_wrt (\<lambda>x y. idx_le w5 (lh_info (heads w5 ! x)) (lh_info (heads w5 ! y))) ys"
    "frame (set xs2) (heads w2) (heads w5)"
    using by_idx.mergesort_result[OF refl 2(3) xs2(1) _ _ items] xs2(3) assms(3,4) by force
  have ys: "ys \<noteq> []" using mset_eq_length[OF 5(4)] xs2(3) assms(3) by auto
  then obtain y ys' where y: "ys = y # ys'" by (cases ys) auto
  then have l5: "list5 = Some y" "y < length (heads w5)" "lseg (heads w5) (lh_next (heads w5 ! y)) ys' None"
    using 5(3) by auto
  have "items_in w5 ys"
    using items_in_items[of regen_item w2 w5 ys] 5(2) frame_infos[OF 5(6)] items_in_set[OF xs2(4), of ys]
      mset_eq_setD[OF 5(4)] by (simp add: idx_ext_def)
  then have d5: "get_data w5 list5 = Some (item w5 y)" using l5 y by simp
  obtain r5 where "crc_loop w5 list5 (lh_next (heads w5 ! y)) r2 = Some r5"
    using crc_loop_result[OF l5(3) d5] by blast
  then have "core_bench_list w finder_idx = Some (r5, w5)"
    using 1(1) 2(1) 3 5(1) l5(1,2) by (simp add: core_bench_list_def Let_def r1_def)
  moreover have "frame (set xs) (heads w) (heads w5)" using frame_trans[OF fr2] 5(6) xs2(2) by simp
  then have "resorted w xs w5" using 5(3-5) m2 unfolding resorted_def by (metis 5(4))
  ultimately show ?thesis using ext2 5(2) by blast
qed

section \<open>The list is put back\<close>

lemma sorted_pair_member:
  assumes "sorted_wrt R ys" "2 \<le> length ys" "y \<in> set ys"
  shows "\<exists>z. R y z \<or> R z y"
proof -
  obtain i where i: "i < length ys" "ys ! i = y" using assms(3) by (auto simp: in_set_conv_nth)
  show ?thesis
  proof (cases "i = 0")
    case True
    then have "R (ys ! 0) (ys ! 1)" using assms(1,2) by (simp add: sorted_wrt_nth_less)
    then show ?thesis using True i(2) by auto
  next
    case False
    then have "R (ys ! 0) (ys ! i)" using assms(1) i(1) by (simp add: sorted_wrt_nth_less)
    then show ?thesis using i(2) by auto
  qed
qed

lemma strictly_sorted_unique:
  fixes f :: "'a \<Rightarrow> int"
  assumes "sorted_wrt (\<lambda>x y. f x < f y) xs" "sorted_wrt (\<lambda>x y. f x \<le> f y) ys" "mset ys = mset xs"
  shows "ys = xs"
proof -
  have s: "sorted (map f xs)" "sorted (map f ys)"
    using assms(1,2) by (auto simp: sorted_wrt_map intro: sorted_wrt_mono_rel[rotated])
  have "distinct (map f xs)"
    using assms(1) strict_sorted_iff[of "map f xs"] by (simp add: sorted_wrt_map)
  then have inj: "inj_on f (set xs)" by (simp add: distinct_map)
  have "mset (map f ys) = mset (map f xs)" using assms(3) by simp
  then have "map f ys = map f xs" using s properties_for_sort by metis
  then show ?thesis
    using inj mset_eq_setD[OF assms(3)] by (auto intro: map_inj_on)
qed

lemma item_frame:
  assumes "map lh_info (heads w') = map lh_info (heads w)" "x < length (heads w)"
  shows "lh_info (heads w' ! x) = lh_info (heads w ! x)"
  using assms by (metis length_map nth_map)

lemma core_bench_list_restores:
  assumes "list_ready w xs" "bench_ready w" "0 \<le> sint finder_idx \<or> 0 < sint (r_seed3 w)"
  shows "\<exists>ret w'. core_bench_list w finder_idx = Some (ret, w') \<and> heads w' = heads w
    \<and> (\<forall>x \<in> set xs. item w' x = item w x) \<and> complex_ext w (w'\<lparr>datas := datas w\<rparr>)
    \<and> list_ready w' xs \<and> bench_ready w'"
proof -
  note r = assms(1)[unfolded list_ready_def]
  obtain ret w2 w' where b: "core_bench_list w finder_idx = Some (ret, w')" "complex_ext w w2" "idx_ext w2 w'"
    "resorted w xs w'"
    using core_bench_list_result[of w xs finder_idx] r assms(2,3) by blast
  obtain p ys where y: "lseg (heads w') p ys None" "mset ys = mset xs"
    "sorted_wrt (\<lambda>x y. idx_le w' (lh_info (heads w' ! x)) (lh_info (heads w' ! y))) ys"
    "frame (set xs) (heads w) (heads w')" using b(4) by (auto simp: resorted_def)
  have ys: "set ys = set xs" "length ys = length xs" using mset_eq_setD[OF y(2)] mset_eq_length[OF y(2)] by auto
  have info: "lh_info (heads w' ! x) = lh_info (heads w ! x)" "lh_info (heads w ! x) < length (datas w)"
    if "x \<in> set xs" for x
    using item_frame[OF frame_infos[OF y(4)], of x] r that by (auto simp: items_in_def)
  have item': "item w' x = item w x" if x: "x \<in> set xs" for x
  proof -
    obtain z where "idx_le w' (lh_info (heads w' ! x)) z \<or> idx_le w' z (lh_info (heads w' ! x))"
      using sorted_pair_member[OF y(3), of x] ys r x by auto
    then have g: "regen (ld_data16 (item w' x)) = ld_data16 (item w' x)" by (auto simp: idx_le_def item_def)
    let ?i = "lh_info (heads w ! x)"
    have "cache_item (datas w ! ?i) (datas w2 ! ?i)"
      using list_all2_nthD[OF complex_ext_items[OF b(2)]] info(2)[OF x] by blast
    moreover have "regen_item (datas w2 ! ?i) (datas w' ! ?i)"
      using b(3) info(2)[OF x] complex_ext_length[OF b(2)] by (auto simp: idx_ext_def list_all2_conv_all_nth)
    moreover have "regen (ld_data16 (datas w ! ?i)) = ld_data16 (datas w ! ?i)" using r x by (simp add: item_def)
    ultimately show ?thesis using restored_item g info(1)[OF x] unfolding item_def by metis
  qed
  have "sorted_wrt (\<lambda>x y. sint (ld_idx (item w x)) \<le> sint (ld_idx (item w y))) ys"
    using y(3) by (rule sorted_wrt_mono_rel[rotated]) (use item' ys in \<open>auto simp: idx_le_def item_def\<close>)
  then have "ys = xs" using strictly_sorted_unique[of "\<lambda>x. sint (ld_idx (item w x))" xs ys] r y(2) by blast
  then have h: "heads w' = heads w" "p = r_list w" using lseg_unique[OF _ _ y(4)] y(1) r by auto
  have len: "length (datas w') = length (datas w)"
    using b(2,3) complex_ext_length by (auto simp: idx_ext_def dest: list_all2_lengthD)
  obtain hs ds where w': "w' = w2\<lparr>heads := hs, datas := ds\<rparr>"
    using b(3) unfolding idx_ext_def by (cases w'; cases w2) auto
  obtain C where C: "mats w2 = (mats w)\<lparr>mat_C := C\<rparr>" "length C = length (mat_C (mats w))"
    using b(2) by (auto simp: complex_ext_def)
  have "complex_ext w (w'\<lparr>datas := datas w\<rparr>)"
    by (rule complex_ext_fields[where C = C])
      (use b(2) w' C in \<open>auto simp: complex_ext_def list_all2_refl\<close>)
  moreover from this have "bench_ready (w'\<lparr>datas := datas w\<rparr>)" "r_list w' = r_list w"
    using complex_ext_ready assms(2) complex_ext_inputs by (blast, fastforce)
  moreover have "list_ready w' xs"
    using r h(1) item' len \<open>r_list w' = r_list w\<close>
    by (auto simp: list_ready_def items_in_def intro: sorted_wrt_mono_rel[rotated])
  ultimately show ?thesis using b(1) h(1) item' by (auto simp: bench_ready_def)
qed

section \<open>Properties\<close>

text \<open>A list of three cells, for the concrete instances.\<close>

definition demo :: core_results where
  "demo = \<lparr>r_seed1 = 0, r_seed2 = 0, r_seed3 = 2, r_memblock = [0, 0, 0, 0], r_size = 4, r_iterations = 1,
     r_execs = 7, r_list = Some 0, r_mat = \<lparr>p_N = 1, p_A = 0, p_B = 2, p_C = 4\<rparr>, r_crc = 0, r_crclist = 0,
     r_crcmatrix = 0, r_crcstate = 0, r_err = 0,
     heads = [\<lparr>lh_next = Some 1, lh_info = 0\<rparr>, \<lparr>lh_next = Some 2, lh_info = 1\<rparr>, \<lparr>lh_next = None, lh_info = 2\<rparr>],
     datas = [\<lparr>ld_data16 = 0x8080, ld_idx = 0\<rparr>, \<lparr>ld_data16 = 0x0101, ld_idx = 1\<rparr>,
       \<lparr>ld_data16 = 0xffff, ld_idx = 0x7fff\<rparr>],
     mats = \<lparr>mat_A = [3], mat_B = [4], mat_C = [0]\<rparr>, state_mem = [49, 50, 0, 0]\<rparr>"

lemma demo_fields [simp]:
  "heads demo = [\<lparr>lh_next = Some 1, lh_info = 0\<rparr>, \<lparr>lh_next = Some 2, lh_info = 1\<rparr>, \<lparr>lh_next = None, lh_info = 2\<rparr>]"
  "datas demo = [\<lparr>ld_data16 = 0x8080, ld_idx = 0\<rparr>, \<lparr>ld_data16 = 0x0101, ld_idx = 1\<rparr>,
       \<lparr>ld_data16 = 0xffff, ld_idx = 0x7fff\<rparr>]"
  "r_list demo = Some 0" "r_seed3 demo = 2"
  by (simp_all add: demo_def)

lemma demo_ready: "bench_ready demo"
proof -
  have "grid 1 1" "fits 1 (mats demo)" by (simp_all add: grid_def fits_def demo_def)
  then show ?thesis by (auto simp: bench_ready_def terminated_def demo_def)
qed

lemma demo_list:
  "lseg (heads demo) (Some 0) [0, 1, 2] None" "items_in demo [0, 1, 2]" "list_ready demo [0, 1, 2]"
  by (simp_all add: list_ready_def item_def regen_def)

text \<open>C6: Sorting by index returns on every non-empty list, and returns the same cells, linked in
  increasing order of their indices; the cells keep their items, and only the cells of the list
  are relinked.\<close>

theorem list_sort_by_index:
  assumes "lseg (heads w) p xs None" "distinct xs" "xs \<noteq> []" "length xs < 2 ^ 31" "items_in w xs"
  shows "\<exists>p' w' ys. core_list_mergesort p (cmp_idx True) w = Some (p', w')
    \<and> lseg (heads w') p' ys None \<and> mset ys = mset xs
    \<and> sorted_wrt (\<lambda>x y. sint (ld_idx (item w' x)) \<le> sint (ld_idx (item w' y))) ys
    \<and> frame (set xs) (heads w) (heads w')"
proof -
  have "\<forall>x \<in> set xs. lh_info (heads w ! x) < length (datas w)" using assms(5) by (simp add: items_in_def)
  then obtain p' w' ys where r: "core_list_mergesort p (cmp_idx True) w = Some (p', w')"
    "lseg (heads w') p' ys None" "mset ys = mset xs" "frame (set xs) (heads w) (heads w')"
    "sorted_wrt (\<lambda>x y. idx_le w' (lh_info (heads w' ! x)) (lh_info (heads w' ! y))) ys"
    using by_idx.mergesort_result[OF refl assms(1-4)] by blast
  have "sorted_wrt (\<lambda>x y. sint (ld_idx (item w' x)) \<le> sint (ld_idx (item w' y))) ys"
    using r(5) by (rule sorted_wrt_mono_rel[rotated]) (simp add: idx_le_def item_def)
  with r show ?thesis by blast
qed

theorem list_sort_by_index_witness:
  "\<exists>p' w' ys. core_list_mergesort (Some 0) (cmp_idx True) demo = Some (p', w')
    \<and> lseg (heads w') p' ys None \<and> mset ys = mset [0, 1, 2]
    \<and> sorted_wrt (\<lambda>x y. sint (ld_idx (item w' x)) \<le> sint (ld_idx (item w' y))) ys
    \<and> frame (set [0, 1, 2]) (heads demo) (heads w')"
  by (rule list_sort_by_index) (use demo_list in simp_all)

text \<open>C5: Sorting by value returns on a list of at least two items whose computations are
  defined, although the comparison runs the other two benchmarks: the same cells come back with
  every value cached and in increasing order of the cached values; the inputs of the results
  structure are not changed.\<close>

theorem list_sort_by_value:
  assumes "lseg (heads w) p xs None" "distinct xs" "2 \<le> length xs" "length xs < 2 ^ 31" "items_in w xs"
    "bench_ready w"
  shows "\<exists>p' w' ys. core_list_mergesort p cmp_complex w = Some (p', w')
    \<and> lseg (heads w') p' ys None \<and> mset ys = mset xs
    \<and> sorted_wrt (\<lambda>x y. sint (cached_value (item w' x)) \<le> sint (cached_value (item w' y))) ys
    \<and> (\<forall>x \<in> set ys. cached (item w' x)) \<and> complex_ext w w'"
proof -
  have "\<forall>x \<in> set xs. lh_info (heads w ! x) < length (datas w)" "xs \<noteq> []"
    using assms(3,5) by (auto simp: items_in_def)
  then obtain p' w' ys where r: "core_list_mergesort p cmp_complex w = Some (p', w')"
    "lseg (heads w') p' ys None" "mset ys = mset xs" "complex_ext w w'"
    "sorted_wrt (\<lambda>x y. complex_le w' (lh_info (heads w' ! x)) (lh_info (heads w' ! y))) ys"
    using by_value.mergesort_result[OF _ assms(1,2) _ assms(4)] assms(6) by blast
  have "sorted_wrt (\<lambda>x y. sint (cached_value (item w' x)) \<le> sint (cached_value (item w' y))) ys"
    using r(5) by (rule sorted_wrt_mono_rel[rotated]) (simp add: complex_le_def item_def)
  moreover have "cached (item w' x)" if "x \<in> set ys" for x
    using sorted_pair_member[OF r(5) _ that] mset_eq_length[OF r(3)] assms(3)
    by (auto simp: complex_le_def item_def)
  ultimately show ?thesis using r by blast
qed

theorem list_sort_by_value_witness:
  "\<exists>p' w' ys. core_list_mergesort (Some 0) cmp_complex demo = Some (p', w')
    \<and> lseg (heads w') p' ys None \<and> mset ys = mset [0, 1, 2]
    \<and> sorted_wrt (\<lambda>x y. sint (cached_value (item w' x)) \<le> sint (cached_value (item w' y))) ys
    \<and> (\<forall>x \<in> set ys. cached (item w' x)) \<and> complex_ext demo w'"
  by (rule list_sort_by_value) (use demo_list demo_ready in simp_all)

text \<open>C1: The list benchmark returns and restores its input, for any number of finds: all the
  reversals, moves, removals and the two sorts cancel, so that every link of the block is as
  before and every item of the list has its data and index again; it can run again from the
  state it leaves.\<close>

theorem list_bench_restores:
  assumes "list_ready w xs" "bench_ready w" "0 \<le> sint finder_idx \<or> 0 < sint (r_seed3 w)"
  shows "\<exists>ret w'. core_bench_list w finder_idx = Some (ret, w') \<and> heads w' = heads w
    \<and> (\<forall>x \<in> set xs. item w' x = item w x) \<and> complex_ext w (w'\<lparr>datas := datas w\<rparr>)
    \<and> list_ready w' xs \<and> bench_ready w'"
  by (rule core_bench_list_restores[OF assms])

theorem list_bench_restores_witness:
  "\<exists>ret w'. core_bench_list demo 1 = Some (ret, w') \<and> heads w' = heads demo
    \<and> (\<forall>x \<in> set [0, 1, 2]. item w' x = item demo x) \<and> complex_ext demo (w'\<lparr>datas := datas demo\<rparr>)
    \<and> list_ready w' [0, 1, 2] \<and> bench_ready w'"
  by (rule list_bench_restores) (use demo_list demo_ready in simp_all)

text \<open>C29: \<open>core_list_reverse\<close> links the cells of the list in the reverse order, without touching
  their items or any other cell.\<close>

theorem list_reverse_rev:
  assumes "lseg (heads w) p xs None" "distinct xs"
  shows "\<exists>p' hs. core_list_reverse p w = Some (p', w\<lparr>heads := hs\<rparr>) \<and> lseg hs p' (rev xs) None
    \<and> frame (set xs) (heads w) hs"
  by (rule core_list_reverse_result[OF assms])

theorem list_reverse_rev_witness:
  "\<exists>p' hs. core_list_reverse (Some 0) demo = Some (p', demo\<lparr>heads := hs\<rparr>) \<and> lseg hs p' (rev [0, 1, 2]) None
    \<and> frame (set [0, 1, 2]) (heads demo) hs"
  by (rule list_reverse_rev) (use demo_list in simp_all)

text \<open>\<open>core_list_find\<close> returns the first cell of the list whose index is the one asked for, or,
  for a negative index, whose low data byte is; NULL when there is none.\<close>

theorem list_find_first:
  assumes "lseg (heads w) p xs None" "items_in w xs"
  shows "core_list_find p i (Some d) w = Some
    (List.find (\<lambda>x. if 0 \<le> sint i then ld_idx (item w x) = i else ld_data16 (item w x) AND 0xff = d) xs)"
  using core_list_find_result[OF assms, of i d] by (auto simp: find_cell_def)

theorem list_find_first_witness:
  "core_list_find (Some 0) (- 1) (Some 1) demo = Some
    (List.find (\<lambda>x. if 0 \<le> sint (- 1 :: ee_s16) then ld_idx (item demo x) = - 1
      else ld_data16 (item demo x) AND 0xff = 1) [0, 1, 2])"
  by (rule list_find_first) (use demo_list in simp_all)

text \<open>C23: Removing a cell and undoing it is the identity on the whole store; in between, the list
  is without the removed cell and the item of the removed one is in it.\<close>

theorem list_remove_undo:
  assumes "lseg (heads w) p (x # y # zs) None" "distinct (x # y # zs)"
  shows "\<exists>w'. core_list_remove (Some x) w = Some (Some y, w') \<and> lseg (heads w') (Some x) (x # zs) None
    \<and> lh_info (heads w' ! x) = lh_info (heads w ! y) \<and> lh_info (heads w' ! y) = lh_info (heads w ! x)
    \<and> core_list_undo_remove (Some y) (Some x) w' = Some (Some y, w)"
proof -
  have l: "x < length (heads w)" "lh_next (heads w ! x) = Some y" "y < length (heads w)" "x \<noteq> y"
    using assms by auto
  show ?thesis
    by (rule exI[of _ "w\<lparr>heads := remove_links x y (heads w)\<rparr>"])
      (use core_list_remove_result[OF l] core_list_undo_remove_result[OF l] remove_links_lseg[OF assms] l
        in \<open>simp add: remove_links_def\<close>)
qed

theorem list_remove_undo_witness:
  "\<exists>w'. core_list_remove (Some 0) demo = Some (Some 1, w') \<and> lseg (heads w') (Some 0) (0 # [2]) None
    \<and> lh_info (heads w' ! 0) = lh_info (heads demo ! 1) \<and> lh_info (heads w' ! 1) = lh_info (heads demo ! 0)
    \<and> core_list_undo_remove (Some 1) (Some 0) w' = Some (Some 1, demo)"
  by (rule list_remove_undo) (use demo_list in simp_all)

text \<open>The value of an item is computed once: a second call of \<open>calc_func\<close> on the same item
  returns the cached value and changes nothing.\<close>

theorem calc_func_caches:
  assumes "bench_ready w" "a < length (datas w)"
  shows "\<exists>v w'. calc_func a w = Some (v, w') \<and> calc_func a w' = Some (v, w')"
proof -
  obtain w' where r: "calc_func a w = Some (cached_value (datas w' ! a), w')" "complex_ext w w'"
    "cached (datas w' ! a)" using calc_func_result[OF assms] by blast
  have "bench_ready w'" "a < length (datas w')"
    using complex_ext_ready[OF r(2)] complex_ext_length[OF r(2)] assms by auto
  then have "calc_func a w' = Some (cached_value (datas w' ! a), w')"
    using r(3) cached_test by (auto simp: calc_func_def cached_def cached_value_def)
  with r(1) show ?thesis by blast
qed

theorem calc_func_caches_witness:
  "\<exists>v w'. calc_func 1 demo = Some (v, w') \<and> calc_func 1 w' = Some (v, w')"
  by (rule calc_func_caches) (use demo_ready in simp_all)

text \<open>The sort is not defined on the empty list, although its last test allows for no merges:
  the end of the list is written through a tail that no merge has set.\<close>

theorem list_sort_empty: "core_list_mergesort None cmp w = None"
proof -
  have "pass_loop cmp 1 None None None 0 w = Some (None, None, 0, w)" by (subst pass_loop.simps) simp
  then show ?thesis unfolding core_list_mergesort_def by (subst sort_loop.simps) simp
qed

end
