(* ===== verification/Comp1.thy ===== *)
theory Comp1
  imports Prelude
begin

text \<open>
  \<open>comp1.c\<close>: the branch-prediction program.  Its two kernels rebuild a byte and the mask of its
  trailing ones from chains of branches, its tests compare them with closed forms, and a
  recursive \<open>fib\<close> exercises calls.  Signed overflow is undefined (\<^term>\<open>None\<close>).
\<close>

section \<open>Kernels\<close>

definition uncorrelated_branches_kernel :: "8 word \<Rightarrow> 32 word" where
  "uncorrelated_branches_kernel test =
     (let out0 = 0 :: 8 word;
          out1 = (if test AND 0x01 \<noteq> 0 then out0 OR 0x01 else out0);
          out2 = (if test AND 0x02 \<noteq> 0 then out1 OR 0x02 else out1);
          out3 = (if test AND 0x04 \<noteq> 0 then out2 OR 0x04 else out2);
          out4 = (if test AND 0x08 \<noteq> 0 then out3 OR 0x08 else out3);
          out5 = (if test AND 0x10 \<noteq> 0 then out4 OR 0x10 else out4);
          out6 = (if test AND 0x20 \<noteq> 0 then out5 OR 0x20 else out5);
          out7 = (if test AND 0x40 \<noteq> 0 then out6 OR 0x40 else out6);
          out8 = (if test AND 0x80 \<noteq> 0 then out7 OR 0x80 else out7)
      in ucast out8)"

definition correlated_branches_kernel :: "8 word \<Rightarrow> 32 word" where
  "correlated_branches_kernel test =
     (let out0 = 0 :: 8 word;
          out1 = (if test AND 0x01 \<noteq> 0 then out0 OR 0x01 else out0);
          out2 = (if test AND 0x03 = 0x03 then out1 OR 0x03 else out1);
          out3 = (if test AND 0x07 = 0x07 then out2 OR 0x07 else out2);
          out4 = (if test AND 0x0F = 0x0F then out3 OR 0x0F else out3);
          out5 = (if test AND 0x1F = 0x1F then out4 OR 0x1F else out4);
          out6 = (if test AND 0x3F = 0x3F then out5 OR 0x3F else out5);
          out7 = (if test AND 0x7F = 0x7F then out6 OR 0x7F else out6);
          out8 = (if test AND 0xFF = 0xFF then out7 OR 0xFF else out7)
      in ucast out8)"

section \<open>Tests\<close>

text \<open>\<open>for (test = 0; test < 255; test++)\<close> with the early return on a failed check.\<close>

function test_loop :: "(8 word \<Rightarrow> bool) \<Rightarrow> 8 word \<Rightarrow> 32 word" where
  "test_loop check test =
     (if test < 255 then (if \<not> check test then 1 else test_loop check (test + 1)) else 0)"
  by pat_completeness auto
termination
  by (relation "measure (\<lambda>(check, test). 255 - unat test)")
    (auto simp: unat_add_1[of _ 255] word_less_nat_alt)

declare test_loop.simps [simp del, loop_simps]

definition golden_mask :: "8 word \<Rightarrow> 8 word" where
  "golden_mask test = (let golden = NOT test AND (test + 1) in golden - 1)"

definition test_uncorrelated_branches :: "32 word" where
  "test_uncorrelated_branches =
     test_loop (\<lambda>test. ucast (uncorrelated_branches_kernel test) = test) 0"

definition test_correlated_branches :: "32 word" where
  "test_correlated_branches =
     test_loop (\<lambda>test. ucast (correlated_branches_kernel test) = golden_mask test) 0"

definition test_mixed :: "32 word" where
  "test_mixed =
     test_loop (\<lambda>test. \<not> (ucast (uncorrelated_branches_kernel test) \<noteq> test
        \<or> ucast (correlated_branches_kernel test) \<noteq> golden_mask test)) 0"

text \<open>The sum of the two calls is a signed 32-bit addition.\<close>

function fib :: "int \<Rightarrow> int option" where
  "fib n =
     (if n \<le> 1 then Some n
      else do {
        a \<leftarrow> fib (n - 1);
        b \<leftarrow> fib (n - 2);
        if a + b < 2 ^ 31 then Some (a + b) else None
      })"
  by pat_completeness auto
termination by (relation "measure nat") auto

declare fib.simps [simp del]

definition test_function_call :: "32 word option" where
  "test_function_call = do { r \<leftarrow> fib 12; Some 0 }"

text \<open>The value that \<open>main\<close> leaves in its status register.\<close>

definition comp1_main :: "32 word option" where
  "comp1_main =
     do {
       let error1 = 0 OR test_uncorrelated_branches;
       let error2 = error1 OR test_correlated_branches;
       let error3 = error2 OR test_mixed;
       e \<leftarrow> test_function_call;
       let error = error3 OR e;
       Some (if error \<noteq> 0 then 0x00BADBAD else 0x600D600D)
     }"

section \<open>The closed forms\<close>

lemma all_less_8: "(\<forall>n<8. P n) \<longleftrightarrow> P 0 \<and> P 1 \<and> P 2 \<and> P 3 \<and> P 4 \<and> P 5 \<and> P 6 \<and> P (7::nat)"
  by (simp add: All_less_Suc eval_nat_numeral, blast)

lemma word8_eqI: "\<forall>n<8. bit a n = bit b n \<Longrightarrow> a = (b :: 8 word)"
  by (rule bit_word_eqI) simp

lemma and_bit_8:
  "test AND 0x01 \<noteq> 0 \<longleftrightarrow> bit (test :: 8 word) 0" "test AND 0x02 \<noteq> 0 \<longleftrightarrow> bit test 1"
  "test AND 0x04 \<noteq> 0 \<longleftrightarrow> bit test 2" "test AND 0x08 \<noteq> 0 \<longleftrightarrow> bit test 3"
  "test AND 0x10 \<noteq> 0 \<longleftrightarrow> bit test 4" "test AND 0x20 \<noteq> 0 \<longleftrightarrow> bit test 5"
  "test AND 0x40 \<noteq> 0 \<longleftrightarrow> bit test 6" "test AND 0x80 \<noteq> 0 \<longleftrightarrow> bit test 7"
  using and_exp_eq_0_iff_not_bit[of test 0] and_exp_eq_0_iff_not_bit[of test 1]
    and_exp_eq_0_iff_not_bit[of test 2] and_exp_eq_0_iff_not_bit[of test 3]
    and_exp_eq_0_iff_not_bit[of test 4] and_exp_eq_0_iff_not_bit[of test 5]
    and_exp_eq_0_iff_not_bit[of test 6] and_exp_eq_0_iff_not_bit[of test 7]
  by simp_all

lemma or_if: "(if b then x OR m else x) = x OR (if b then m else 0 :: 8 word)"
  by simp

lemma ucast_8_32 [simp]: "ucast (ucast t :: 32 word) = (t :: 8 word)"
  by (rule bit_word_eqI) (simp add: bit_simps)

lemma uncorrelated_result: "uncorrelated_branches_kernel test = ucast test"
proof -
  have "(if bit test 0 then 1 else 0) OR (if bit test 1 then 2 else 0) OR (if bit test 2 then 4 else 0)
      OR (if bit test 3 then 8 else 0) OR (if bit test 4 then 16 else 0) OR (if bit test 5 then 32 else 0)
      OR (if bit test 6 then 64 else 0) OR (if bit test 7 then 128 else 0) = test"
    by (rule word8_eqI) (simp add: all_less_8 bit_simps)
  then show ?thesis
    unfolding uncorrelated_branches_kernel_def Let_def and_bit_8 or_if by (simp add: or.assoc)
qed

lemma byte_enum: "list_all P (map word_of_nat [0..<256]) \<Longrightarrow> P (t :: 8 word)"
proof -
  assume "list_all P (map word_of_nat [0..<256])"
  moreover have "unat t < 256" using unsigned_less[of t] by simp
  ultimately have "unat t \<in> {0..<256}" "\<forall>x \<in> {0..<256}. P (word_of_nat x)" by (auto simp: list_all_iff)
  then have "P (word_of_nat (unat t))" by (rule bspec[rotated])
  then show ?thesis by simp
qed

lemma correlated_table:
  "list_all (\<lambda>t. ucast (correlated_branches_kernel t) = golden_mask t) (map word_of_nat [0..<256])"
  by code_simp

lemma correlated_result: "ucast (correlated_branches_kernel t) = golden_mask t"
  by (rule byte_enum[OF correlated_table])

lemma test_loop_passes:
  assumes "\<And>t. check t"
  shows "test_loop check test = 0"
proof (induction "255 - unat test" arbitrary: test rule: less_induct)
  case less
  show ?case
  proof (cases "test < 255")
    case True
    then have "255 - unat (test + 1) < 255 - unat test"
      using unat_add_1[OF True] by (simp add: word_less_nat_alt)
    then show ?thesis using less True assms by (subst test_loop.simps) simp
  next
    case False
    then show ?thesis by (subst test_loop.simps) simp
  qed
qed

section \<open>Fibonacci numbers\<close>

text \<open>The reference: two running values.\<close>

primrec fib_pair :: "nat \<Rightarrow> nat \<times> nat" where
  "fib_pair 0 = (0, 1)"
| "fib_pair (Suc n) = (case fib_pair n of (a, b) \<Rightarrow> (b, a + b))"

definition fibonacci :: "nat \<Rightarrow> nat" where
  "fibonacci n = fst (fib_pair n)"

lemma fib_pair_numeral: "fib_pair (numeral k) = (case fib_pair (pred_numeral k) of (a, b) \<Rightarrow> (b, a + b))"
  by (simp add: numeral_eq_Suc)

lemma fibonacci_simps: "fibonacci 0 = 0" "fibonacci (Suc 0) = 1" "fibonacci (Suc (Suc n)) = fibonacci n + fibonacci (Suc n)"
  by (simp_all add: fibonacci_def split: prod.splits)

lemma fibonacci_mono: "m \<le> n \<Longrightarrow> fibonacci m \<le> fibonacci n"
proof (induction n rule: dec_induct)
  case (step n)
  have "fibonacci n \<le> fibonacci (Suc n)" by (cases n) (simp_all add: fibonacci_simps)
  with step show ?case by simp
qed simp

lemma fib_result:
  assumes "fibonacci n < 2 ^ 31"
  shows "fib (int n) = Some (int (fibonacci n))"
  using assms
proof (induction n rule: less_induct)
  case (less n)
  show ?case
  proof (cases "n \<le> 1")
    case True
    then have "n = 0 \<or> n = 1" by auto
    then show ?thesis by (subst fib.simps) (auto simp: fibonacci_simps)
  next
    case False
    then obtain k where n: "n = Suc (Suc k)" by (metis One_nat_def Suc_leI not_less_eq_eq old.nat.exhaust zero_le)
    have s: "int n - 1 = int (Suc k)" "int n - 2 = int k" using n by simp_all
    have "fibonacci (Suc k) \<le> fibonacci n" "fibonacci k \<le> fibonacci n" using n by (auto intro!: fibonacci_mono)
    then have "fib (int n - 1) = Some (int (fibonacci (Suc k)))" "fib (int n - 2) = Some (int (fibonacci k))"
      unfolding s using less n by (intro less.IH; simp)+
    moreover have "int (fibonacci (Suc k)) + int (fibonacci k) = int (fibonacci n)" using n by (simp add: fibonacci_simps)
    ultimately show ?thesis using False less.prems by (subst fib.simps) simp
  qed
qed

section \<open>Properties\<close>

text \<open>The chain of independent branches rebuilds its argument, and the chain of correlated
  branches computes the mask of the trailing ones that the test derives arithmetically, for every
  byte.\<close>

theorem branch_kernels:
  "ucast (uncorrelated_branches_kernel t) = t \<and> ucast (correlated_branches_kernel t) = golden_mask t"
  by (simp add: uncorrelated_result correlated_result)

text \<open>The recursive \<open>fib\<close> returns the Fibonacci number of its argument whenever that number
  fits a signed word.\<close>

theorem fib_fibonacci:
  assumes "fibonacci n < 2 ^ 31"
  shows "fib (int n) = Some (int (fibonacci n))"
  by (rule fib_result[OF assms])

theorem fib_fibonacci_witness: "fib (int 14) = Some (int (fibonacci 14))"
  by (rule fib_fibonacci) (simp add: fibonacci_def fib_pair_numeral)

text \<open>C37: The branch program ends with its success code.\<close>

theorem comp1_passes: "comp1_main = Some 0x600D600D"
proof -
  have "test_uncorrelated_branches = 0" "test_correlated_branches = 0" "test_mixed = 0"
    unfolding test_uncorrelated_branches_def test_correlated_branches_def test_mixed_def
    by ((rule test_loop_passes, simp add: uncorrelated_result correlated_result)+)
  moreover have "fib (int 12) = Some (int (fibonacci 12))"
    by (rule fib_result) (simp add: fibonacci_def fib_pair_numeral)
  ultimately show ?thesis by (simp add: comp1_main_def test_function_call_def)
qed

end
