(* ===== verification/Comp2.thy ===== *)
theory Comp2
  imports Prelude "HOL-Library.Signed_Division"
begin

text \<open>
  \<open>comp2.c\<close>: the least common multiples of the rows of a generated matrix.  \<open>int\<close> and
  \<open>long long\<close> values are integers in their ranges; a signed overflow or a division by zero is
  undefined (\<^term>\<open>None\<close>), and passing a \<open>long long\<close> to an \<open>int\<close> parameter truncates it.
\<close>

section \<open>Signed arithmetic\<close>

definition int64 :: "int \<Rightarrow> int option" where
  "int64 x = (if - (2 ^ 63) \<le> x \<and> x < 2 ^ 63 then Some x else None)"

definition to_int :: "int \<Rightarrow> int" where
  "to_int x = sint (word_of_int x :: 32 word)"

definition c_div :: "int \<Rightarrow> int \<Rightarrow> int option" where
  "c_div a b = (if b = 0 then None else int32 (a sdiv b))"

definition c_mod :: "int \<Rightarrow> int \<Rightarrow> int option" where
  "c_mod a b = (if b = 0 then None else do { q \<leftarrow> int32 (a sdiv b); Some (a smod b) })"

section \<open>The program\<close>

lemma c_mod_decreases: "b \<noteq> 0 \<Longrightarrow> c_mod a b = Some r \<Longrightarrow> \<bar>r\<bar> < \<bar>b\<bar>"
proof -
  assume "b \<noteq> 0" "c_mod a b = Some r"
  then have "r = a smod b" by (auto simp: c_mod_def bind_eq_Some_conv)
  moreover have "\<bar>a smod b\<bar> \<le> \<bar>a\<bar> mod \<bar>b\<bar>"
    using \<open>b \<noteq> 0\<close> by (cases "a = 0") (simp_all add: smod_int_alt_def abs_mult abs_sgn_eq)
  moreover have "\<bar>a\<bar> mod \<bar>b\<bar> < \<bar>b\<bar>" using \<open>b \<noteq> 0\<close> by simp
  ultimately show ?thesis by simp
qed

text \<open>\<open>while (a != 0 && b != 0)\<close>.\<close>

function gcd_loop :: "int \<Rightarrow> int \<Rightarrow> (int \<times> int) option" where
  "gcd_loop a b =
     (if a \<noteq> 0 \<and> b \<noteq> 0 then do { rem \<leftarrow> c_mod a b; gcd_loop b rem } else Some (a, b))"
  by pat_completeness auto
termination by (relation "measure (\<lambda>(a, b). nat \<bar>b\<bar>)") (use c_mod_decreases in auto)

declare gcd_loop.simps [simp del, loop_simps]

definition gcd_c :: "int \<Rightarrow> int \<Rightarrow> int option" where
  "gcd_c a b =
     (if a = 0 \<and> b = 0 then Some 1
      else do {
        let (a1, b1) = (if a < b then (b, a) else (a, b));
        (a2, b2) \<leftarrow> gcd_loop a1 b1;
        Some (if a2 \<noteq> 0 then a2 else b2)
      })"

definition lcm_c :: "int \<Rightarrow> int \<Rightarrow> int option" where
  "lcm_c a b = do { g \<leftarrow> gcd_c a b; q \<leftarrow> c_div b g; int64 (a * q) }"

text \<open>\<open>iter(arr, n)\<close>, with \<open>arr\<close> the row from its first element on; \<open>curr\<close> is a \<open>long long\<close>.\<close>

definition iter_c :: "int list \<Rightarrow> int \<Rightarrow> int option" where
  "iter_c arr n =
     (if n = 0 then Some (- 1)
      else do {
        curr \<leftarrow> rd arr 0;
        for_count (\<lambda>i curr. do { x \<leftarrow> rd arr i; lcm_c (to_int curr) x }) 1 (nat (n - 1)) curr
      })"

definition N_comp2 :: nat where "N_comp2 = 12"
definition EXPECTED :: "64 word" where "EXPECTED = 77385916320"

text \<open>The matrix row by row, filled from its first element.\<close>

definition fill_nums :: "int list \<Rightarrow> int list option" where
  "fill_nums nums =
     do {
       nums0 \<leftarrow> wr nums 0 60;
       for_count (\<lambda>i nums. do {
         x \<leftarrow> rd nums (i - 1);
         y \<leftarrow> int32 (7 * x);
         z \<leftarrow> int32 (y + 29);
         r \<leftarrow> c_mod z 41;
         wr nums i r
       }) 1 (N_comp2 * N_comp2 - 1) nums0
     }"

definition comp2_main :: "int list \<Rightarrow> 32 word option" where
  "comp2_main nums0 =
     do {
       nums \<leftarrow> fill_nums nums0;
       lcms \<leftarrow> for_count (\<lambda>i lcms. do {
           l \<leftarrow> iter_c (take N_comp2 (drop (i * N_comp2) nums)) (int N_comp2);
           wr lcms i (word_of_int l :: 64 word)
         }) 0 N_comp2 (replicate N_comp2 0);
       sum \<leftarrow> for_count (\<lambda>i sum. do {
           l \<leftarrow> rd lcms i;
           Some (sum + of_nat (i + 1) * l)
         }) 0 N_comp2 0;
       Some (if sum = EXPECTED then 0x600d600d else 0x0badc0de)
     }"

section \<open>Correctness of the arithmetic\<close>

lemma div_le_self_int: "0 \<le> a \<Longrightarrow> 0 < b \<Longrightarrow> a div b \<le> (a :: int)"
  using zdiv_mono2[of a 1 b] by simp

lemma sdiv_nonneg: "0 \<le> a \<Longrightarrow> 0 < b \<Longrightarrow> a sdiv b = a div (b :: int)"
  by (cases "a = 0") (simp_all add: signed_divide_int_def)

lemma smod_nonneg: "0 \<le> a \<Longrightarrow> 0 < b \<Longrightarrow> a smod b = a mod (b :: int)"
  by (cases "a = 0") (simp_all add: smod_int_alt_def)

lemma c_mod_result: "0 \<le> a \<Longrightarrow> a < 2 ^ 31 \<Longrightarrow> 0 < b \<Longrightarrow> c_mod a b = Some (a mod b)"
  using div_le_self_int[of a b] by (simp add: c_mod_def sdiv_nonneg smod_nonneg pos_imp_zdiv_nonneg_iff)

lemma c_div_result: "0 \<le> a \<Longrightarrow> a < 2 ^ 31 \<Longrightarrow> 0 < b \<Longrightarrow> c_div a b = Some (a div b)"
  using div_le_self_int[of a b] by (simp add: c_div_def sdiv_nonneg pos_imp_zdiv_nonneg_iff)

lemma gcd_loop_result:
  assumes "0 \<le> a" "a < 2 ^ 31" "0 \<le> b" "b < 2 ^ 31"
  shows "\<exists>x y. gcd_loop a b = Some (x, y) \<and> (if x \<noteq> 0 then x else y) = gcd a b"
  using assms
proof (induction "nat b" arbitrary: a b rule: less_induct)
  case less
  show ?case
  proof (cases "a \<noteq> 0 \<and> b \<noteq> 0")
    case True
    then have m: "c_mod a b = Some (a mod b)" "0 \<le> a mod b" "a mod b < b"
      using c_mod_result less.prems by auto
    have "\<exists>x y. gcd_loop b (a mod b) = Some (x, y) \<and> (if x \<noteq> 0 then x else y) = gcd b (a mod b)"
      by (rule less.hyps) (use m less.prems in auto)
    then show ?thesis using True m(1) by (subst gcd_loop.simps) (simp add: gcd_red_int[symmetric])
  next
    case False
    then show ?thesis using less.prems by (subst gcd_loop.simps) auto
  qed
qed

lemma gcd_c_result:
  assumes "0 \<le> a" "a < 2 ^ 31" "0 \<le> b" "b < 2 ^ 31"
  shows "gcd_c a b = Some (if a = 0 \<and> b = 0 then 1 else gcd a b)"
  using gcd_loop_result[OF assms] gcd_loop_result[OF assms(3,4,1,2)]
  by (auto simp: gcd_c_def gcd.commute)

lemma lcm_c_result:
  assumes "0 \<le> a" "a < 2 ^ 31" "0 \<le> b" "b < 2 ^ 31"
  shows "lcm_c a b = Some (lcm a b)"
proof (cases "a = 0 \<and> b = 0")
  case True
  then show ?thesis by (simp add: lcm_c_def gcd_c_def c_div_def int32_def int64_def)
next
  case False
  then have g: "0 < gcd a b" by (simp add: less_le)
  have q: "0 \<le> b div gcd a b" "b div gcd a b \<le> b"
    using g assms(3) div_le_self_int by (simp_all add: pos_imp_zdiv_nonneg_iff)
  have "a * (b div gcd a b) = lcm a b"
    using assms(1,3) lcm_altdef_int[of a b] by (simp add: div_mult_swap)
  moreover have "a * (b div gcd a b) \<le> 2 ^ 31 * 2 ^ 31" using assms q by (intro mult_mono) auto
  moreover have "- (2 ^ 63) \<le> lcm a b" by (rule order.trans[OF _ lcm_ge_0_int]) simp
  ultimately have "lcm a b = a * (b div gcd a b) \<and> int64 (a * (b div gcd a b)) = Some (a * (b div gcd a b))"
    by (simp add: int64_def)
  then show ?thesis using False assms g by (auto simp: lcm_c_def gcd_c_result c_div_result)
qed

lemma to_int_in: "0 \<le> x \<Longrightarrow> x < 2 ^ 31 \<Longrightarrow> to_int x = x"
  by (simp add: to_int_def signed_of_int signed_take_bit_int_eq_self)

lemma iter_result:
  assumes "1 \<le> n" "n \<le> length arr" "\<forall>x \<in> set arr. 0 \<le> x \<and> x < 2 ^ 31"
    "\<forall>i < n. Lcm (set (take i arr)) < 2 ^ 31"
  shows "iter_c arr (int n) = Some (Lcm (set (take n arr)))"
proof -
  have el: "0 \<le> arr ! i" "arr ! i < 2 ^ 31" if "i < n" for i using assms(2,3) that by (auto dest: nth_mem)
  have snoc: "Lcm (set (take (Suc i) arr)) = lcm (Lcm (set (take i arr))) (arr ! i)" if "i < n" for i
    using that assms(2) by (simp add: take_Suc_conv_app_nth lcm.commute)
  have "\<exists>s. for_count (\<lambda>i curr. do { x \<leftarrow> rd arr i; lcm_c (to_int curr) x }) 1 (n - 1) (arr ! 0) = Some s
      \<and> s = Lcm (set (take (1 + (n - 1)) arr))"
  proof (rule for_count_rule)
    fix j s assume j: "1 \<le> j" "j < 1 + (n - 1)" and s: "s = Lcm (set (take j arr))"
    have "j < n" using j assms(1) by simp
    then have "0 \<le> s" "s < 2 ^ 31" using assms(4) s by simp_all
    then have "to_int s = s" "lcm_c s (arr ! j) = Some (lcm s (arr ! j))"
      using el[OF \<open>j < n\<close>] by (simp_all add: to_int_in lcm_c_result)
    then show "\<exists>s'. (do { x \<leftarrow> rd arr j; lcm_c (to_int s) x }) = Some s' \<and> s' = Lcm (set (take (Suc j) arr))"
      using \<open>j < n\<close> assms(2) snoc s by simp
  next
    have "0 < n" using assms(1) by simp
    then show "arr ! 0 = Lcm (set (take 1 arr))" using snoc[of 0] el(1)[of 0] by simp
  qed
  moreover have "rd arr 0 = Some (arr ! 0)" using assms(1,2) by (cases arr) simp_all
  moreover have "nat (int n - 1) = n - 1" "1 + (n - 1) = n" using assms(1) by auto
  ultimately show ?thesis using assms(1) unfolding iter_c_def by simp
qed

lemma gcd_examples: "gcd 65537 (65539 :: int) = 1" "gcd 4 (6 :: int) = 2" "gcd 12 (10 :: int) = 2"
  by code_simp+

section \<open>The matrix\<close>

primrec num_seq :: "nat \<Rightarrow> int" where
  "num_seq 0 = 60"
| "num_seq (Suc k) = (7 * num_seq k + 29) mod 41"

lemma num_seq_range: "0 \<le> num_seq k \<and> num_seq k \<le> 60"
  by (cases k) (simp_all add: order.trans[OF less_imp_le[OF pos_mod_bound]])

lemma fill_nums_result:
  assumes "length nums = 144"
  shows "fill_nums nums = Some (map num_seq [0..<144])"
proof -
  let ?f = "\<lambda>i nums. do { x \<leftarrow> rd nums (i - 1); y \<leftarrow> int32 (7 * x); z \<leftarrow> int32 (y + 29); r \<leftarrow> c_mod z 41; wr nums i r }"
  have "\<exists>s. for_count ?f 1 143 (nums[0 := 60]) = Some s \<and> (length s = 144 \<and> (\<forall>k < 1 + 143. s ! k = num_seq k))"
  proof (rule for_count_rule)
    fix j s assume j: "1 \<le> j" "j < 1 + 143" and s: "length s = 144 \<and> (\<forall>k < j. s ! k = num_seq k)"
    obtain i where i: "j = Suc i" using j by (cases j) auto
    have "s ! i = num_seq i" using s i by simp
    then have "?f j s = Some (s[j := num_seq j])"
      using num_seq_range[of i] i j s by (simp add: c_mod_result)
    then show "\<exists>s'. ?f j s = Some s' \<and> (length s' = 144 \<and> (\<forall>k < Suc j. s' ! k = num_seq k))"
      using s j by (auto simp: nth_list_update less_Suc_eq)
  qed (use assms in simp)
  then obtain s where s: "for_count ?f 1 143 (nums[0 := 60]) = Some s" "length s = 144" "\<forall>k < 144. s ! k = num_seq k"
    by auto
  then have "s = map num_seq [0..<144]" by (intro nth_equalityI) simp_all
  moreover have "N_comp2 * N_comp2 - 1 = 143" "wr nums 0 60 = Some (nums[0 := 60])"
    using assms by (simp_all add: N_comp2_def)
  ultimately show ?thesis using s(1) unfolding fill_nums_def by simp
qed

lemma comp2_run: "comp2_main (replicate 144 0) = Some 0x600d600d"
  by code_simp

section \<open>Properties\<close>

text \<open>C36: \<open>gcd\<close> and \<open>lcm\<close> compute the greatest common divisor and the least common multiple of
  every pair of non-negative words, without overflow, with the convention that \<open>gcd\<close> of two
  zeros is one.\<close>

theorem gcd_lcm_correct:
  assumes "0 \<le> a" "a < 2 ^ 31" "0 \<le> b" "b < 2 ^ 31"
  shows "gcd_c a b = Some (if a = 0 \<and> b = 0 then 1 else gcd a b) \<and> lcm_c a b = Some (lcm a b)"
  using gcd_c_result[OF assms] lcm_c_result[OF assms] by blast

theorem gcd_lcm_correct_witness:
  "gcd_c 12 18 = Some (if 12 = (0 :: int) \<and> 18 = (0 :: int) then 1 else gcd 12 18) \<and> lcm_c 12 18 = Some (lcm 12 18)"
  by (rule gcd_lcm_correct) simp_all

text \<open>\<open>iter\<close> returns the least common multiple of the row, as long as the multiple of every
  proper prefix still fits an \<open>int\<close>; the last one may be larger.\<close>

theorem iter_is_lcm:
  assumes "1 \<le> n" "n \<le> length arr" "\<forall>x \<in> set arr. 0 \<le> x \<and> x < 2 ^ 31"
    "\<forall>i < n. Lcm (set (take i arr)) < 2 ^ 31"
  shows "iter_c arr (int n) = Some (Lcm (set (take n arr)))"
  by (rule iter_result[OF assms])

theorem iter_is_lcm_witness: "iter_c [4, 6, 10] (int 3) = Some (Lcm (set (take 3 [4, 6, 10])))"
  by (rule iter_is_lcm) (auto simp: less_Suc_eq numeral_3_eq_3 lcm_altdef_int gcd_examples)

text \<open>The \<open>long long\<close> that \<open>iter\<close> carries is passed to an \<open>int\<close> parameter: when the multiple
  of a proper prefix exceeds a word it is truncated and the result is not the least common
  multiple of the row.\<close>

theorem iter_truncates:
  "iter_c [65537, 65539, 1] 3 = Some 262147 \<and> Lcm (set [65537, 65539, 1 :: int]) = 4295229443"
proof -
  have g: "gcd 65537 (65539 :: int) = 1" by (rule gcd_examples)
  have "lcm_c 65537 65539 = Some 4295229443" using lcm_c_result[of 65537 65539] g by (simp add: lcm_altdef_int)
  moreover have "lcm_c 262147 1 = Some 262147" using lcm_c_result[of 262147 1] by simp
  moreover have "to_int 4295229443 = 262147" "to_int 65537 = 65537" by (simp_all add: to_int_def)
  ultimately have "iter_c [65537, 65539, 1] 3 = Some 262147"
    by (simp add: iter_c_def eval_nat_numeral)
  then show ?thesis using g by (simp add: lcm_altdef_int)
qed

text \<open>The program ends with its success code: the weighted sum of the least common multiples
  is the expected constant, whatever the matrix memory holds before.\<close>

theorem comp2_passes:
  assumes "length nums = 144"
  shows "comp2_main nums = Some 0x600d600d"
proof -
  have "comp2_main nums = comp2_main (replicate 144 0)"
    using assms by (simp add: comp2_main_def fill_nums_result)
  then show ?thesis by (simp only: comp2_run)
qed

theorem comp2_passes_witness: "comp2_main (replicate 144 7) = Some 0x600d600d"
  by (rule comp2_passes) simp

end
