(* ===== verification/Comp3_Data.thy ===== *)
theory Comp3_Data
  imports Prelude
begin

text \<open>
  The messages of \<open>comp3.c\<close>: each row of \<open>raw_data\<close> is one message of 32 bytes, written here as
  the number whose hexadecimal digits are the digits of the row.
\<close>

definition raw_rows_1 :: "int list" where
  "raw_rows_1 = [
     0x4e4550425e9dcf2200000df75754492020001c020deb000c0005eb19b5c16ea2,
     0x4e4550535e9dcf25000005cb4141504c20000f0205da00030006552a54d717ba,
     0x4e4550425e9dcf2b00000a6e5350582020001e010a6100020007987351afb752,
     0x4e4543425e9dcf30000029c64141504c20000f0229cb000700095db23e0539f4,
     0x4e4550535e9dcf390000237b53505820200023012383000b000a84517adcfe5b,
     0x4e4543425e9dcf3e0000032f5350592020002202032e0006000aedc46a0a1817,
     0x4e4550535e9dcf42000014465350592020001b0114470009000d3875a96b399e,
     0x4e4543425e9dcf4b00002a4853505920200005012a450007001281e80a21e727,
     0x4e4550425e9dcf4e0000007a4e464c58200007010087000a0013c08cd67508f6,
     0x4e4543535e9dcf5800002df6474f4f474c0004012dfb00040015a8480e14f886,
     0x4e4550425e9dcf610000304c474f4f474c0022013057000c00175dbea940bb93,
     0x4e4550425e9dcf6d000034794141504c2000140134660009001af847b98cbe01,
     0x4e4543425e9dcf7b00001e644141504c200019011e6d0004002143e79ab8abc7,
     0x4e4550425e9dcf8400000d1f4141504c20001b020d2c00090021d7398238e932,
     0x4e4543535e9dcf8e0000067c4e464c5820000901068000080022dbc44bef6c38,
     0x4e4543535e9dcf970000180e5350582020000e021802000d002379304747ab7c,
     0x4e4543425e9dcfab000024c9594d20202000130124c900050028235e7a4198ef,
     0x4e4550535e9dcfaf000000ce4e464c582000180100cb000d0029ab4dcc961933,
     0x4e4543425e9dcfb600001d4a45532020200020021d420005002d6cfe6a24b57a,
     0x4e4550425e9dcfb900000d834141504c200023010d9200080030e2b6efcc154c,
     0x4e4550425e9dcfc100000c8c45532020200023010c8a000d003412bf69ed112f,
     0x4e4550535e9dcfc90000194c594d202020000701195c00050034c3b7931c1184,
     0x4e4543425e9dcfcf000039f54553202020001d0239f4000500375e9526f99426,
     0x4e4543535e9dcfd2000003014553202020001401030b0005003a95a789db4a07,
     0x4e4543535e9dcfdc000020004e464c58200021021ffe0008003c3e628c9bfd44,
     0x4e4543425e9dcfe600001d374141504c200014021d390006003d1b3902833d94,
     0x4e4550535e9dcfeb00002f324141504c200023012f2d0008003e24371ad87a7b,
     0x4e4550425e9dcff20000056b5350592020001e01056d0004004146c4ca93fe30,
     0x4e4550535e9dcffb000013045350582020000d02130d00070042b6aebc45a9ec,
     0x4e4543535e9dd00c00002e194e464c58200007012e1e000300490e3bed4898c4,
     0x4e4550425e9dd01500002e8b594d202020000b022e9d0008004b7922897484a5,
     0x4e4550425e9dd01c0000278c455320202000120127780005004e4636cf45b7f5,
     0x4e4550425e9dd0260000191d45532020200013011922000300505a4e2c9a0c59,
     0x4e4543425e9dd02a000005224620202020000701052d0005005198e70472c23b,
     0x4e4550535e9dd034000027145754492020001401270400030054f922415d2fa2,
     0x4e4550535e9dd04400000b054e464c58200009010b1700060056df588a9c351a,
     0x4e4550425e9dd04d000001e9535058202000070101e30005005a2d6527a78b09,
     0x4e4550425e9dd05400002f4653505920200009012f510005005a98dee0c43d30,
     0x4e4543535e9dd05b000009e7474f4f474c00120209f70003005c88273a059006,
     0x4e4543535e9dd063000025fd4141504c200015022607000d00606098730b0cf2,
     0x4e4550535e9dd068000035e85754492020001f0135d700080060de9ff866d359,
     0x4e4550535e9dd06d000029a45754492020002102299500070063054467451d4f,
     0x4e4543535e9dd076000011e24141504c20001d0211eb000400652fde0b0ab779,
     0x4e4543425e9dd07b000034134620202020000b01340f000b0067ad8e8eb07e78,
     0x4e4550535e9dd085000035f44141504c2000100235f8000c006a1dfbd493cb26,
     0x4e4550425e9dd08d00000ee053505820200004020ed3000a006be8808c35a903,
     0x4e4550425e9dd09e000035a2474f4f474c000e0135b2000400716d30adfd2560,
     0x4e4543535e9dd0a4000025bc535058202000090125b4000d00720d9d552e7b40,
     0x4e4550425e9dd0ab000026b64141504c2000130226bd000800726d9857cb9d6a,
     0x4e4550535e9dd0b40000236c5350592020000f01237000060075f0294f66ff6e,
     0x4e4543425e9dd0ba0000397b5350592020000402397c000d00791b6190b59bb9,
     0x4e4550535e9dd0c2000002cc4141504c2000050102d8000b007c61324bd0673a,
     0x4e4543425e9dd0c60000078f5754492020001a020784000a007cc45ae9bdbb8d,
     0x4e4550535e9dd0c90000151e594d2020200020021526000d007dfc23290e28b1,
     0x4e4543535e9dd0d0000032735754492020001a02326a0008007e5fdf7d4feb05,
     0x4e4550425e9dd0d7000023884553202020001402239800020080e05afe1540eb,
     0x4e4543425e9dd0e00000049c4553202020000c010494000400824effe7589c6c,
     0x4e4550425e9dd0e7000002f6535058202000060102e7000500852441bacbdb4e,
     0x4e4550535e9dd0ef00002d1f5350592020000c012d2b000900872af3147bbd66,
     0x4e4550535e9dd0f7000016435350592020001e021633000a0087951840a9209f,
     0x4e4550425e9dd0fb00000d5c57544920200012020d6000070088bb29a80f554c,
     0x4e4543535e9dd105000010785754492020001a0110780002008ace7eb060d6a6,
     0x4e4543535e9dd10b00000fb3474f4f474c0016010fc00008008bf31037ec3571,
     0x4e4543535e9dd112000024ff575449202000130124f70005008e3e7a6221fcab,
     0x4e4543535e9dd11c00002d85594d202020000f022d880007008f447315f7710e,
     0x4e4543535e9dd125000036f8474f4f474c001f0236ff000300906f4a53780331,
     0x4e4550535e9dd12d00001106535058202000150210f400080092e4c7720b2af4,
     0x4e4550535e9dd13a0000376a474f4f474c000502376e000b0093f7960ed222db,
     0x4e4543425e9dd14500002e0b53505820200018022e0e000200999a727060e835,
     0x4e4550425e9dd149000024765754492020000f0124820009009ca7462ca586b9,
     0x4e4550535e9dd1530000214f474f4f474c001b0121560005009ef720a47bc8ab,
     0x4e4550425e9dd15c0000097d474f4f474c001e02098a000a00a17f0085392735,
     0x4e4550535e9dd163000033b1455320202000180233ba000500a496ea44dc21c7,
     0x4e4543425e9dd16d00000fcb46202020200016020fbc000300a50e1066018d11,
     0x4e4550425e9dd174000004854141504c200007010490000600a575341876912f,
     0x4e4550535e9dd17b0000128b45532020200023011295000700a630f6399e0884,
     0x4e4550425e9dd183000006454620202020001b020640000700a80245bb19fda9,
     0x4e4543425e9dd18600002a1853505920200003022a19000700aa689b321838e0,
     0x4e4550425e9dd190000019664141504c20000702195a000b00ace94b7273162f,
     0x4e4550535e9dd199000028ec4e464c582000230228ed000500adb2ae86dac8a1,
     0x4e4543425e9dd19e000014be594d20202000050214cb000200aeba404c346f10,
     0x4e4550535e9dd1a2000034864620202020001e023488000400af35f1a47d734e,
     0x4e4543535e9dd1a700003a33474f4f474c001c023a2a000400b1da853ebef285,
     0x4e4550425e9dd1af00001601474f4f474c000c0115fd000600b4e05da4a29d4d,
     0x4e4543425e9dd1b800000788474f4f474c0016020799000200b5b2d4886eff93,
     0x4e4543535e9dd1c10000298b4553202020000a012977000900b9079a51b0ecc2,
     0x4e4550425e9dd1c9000025de462020202000030125de000b00b9d31e1b294be8,
     0x4e4543535e9dd1cc000018f34e464c5820000e0218e5000800bbbd874d7f6f9a,
     0x4e4543535e9dd1d30000012c5350582020001a01011b000200bdbea43101f994,
     0x4e4550535e9dd1da000032a9535059202000150232ba000600c0ee8e98cd3e3a,
     0x4e4543425e9dd1e300002f4553505920200022012f45000600c30915b48dcad3,
     0x4e4550425e9dd1e6000023c85350592020001b0223c9000200c46d1335dbf53c,
     0x4e4550535e9dd1eb00002c1f45532020200013012c13000d00c5133ad2e79621,
     0x4e4543535e9dd1f00000278b594d2020200007022794000b00c5e5eda5156613,
     0x4e4550535e9dd1f700002e6b4e464c58200010022e67000700c8edd1fa0767fb,
     0x4e4543425e9dd1ff000025355350592020000801252a000c00caa751c98fb476,
     0x4e4550425e9dd2090000254c4141504c20000301254e000b00ccfbbd40d1bb04,
     0x4e4543425e9dd20d0000186057544920200014011851000700cd78ed8f64e51a,
     0x4e4543535e9dd216000028235350592020001c022824000200ce9dc73ec85cb6,
     0x4e4543535e9dd21900000eab4141504c20000f010e9b000600d1598060512f25,
     0x4e4543425e9dd21f000022f65350592020000a0122e9000700d4307de3d6a1d0,
     0x4e4550425e9dd228000005db5350592020000b0105d3000a00d6eb2f1136819b,
     0x4e4550425e9dd231000027444141504c200020022746000c00d97bb7684ec89c,
     0x4e4543535e9dd2350000048c474f4f474c000501049c000200dc5a61877f8ba1,
     0x4e4550535e9dd23b000029b6474f4f474c00130229b4000400df1073d65d2523,
     0x4e4550425e9dd24400002ad35350592020001e012ad5000d00e1a296fba3bb3e,
     0x4e4550425e9dd24c000036a0474f4f474c0020023699000a00e51daa08903de4,
     0x4e4543535e9dd251000006a74e464c582000080206ae000d00e845a563cb6240,
     0x4e4543535e9dd254000029164141504c200015022929000700ebc59ad909e2ca,
     0x4e4550425e9dd257000026ea5350582020001b0126d6000700ed01a361f5db71,
     0x4e4550425e9dd26000001c9e57544920200014011caa000c00edddce991293c7,
     0x4e4543425e9dd2660000233d594d202020000a022348000800ef7f4fa6d2b91f,
     0x4e4543425e9dd26a000037c54e464c582000210137ce000b00efe201401b3554,
     0x4e4543535e9dd271000025d64e464c5820000d0125e1000200f2f9b05a79f2f1,
     0x4e4550425e9dd27500002814594d2020200009022823000700f57ec48faa03df,
     0x4e4543535e9dd27800003a85594d202020000c013a71000800f7968a6ae04b05,
     0x4e4550535e9dd27f00001091594d202020001e0210a2000700f8b99fb1d5456b,
     0x4e4550425e9dd283000034a5474f4f474c000c023491000800fb3bcd595bc03d,
     0x4e4543535e9dd291000021bd5754492020001a0121bb000700ff86f177d97724,
     0x4e4543535e9dd29a00003a9546202020200007023a92000c01039e62c46235c4,
     0x4e4543425e9dd2a100002bb253505920200018022b9e000301065ae7348ae3b5,
     0x4e4543425e9dd2ae0000202657544920200007012035000a01082a78357d0781,
     0x4e4543425e9dd2b800001e22594d2020200003021e200002010b89b6e0db200f,
     0x517543425e9dd2bc00003a3e4141504c200019013a460005010c7b46d889433e,
     0x4e4550535e9dd2c1000032fa455320202000200132f9000b010cf7a6a16a4990,
     0x4e4543535e9dd2c4000009304141504c20000502092e0005010e4ee2dbba283c,
     0x587650535e9dd2ce000033874620202020000e023378000a010eefdc424f2e7c,
     0x4e4550535e9dd2d400001c7b4e464c58200003011c670004010fae45d2d8adbc,
     0x4e4543425e9dd2da000030274141504c20001f01303600040112222415804bcf,
     0x4e4550535e9dd2dd00001a084141504c20001e011a180006011356fb543364b1,
     0x4e4550425e9dd2ea000038a25350582020000d0238a4000c011775b1bda13b97,
     0x4e4543425e9dd2f400001dc246202020200017011dc5000301181f768c11ba7e,
     0x4e4543425e9dd2fb00002333594d202020000c022333000301188eee54f9b35f,
     0x4e4543425e9dd2fe00002c944e464c58200004022c95000c011b11ca665eb5e3,
     0x4e4550425e9dd304000002ae535059202000180202a20005011e5242bc14342f,
     0x427543535e9dd30e00000ca04553202020001c020ca30007012276bbf4790ec0,
     0x4e4543425e9dd31600000169594d202020000302016d00050122d6fb03890f22,
     0x4e4550425e9dd32000000d3946202020200003010d3f00030125888978091129,
     0x4e4543535e9dd32a0000006c594d2020200017010067000d0128b9e71256b96e,
     0x4e4543535e9dd32f000000e14141504c2000040100d200060129cdff61886704,
     0x4e4550425e9dd3350000273b462020202000220127470004012c16a0d98a3a7e,
     0x4e4543535e9dd33f0000336c5350582020000702335c0007012f503087fb476e,
     0x4e4550425e9dd345000005195754492020000e02052d00060130b1b3b1e8e7c5,
     0x4e4543425e9dd35100002b8e46202020200020022b9a000401364eb1ccab67df,
     0x4e4543425e9dd35400002638474f4f474c00200226420009013976f7958f810b,
     0x4e4543535e9dd359000010c45350592020001e0210bf000d013bacc3db3fcd19,
     0x4e4550535e9dd35f00000e9e53505820200003010ea80008013d7939125a41fd,
     0x4e4543425e9dd3640000170c4141504c20001c0217150005013fa8329e68c56d,
     0x4e4543425e9dd36700002a6b45532020200019012a7800090142b227dd98b047,
     0x4e4550535e9dd37000002bba53505920200019022bbb000a0145af109ab287d5]"

definition raw_rows_2 :: "int list" where
  "raw_rows_2 = [
     0x4e4543535e9dd374000025125350592020001c01250400050147bb164e9f5674,
     0x4e4543535e9dd378000019d5594d20202000130119d100040148592faa75f4f2,
     0x4e4550535e9dd37f000017a6462020202000140117a400020148fd13d24f6f22,
     0x4e4543535e9dd38500001b6c53505820200006021b670007014a91e11e3bc9f6,
     0x4e4550535e9dd38d00003399535059202000230133aa0004014ca5ceb63cac1b,
     0x4e4550425e9dd39000002b7b5754492020000f022b8b000a014e36eb03ef694f,
     0x537950535e9dd39500001b1f57544920200008021b20000b014fdc6105b7ad82,
     0x4e4550425e9dd39f0000391a474f4f474c000301391b00020151cfd32e280604,
     0x4e4543535e9dd3b300002be05754492020000b012bd4000701573d7a7adbf859,
     0x4e4550535e9dd3bc000033d7594d20202000130233c80005015a2c55f0a6c960,
     0x4e4550535e9dd3c10000236b4141504c20002001237e0002015bfd40fe98c631,
     0x4e4543535e9dd3c500001832462020202000170218390007015dc7fd09831a48,
     0x4e4550425e9dd3cf0000114a53505820200013021142000a015e908e5edbcbb1,
     0x4e4543535e9dd3d9000002224141504c2000030102210008015fa1f42e2bd050,
     0x577743535e9dd3de0000337c5754492020002202337c0007016053fc7f2ddd0d,
     0x4e4550535e9dd3e8000036894e464c5820000f023690000301624f1de3ee08e5,
     0x4e4550425e9dd3ec000011934141504c20001e0211a6000a01640cf9aa5db7ee,
     0x4e4550425e9dd3f300001b23474f4f474c0010021b1700060166f6346710f388,
     0x4e4543425e9dd3fd0000054d4553202020000502054d000b016b0e596f2b4795,
     0x4e4550535e9dd40100002b8b46202020200018022b820006016d07c8fdd6da6f,
     0x4e4550425e9dd40500002103474f4f474c00130220fa0006016dbb4163ea78ed,
     0x4e4543425e9dd40f000039ff594d20202000090139fb00030170c6b4769791c5,
     0x4e4543535e9dd41900002c524141504c200023022c3e00030172f41e2178b871,
     0x4e4550535e9dd428000014475350582020000f02143d000b01758e19c4c0dfa6,
     0x4e4543535e9dd42f000030e5455320202000040230de000d01771138eaa8b438,
     0x4e4550425e9dd439000031825350592020000701317d000301795d890c439fd0,
     0x4e4543535e9dd44300000c3c53505920200011010c2800060179c75c78e3c733,
     0x557943535e9dd44800001283535059202000160212720002017ac4257b8dfbf7,
     0x4e4550425e9dd45200001693455320202000040116a0000a017bd770a78b1078,
     0x4e4543425e9dd45c0000376d5350592020001c01376e0008017dde32e1518e3d,
     0x4e4543535e9dd46600001d425754492020001a011d430008017ef03813f61945,
     0x4e4550425e9dd4700000399e5350592020000502399b00080181848f2c81a354,
     0x4e4543425e9dd474000024ce455320202000150224d0000d0182cbbfba578974,
     0x4e4543535e9dd478000015a05350582020001f0215ae000401844120c197c84b,
     0x4e4543425e9dd47d00001e824141504c200004011e86000c0187750a931b81f7,
     0x4e4550535e9dd4800000180b455320202000090218040008018af8f61825718e,
     0x4e4543425e9dd48700001487575449202000200114730003018d5b92c390d09f,
     0x4e4543425e9dd49100001caa4141504c200022011cbb0008018e5247240a57ce,
     0x4e4543535e9dd49800002a62594d2020200008022a650004019108932418fffe,
     0x4e4543425e9dd4a200000da85754492020001e020db200020191ed1d3af66a26,
     0x4e4550425e9dd4ab00000a924e464c5820001d010a99000d019340fd28567dc3,
     0x4e4550425e9dd4b400001e2d57544920200013021e1d0003019474300e48b2b4,
     0x4e4543425e9dd4ba000023d15350582020001f0223cb000501978ea7219bf9f2,
     0x4e4543425e9dd4c300003028594d202020001c01302a000d019ab10005ffc637,
     0x4e4543425e9dd4ca00001780594d20202000140217940005019c0fde04beb61f,
     0x4e4543425e9dd4d400001ccc46202020200010021cd10003019e2f96aedbec0c,
     0x4e4543535e9dd4db00000c015350592020001c020c0a0002019e90b067fc3841,
     0x4e4550425e9dd4e400000aea46202020200013020ae6000801a01622ac7a9c14,
     0x4e4543425e9dd4e700002ff94141504c200006012ff9000201a0e17a4883d32c,
     0x4e4550425e9dd4ed000002db594d202020000f0102d3000401a1758a1e3c3a71,
     0x4e4550535e9dd4f000002f3b57544920200005022f29000801a2f55816f57a8d,
     0x4e4550535e9dd4f5000008ee474f4f474c00030108f4000601a4381519c73d87,
     0x4e4550425e9dd4f90000058e594d2020200023020586000801a578e880868d55,
     0x4e4543425e9dd502000011ec4e464c582000060211de000901a5e377b2d8b31b,
     0x4e4543425e9dd5070000242d474f4f474c001701242c000401a88dfa2d6d31bb,
     0x4e4550425e9dd50c00002de8594d2020200014022df0000d01ab7edd7e7d1223,
     0x4e4550535e9dd51000001b045754492020001a021af1000901adb65d23ea98fd,
     0x4e4543425e9dd51c000014df455320202000130214ec000801b0c9c1a07972d2,
     0x4e4543425e9dd51f000023094e464c58200009012305000a01b27444a1927756,
     0x4e4550535e9dd529000002765350582020000a020272000701b2e6a856e2822f,
     0x4e4550425e9dd53300000ffa4e464c5820001c020ff2000701b58b35c401e2ff,
     0x4e4543425e9dd53800001392474f4f474c0020021391000401b783343f616428,
     0x4e4550425e9dd54400001fb553505920200006021fbb000a01bc74fe94607fda,
     0x4e4550535e9dd548000000bf4141504c2000180100c8000a01bea4acd9cc4511,
     0x4e4550425e9dd54b000032b4455320202000130132b6000501c107a7fc4ff063,
     0x4e4543425e9dd5530000359c4e464c582000110135a0000d01c172c3ade9d8dc,
     0x4e4543535e9dd557000004ab4e464c582000090204b9000801c265e23f9ab16b,
     0x4e4550535e9dd561000018c5474f4f474c00130118b2000301c448540604f3a3,
     0x4e4543535e9dd56900000f5a474f4f474c001b010f69000801c5a80d4961cea8,
     0x4e4550425e9dd56c00002968594d202020000602296d000b01c652b0dde44917,
     0x4e4543535e9dd56f000018a84e464c582000060218af000b01c6cfd757ee40cd,
     0x4e4543425e9dd5770000319f53505820200019013198000a01c97ce9285ae0be,
     0x4e4543425e9dd5810000348453505920200006023490000301cc0b8504d61793,
     0x4e4550425e9dd58b000023894e464c58200015012383000a01cdc2a815359e70,
     0x4e4543535e9dd592000003e6535059202000060103f3000701cf4d38dc167950,
     0x4e4550535e9dd59f00002da9594d202020001d022da0000a01d4ff0e9e1de32f,
     0x4e4550535e9dd5a6000001c95350582020001d0101cc000901d72a0ea42cee6f,
     0x4e4543535e9dd5ad00000b0753505820200012010b1a000201d9bbbff3911cdb,
     0x4d6850425e9dd5b6000004844e464c5820001902047d000b01deb949a5c14f4b,
     0x4e4543425e9dd5bb000005024141504c20001202050a000b01e06f1493eb9c6a,
     0x4e4543425e9dd5c0000028745350582020000f012880000901e2d3941d0ee0cc,
     0x4e4550425e9dd5c900002ff15350582020000f022ffc000d01e64d6b5a7cb337,
     0x4e4543425e9dd5d400001fd553505920200018011fdd000601eab35c188b5cfa,
     0x4e4550535e9dd5d7000014fe4e464c582000030214ff000201ec92476cb533b2,
     0x4e4543535e9dd5dd000017de474f4f474c001b0217d4000801ef22cdf2628025,
     0x4e4550535e9dd5e6000024a74e464c582000100224a2000301efc377b63388ff,
     0x4e4550425e9dd5e900003141474f4f474c000e023141000701f296b98cf0ad5a,
     0x4e4550425e9dd5f1000011b8474f4f474c00190211bf000a01f53039dcb404ce,
     0x4e4550425e9dd5fa00000f3246202020200009010f1f000601f78f2d4af7a05d,
     0x4e4543425e9dd604000016ba474f4f474c001e0116bc000a01f9320b763e3ca9,
     0x4e4543425e9dd60b0000318a4620202020001f01318a000d01f9c932e9584783,
     0x4e4550425e9dd610000025be4e464c5820000c0125c3000901fc05970e46cf65,
     0x4e4543535e9dd619000036d95350592020000b0236d5000201fd4c9aa0c2981c,
     0x4e4550535e9dd61d0000122b53505920200006021234000201ff8c4b5da3b57b,
     0x4e4543425e9dd621000029b1474f4f474c000f0129a6000602025a8a76f0254e,
     0x4e4543535e9dd62b00002a40474f4f474c001c012a3e000302056aeccc2a4f6c,
     0x4e4550535e9dd63400000a424141504c200010010a3100080206c81abe967f58,
     0x4e4550425e9dd642000017c04e464c5820001a0117c40006020959e7d099e61d,
     0x4e4543425e9dd64600000b17474f4f474c0019010b0900090209d0a07774a2e3,
     0x4e4550425e9dd649000029044141504c20001a0229160009020c88c891721491,
     0x4e4550425e9dd6510000236f4141504c2000120223650008020f159c35c55b0b,
     0x4e4550425e9dd65b000035c0474f4f474c00200235bd000a0210a1b9dac30c11,
     0x4e4550425e9dd6620000007b5350592020002302007d0004021419675e731e41,
     0x4e4550535e9dd666000002ab575449202000110202a7000602147885b16dcdf9,
     0x4e4543535e9dd66b000033a8535058202000060133ab00060217e57292a16adb,
     0x4e4550535e9dd674000013c2535058202000110213ca000d0218498bccb4a821,
     0x4e4550425e9dd67900002064594d202020000701205f000a021a7624d61f4040,
     0x4e4543425e9dd67c00000ec3474f4f474c0020020ed3000a021bee0f13d6b4a3,
     0x4e4543535e9dd68500001f414141504c200007021f440005021d86b67a401af9,
     0x4e4550425e9dd68c0000183c594d202020000b02182d0002021f7822180c507c,
     0x4e4543535e9dd69400001360594d2020200021011367000b02205cda2ed26011,
     0x4e4543425e9dd69e000009015350582020001b02091100050221a951c0f4b0ca,
     0x4e4550425e9dd6a700000cbc46202020200006010cb9000b0224ca9352918f3a,
     0x4e4550535e9dd6ac00003a46474f4f474c0020023a46000202253c6610aadb87,
     0x4e4543425e9dd6b600001e50594d2020200019011e58000a0227bf0f8c0f5e25,
     0x4e4550535e9dd6bb00000c4a594d202020001a020c47000c022ad1ba71c2752f,
     0x4e4543535e9dd6c40000217c4620202020000e0221800006022d4b00e1be10cd,
     0x4e4550535e9dd6ca00001f5f594d202020000f011f560006022ff9d4bcac1ebe,
     0x4e4543425e9dd6d000001e165350592020001a021e10000b02311d8cd3048dbf,
     0x4e4550425e9dd6e0000028274e464c5820001301282d000c0232663d2b8ea017,
     0x4e4550425e9dd6e600000d93474f4f474c001e020d970008023345424e5ce5d8,
     0x4e4543535e9dd6ef000012ad5754492020001d0212a500030234047e3eb2c198,
     0x4e4543535e9dd6f60000327a5754492020001b01328c0006023557290dda9e7f,
     0x4e4543535e9dd7010000067b4e464c5820002301067f00030237e175016d1c0b,
     0x447943535e9dd706000006fc5350592020001c02070300060238c2534b7cf0b6,
     0x4e4543535e9dd70f000016424141504c2000090116380007023a95cf7ba0f809,
     0x486650535e9dd717000029b2455320202000030129a00004023b81f592d2da09,
     0x4e4550425e9dd71f00000eff45532020200014010efd0002023cac9deaa6329e,
     0x4e4543425e9dd72200001720535059202000150217230007023f4d98e089a2ed,
     0x4e4550535e9dd72a000016f64e464c5820001502170a0003024116a96f161b38,
     0x4e4550425e9dd72d00000e9c474f4f474c0004020e89000502423faa35770ba4,
     0x4e4543535e9dd736000017d34141504c2000080117d600040242b5c2f1524fef,
     0x4e4543535e9dd73d000021f7535059202000070221eb00030243cc750daeb317,
     0x4e4543425e9dd747000008c35350582020001c0208b80002024570e39dc4403c,
     0x4e4543425e9dd74e000037da575449202000060237d8000d02471ed14d2db682,
     0x4e4550425e9dd753000006b15350582020000e0206b7000502484d50a983e72d,
     0x4e4543535e9dd75800001fbb45532020200012011fa90008024ba545e9775cba,
     0x4e4543425e9dd762000033c64141504c2000140133b60002024e702e286c5883,
     0x4e4550425e9dd76600000acf474f4f474c0003020ad400090251f86b9462bcf8,
     0x4e4543535e9dd76a000020394141504c20002002203e000d0252a18f2fc74f44,
     0x4e4550535e9dd76f000008d5535059202000040108ca000b0253c30bfbda2824,
     0x4e4543425e9dd77600001fdb53505920200022011fd8000802551a8450c25dd9,
     0x4e4543535e9dd77a00000ef24141504c200005010f05000a02567f18ce58c8c6,
     0x4e4550425e9dd77d000011564141504c200022021152000602594dc4a5428633,
     0x4e4550535e9dd7840000367e594d202020000701368e0006025c455f794200da,
     0x4e4543425e9dd78e000014cb4e464c582000160114b90002025cad0a974e0859,
     0x4e4543535e9dd79800001d2353505920200017021d2d0005025f8573f74dd9eb,
     0x4e4543535e9dd79d00002af046202020200014012aee000302623f362ffe2740,
     0x4e4543535e9dd7a00000139f594d202020001e021399000a026369d54073fe93,
     0x4e4550425e9dd7a40000082e474f4f474c001f02083b00020263d58273e7deb0]"

definition raw_rows_3 :: "int list" where
  "raw_rows_3 = [
     0x4e4543425e9dd7b50000111d4e464c5820001101111d000c0269b146bb7abcc0,
     0x4e4543425e9dd7bd00000bcb4553202020001f020bbf000c026d1269a94d3190,
     0x4e4543425e9dd7c000000e814e464c58200013020e7c0007026eb345710d2227,
     0x4e4543535e9dd7c9000027a5594d202020001601279b000c027112ffd2ea03f9,
     0x4e4543535e9dd7d100002fff5754492020000b01300e000502723958ba310779,
     0x4e4550535e9dd7db000008e1535058202000100208d9000d02750fe0020d7ac3,
     0x4e4543535e9dd7e2000007c4594d20202000140107cf000302761537b5ed9b59,
     0x4e4543425e9dd7e7000012875350592020000a01128200090278c087d551acc2,
     0x4e4550535e9dd7f800001f0b474f4f474c0013021f0f000a027e869bf19b8192,
     0x4e4543535e9dd7ff00002db15754492020001b012da4000a0280ca8d0ef1fdf9,
     0x4e4543535e9dd80500002f7246202020200014012f74000c0281cd6146a91604,
     0x4e4543535e9dd80a000009dd5754492020001b0209ea00050282c3e0146215e6,
     0x4e4550425e9dd80f00001445474f4f474c000f01143f000c02844924a692258c,
     0x4e4543535e9dd8150000094a4141504c20002002093e00020286a0318505a3f2,
     0x4e4550535e9dd81d0000282e5350592020000f01283a000702898240bda1a2cd,
     0x4e4550425e9dd826000000a1594d20202000200200910003028c014eb5666b37,
     0x4e4543535e9dd82c000006db575449202000170106db0004028da0683200dc3d,
     0x447a50425e9dd832000010144620202020001d01101c000a028f4d78f16a261d,
     0x4e4550425e9dd839000026375754492020000f012637000b02908d546ded8317,
     0x4e4550535e9dd8430000205f474f4f474c001102205f000a02942a412b5a1123,
     0x436a50535e9dd8560000050d4e464c58200008020511000b029726da688d165a,
     0x4e4543425e9dd85a00001b105350582020000a011b240009029a976921a27204,
     0x4e4550425e9dd863000022cc5350582020001e0222d20009029dd3e73fe83497,
     0x4e4550535e9dd87300002d3e45532020200010012d3c000702a0f716684efb7c,
     0x4e4550425e9dd87b0000156b46202020200004021575000c02a3b814fb0b2fd6,
     0x4e4543535e9dd87e000008734e464c58200012010879000a02a6db29ec97cb3a,
     0x4e4550535e9dd885000013b84e464c582000150213b7000602a9a2004889c2c4,
     0x4e4543535e9dd88e00000302535058202000140202ff000402ab7b78eddda5be,
     0x4e4543535e9dd89800002f824141504c20001f012f8f000a02abdfc6152fff51,
     0x4e4543425e9dd89d00002592594d202020001102258a000c02ad042c970f5549,
     0x4e4550425e9dd8a70000288e5350582020000d012882000802b15090e84ddff6,
     0x4e4543425e9dd8af000010575754492020000901105a000502b201ede853e130,
     0x4e4543425e9dd8b700000a63594d202020001f010a5f000a02b51ba0be15e1aa,
     0x4e4543535e9dd8c000002a1a4141504c200017012a1f000202b67e61c9a5b344,
     0x4e4550535e9dd8c6000035ca535059202000210235cb000202b8385f568fad3e,
     0x4e4543535e9dd8cd000016785350582020001c01167e000402b96af99e9829ca,
     0x4e4543425e9dd8d200002d804141504c200023022d79000202ba2f312970d55e,
     0x4e4550535e9dd8db0000391d594d2020200019023925000b02baff53b3e1815f,
     0x4e4550535e9dd8de00000076594d202020000c010077000d02bbb98699bde8a8,
     0x4e4550535e9dd8e400002d834620202020000f012d6f000302bc4e2093fc6bf8,
     0x4e4550425e9dd8e7000008cf594d202020000b0208cb000b02be2edfc6bc65ae,
     0x4e4550535e9dd8eb00000f2e53505820200022010f39000702c18a91aaca39fe,
     0x4e4543535e9dd8ee000002354141504c200008010240000302c2a52aa080b0ad,
     0x4e4550535e9dd8f60000398d5350582020001a02397a000802c598ac26051396,
     0x4e4550535e9dd8f90000186e4141504c20001c01186e000b02c5fff3883b5bc0,
     0x4e4550425e9dd8fd000012694141504c200005011267000d02c8ddb2900e22a2,
     0x4e4550535e9dd905000038c5575449202000080238ca000d02c93f07b524682b,
     0x4e4550425e9dd90a000020234e464c58200010012013000902c9f9fc4440f167,
     0x537743535e9dd9130000311d5350582020000d013118000b02cc2c825e2ba416,
     0x4e4550425e9dd91b00000dfd53505820200004010e0a000302ce4a951f683053,
     0x4e4543535e9dd91e00000efc5350592020000e010f03000802ced64211f1afd6,
     0x4e4543535e9dd9230000263b4620202020001f022628000402d03565ea695c15,
     0x4e4550425e9dd92b00002528594d2020200020022531000502d23fd8a45959cd,
     0x4e4543535e9dd934000026d8462020202000160126d4000202d3c47feee15afb,
     0x4e4543425e9dd937000024b3474f4f474c00110124c0000602d510590a097452,
     0x4e4543425e9dd93d000017794620202020001c021770000502d7ba757df10440,
     0x4e4543535e9dd9430000222f5350592020002001222c000b02da38c105413b1a,
     0x4e4543425e9dd94b0000265b4e464c5820001d022655000b02dbc29b0d396699,
     0x4e4543425e9dd95400001b9b4553202020000a011b95000802dcf63efc06bd6c,
     0x4e4543535e9dd959000014af455320202000080114ad000702ded56da171fbf9,
     0x4e4550535e9dd95f00000e734e464c58200006010e68000702e1a0fbb7aecb7f,
     0x4e4543535e9dd96500002c744553202020001f022c63000202e22aa3bb335931,
     0x4e4543425e9dd96f00002da457544920200014012d92000402e53773636121d3,
     0x4e4550535e9dd97200002f5346202020200005022f44000402e61825ff55ef0c,
     0x4e4543535e9dd976000021925350582020001b022199000d02e83e99fda7d696,
     0x4e4550425e9dd97f000026135350592020000401260d000b02e964dc74857fb3,
     0x4e4543425e9dd99100001e7653505920200010021e6a000b02edca907ceb3826,
     0x4e4550535e9dd99a000020534553202020000a02204a000702f14462407fdbbd,
     0x4e4543535e9dd9a20000292e4e464c5820000502293b000702f252c6f15d30c4,
     0x4e4543535e9dd9a900000ce24620202020000c020cf3000502f2e0a63e506c0b,
     0x4e4543535e9dd9b5000001ce4e464c582000050201cb000d02f8aebba1569465,
     0x4e4550425e9dd9be000030d95350592020000a0230e1000502f98e0d6b999073,
     0x416550425e9dd9c2000032d7455320202000110132e2000602fbd139a926c156,
     0x4e4543535e9dd9cc000008404e464c5820000c020843000802fda06dbc762ff3,
     0x4e4550535e9dd9d400000b085350592020001a020af7000a02febb71d1612c03,
     0x4e4543425e9dd9da0000360b594d202020001a023603000903019b8c7f041062,
     0x4e4543425e9dd9e0000012e5594d20202000210112f10007030471ba6782c663,
     0x4e4550535e9dd9ea00002ef14141504c20001c022ef2000a0307363037712b17,
     0x4e4550535e9dd9f300000e744e464c58200008020e74000303089243d5516b94,
     0x4e4543425e9dd9f7000011a8535059202000090111b0000c030a68eaf17e78bc,
     0x496750535e9dd9fc00001e41474f4f474c0020021e2f0003030d7c473004cc60,
     0x4e4550535e9dda04000029a24e464c5820000f0229a80003030ea7ec39a5aa04,
     0x4e4550535e9dda0a00001ccd45532020200021021cc60008031055fc2293fa24,
     0x4e4543425e9dda0d00000a07575449202000170109ff000d0312bd2c0a1c4c8e,
     0x4e4550425e9dda1600002d6c57544920200008022d72000303160f85860246c4,
     0x4e4543535e9dda2000001409594d202020001b0213f500050316c97f7f05fffa,
     0x4e4543535e9dda330000152e4620202020001a011532000603194e67e5f9e987,
     0x4e4543535e9dda380000282753505920200015012817000a031c2e80060f7978,
     0x4e4543535e9dda3f0000187d4141504c2000050118840003031c9c0009a6e75e,
     0x4e4550535e9dda43000001f9535059202000100201e80006031fc54c31a53586,
     0x4e4550425e9dda4900002ce5594d2020200015012cef00060321d4ca1d1028c4,
     0x4e4550425e9dda4d0000336a4553202020000302336200040324607389be6d38,
     0x4e4543425e9dda50000006424141504c200011020649000c03270c853b533395,
     0x4e4543535e9dda6200000a985350592020001d010a8b0005032a7fddeae08eca,
     0x4e4550425e9dda6900002d234141504c20000c022d2e0004032dee2227e8c3de,
     0x4e4550535e9dda7300002e6d594d2020200010012e6d000b03347b3e50152f90,
     0x4e4543425e9dda7b000014ef474f4f474c00030214e3000403366e9a1ac8043f,
     0x4e4543535e9dda7e000001e0462020202000060201e6000d033713eabeb06092,
     0x4e4550425e9dda83000005a35350592020000f01059f00020339c7411a13722a,
     0x4e4550425e9dda8600001437594d202020001801142e0008033c4f887904da26,
     0x4e4550535e9dda8f00001004594d2020200015010fff0005033fa4504011c524,
     0x4e4550425e9dda970000211a4e464c5820002001211c000303414b7b6831e2f5,
     0x4e4550535e9ddaa1000009024e464c5820001801090f00020344a133a79c6cf0,
     0x4e4543425e9ddaa7000010285350582020001d0210300004034529ed0a912143,
     0x4e4543535e9ddab1000010f4455320202000050210f8000b0348414f3de22d40,
     0x4e4543425e9ddab900001b6e4141504c200005011b790007034a3f2ba1a207d1,
     0x4e4543535e9ddacb0000188f4620202020001601189d0006034d4cd4a0d6742a,
     0x4e4543425e9ddad800000489455320202000070204970007034fe682fb308ffe,
     0x4e4550425e9ddae1000002b4462020202000150202c5000203528ac2d88ace22,
     0x4e4550535e9ddae600002bdd4553202020001b012bca000303530073c962998a,
     0x4e4550425e9ddaea00002cb75350592020001c012cc700070354d8dbbcad39f3,
     0x4e4550535e9ddaf1000024c1535058202000230224c700090357d830e685ca97,
     0x4e4550535e9ddaf50000101d4620202020001501102f0009035afb11268937e5,
     0x4e4550535e9ddafb000004034141504c20000b0203f30003035d597fb539a2e3,
     0x4e4550535e9ddaff00001b884553202020001f021b83000c0360bb2a8fe8a56f,
     0x4e4550425e9ddb040000386a4620202020000c01387e00030363eb546fdc60e0,
     0x4e4550425e9ddb09000023734e464c5820001d012376000203649686c17c9f57,
     0x4e4550425e9ddb0d0000017b5350582020001402017800020367162765c19328,
     0x4e4543425e9ddb11000026644553202020001e02265b0007036a2818d9d23697,
     0x4e4550425e9ddb1800001d8e46202020200017021d830002036d315abf4e2ba7,
     0x4e4543535e9ddb1f0000193c4620202020000b01193e0002036f444429a8e162,
     0x4e4550425e9ddb26000019cc455320202000120119d900090372165cf1100622,
     0x4e4543535e9ddb3000000e2c4141504c200014020e3e00050373359af963f952,
     0x4e4543425e9ddb36000028c75350592020001b0128c8000203755f8548586607,
     0x4e4550425e9ddb3d000001be4e464c5820000f0101bc000303776da14419bc81,
     0x4e4543425e9ddb4500000fe3474f4f474c0017010fe600040379d981ca630735,
     0x4e4550535e9ddb4d000012dc474f4f474c00050212d40003037c46f0353bbb7e,
     0x4e4550425e9ddb5500000dbb4553202020001b010dab000a037cbd1aa4926bbb,
     0x4e4543425e9ddb5d00003a4c594d202020001a013a500005037e9b8a6f221312,
     0x4e4543535e9ddb63000003d1535058202000100103e00008037fe05465cde7da,
     0x4e4550535e9ddb6700001dcb53505920200006011dbb000503811d34176068d1,
     0x4e4550425e9ddb6f000012b6462020202000160112a30007038247776431cc61,
     0x4e4543425e9ddb7600000228594d202020000301021c000a03851ad1033ea1b9,
     0x4e4550535e9ddb83000024395754492020001101244c00040389676b0b4d9e23,
     0x4e4550535e9ddb8b000021e04620202020001e0221e80009038c7f0c48dc0ca0,
     0x4e4543535e9ddb8f00000f384e464c58200023020f3b0002038f267aecda4a94,
     0x4e4543535e9ddb98000019274e464c582000140119260002039118779522371e,
     0x4e4543535e9ddbac00002517474f4f474c000d02250e000b0397b97f79ca16c9,
     0x4e4543535e9ddbb70000285846202020200020022868000803992c409721e8c9,
     0x4e4543535e9ddbba00002b6853505920200014022b770002039c379a146f8bad,
     0x4e4543535e9ddbc300002d3c46202020200022022d3b0003039cb41e63abbce9,
     0x4e4543425e9ddbc600000e1c4141504c200011020e1f000a039d785ef1fe7f65,
     0x4e4550535e9ddbd000000b694e464c58200006020b7d0006039ff9d35b872e18,
     0x4e4550535e9ddbd5000007444141504c20000f01074f000903a0790d16b3aa7f,
     0x4e4550535e9ddbd8000013654e464c58200008011356000203a373b30e92833b,
     0x4e4543535e9ddbdb00002e23594d2020200011012e22000c03a44751d7db5931,
     0x4e4550425e9ddbe3000021cf462020202000200121cf000803a67e5d7a4e147b,
     0x4e4543425e9ddbe8000011b6474f4f474c00140211b6000603a994447bd01754,
     0x4e4543535e9ddbeb000024b1594d202020000d0124a0000603aa7ecbe667016a,
     0x4e4543425e9ddbee00001a5645532020200015021a66000503abaf82e9ea5410]"

definition raw_rows_4 :: "int list" where
  "raw_rows_4 = [
     0x4e4543535e9ddbf300002a125350582020000a022a22000503ac4be33cfb5096,
     0x4e4550535e9ddbfc00000150594d2020200020020153000203ae0b6e3535a2a7,
     0x4e4550535e9ddc00000023d6535059202000200123df000303b0b4823ecc3fbd,
     0x4e4543535e9ddc05000016474e464c5820001a011649000303b27b6b0c408008,
     0x4e4543425e9ddc0d000039ae4620202020001d0139bc000203b444f8696ff0ff,
     0x4e4550425e9ddc1100001da1594d2020200014011d95000603b725aabba493a3,
     0x4e4550535e9ddc1600003a62474f4f474c0013013a58000803b8ccaa796c2f20,
     0x4e4550425e9ddc20000011b8474f4f474c00070211be000303b9fafb00163be8,
     0x4e4543425e9ddc2700001d384e464c58200023021d3a000c03bbbe3fe3999a79,
     0x596e43535e9ddc2d000037f55350592020001d0137f8000b03bd134bdb703988,
     0x4e4550535e9ddc320000291e4e464c5820002202290d000a03be389f1abe7b45,
     0x4e4550535e9ddc3c000002ef535059202000080202ff000603c0e41143c33c71,
     0x4e4543535e9ddc42000005e0474f4f474c001c0205e1000d03c2a3de01c0b08f,
     0x4e4550425e9ddc48000012e2535058202000130212ea000703c5ac633fc10008,
     0x4e4550425e9ddc4f000015104e464c58200011011505000503c893404951681f,
     0x4e4550535e9ddc5e000034a94141504c20000b0134a0000803cc2cbea0a6a798,
     0x4e4543425e9ddc6f00002720594d202020000402271d000703cf00d13ded9ede,
     0x4e4550535e9ddc73000031ac594d20202000160131a5000303d0848b6a3b61b7,
     0x4e4550425e9ddc7b00002e25474f4f474c001e012e13000503d17c594cb0d28e,
     0x4e4550425e9ddc8900002924594d202020001d012926000803d4c7ed7a43f271,
     0x4e4543535e9ddc8c00003a46474f4f474c0017013a52000d03d5bbacf6e1a945,
     0x4e7043425e9ddc9300000ee5474f4f474c000a020ed3000403d7a75c35b64c9a,
     0x4e4543425e9ddc9800002f5045532020200011012f59000b03dae956ac3d42a9,
     0x517350425e9ddc9b00002a475350582020000f012a47000c03dd154ce725c937,
     0x4e4543425e9ddca50000014557544920200019020146000703e08ef1f3b4c3b9,
     0x4e4550535e9ddcae0000162f4553202020001d01162b000a03e2e5090b43e99e,
     0x4e4550535e9ddcb6000011dd535058202000160111e3000903e49515a4987226,
     0x4e4550535e9ddcbf0000029d4e464c58200022010298000603e6ba820251198c,
     0x4e4550535e9ddcc8000037c2535059202000230137ba000203e9c0b1eefa22ff,
     0x4e4543535e9ddcd200000425594d202020000502042e000a03ecbdf41c03cfb8,
     0x4e4550535e9ddcd7000038364e464c5820000402383f000c03ed562a11022cf8,
     0x556d50425e9ddcda0000077357544920200014010771000603edbb78e85f27f3,
     0x4e4550425e9ddce2000010365350582020002202102b000803f0ef73abb681f8,
     0x4e4543535e9ddce70000135446202020200007021360000503f4683c31e1bfef,
     0x4e4543425e9ddcf8000025ad474f4f474c00110125c0000403fa1145e874ffd0,
     0x4e4543535e9ddcff000032e5462020202000180132d4000803fbbb96cb90fb05,
     0x4e4543425e9ddd0600001c0b46202020200007011c05000403fd0799cbd9b93f,
     0x4e4543425e9ddd0900001749594d2020200016021748000603fdf330e6dab15c,
     0x4e4543535e9ddd1300001a4e53505820200008021a62000703feaa05ee0bbc00,
     0x4e4543425e9ddd19000000cb4141504c2000170200dd0008040090d6fabdf48f,
     0x4e4550535e9ddd2200002e0b45532020200016022e0000080403964d67539ebd,
     0x4e4543425e9ddd2a000031b64e464c5820001b0231ca000904052a9fd77a0de6,
     0x4e4550425e9ddd2f000033504141504c20001f01336400020405e47ef2622987,
     0x4e4550535e9ddd320000212d4620202020000b012123000d0407d56db37cdc29,
     0x4e4543535e9ddd39000017e7575449202000140217f10009040a4b90a074f970,
     0x4e4543535e9ddd3f0000299e5350582020000e0129a60007040b4b9412a1b27f,
     0x4e4550535e9ddd42000028cb4e464c582000170128ba0004040d145f637a5e03,
     0x4e4543425e9ddd4a000002b4462020202000190202ad000b040df19b816da8fb,
     0x4e4543535e9ddd5800000e534141504c20001f010e51000d0412bcad127a4b83,
     0x4e4543535e9ddd5d00001f6d4141504c200017021f5f000404157d2bf4fd643d,
     0x427650425e9ddd6200000ea657544920200004010ea40003041671613eb21832,
     0x4e4550425e9ddd6b000021855350592020002302217b000a04193ce9b728e375,
     0x4e4550535e9ddd7200002ba557544920200018022bab0005041cc756d88201f2,
     0x4e4550535e9ddd7c00001090575449202000070210a20003041fc6106b096f91,
     0x4e4543425e9ddd82000036bd575449202000150236b800050422b1d6843a1866,
     0x4e4543425e9ddd870000394f474f4f474c0019013958000604244f411117cddc,
     0x4e4550535e9ddd8b0000086b4e464c5820001502085b00060426abbfe24e6acc,
     0x4e4543535e9ddd94000032fc4141504c2000090232f5000d042764134542c250,
     0x4e4543425e9ddd9700002edf4e464c58200017022ecd0007042a4f65bcc495c4,
     0x4e4543425e9ddda100000671594d2020200010010663000a042afd799a2da369,
     0x4e4543535e9dddaa000010465350582020001402103a0002042ca2e2ce018815,
     0x4e4550535e9dddaf00000e715350592020000a020e810007042fd716988555ae,
     0x4e4543425e9dddb90000200e474f4f474c000302201a000704325a103e6d1b48,
     0x4e4550535e9dddbf000015bc575449202000200215c700030433a924eb16a825,
     0x4e4550535e9dddc90000180b4e464c58200016021815000c0435eef83c89f269,
     0x4e4550425e9dddd1000035e34141504c2000140235f20006043745625edc03c6,
     0x4e4543425e9dddd400000e054141504c20001b010e120005043921bcd48c5590,
     0x4e4543425e9dddda000004595754492020001902045d0003043b3b6a93c03707,
     0x4e4543425e9ddde1000001945350582020001e020191000d043e00ddcf75c8c1,
     0x4e4543425e9dddea000002d04e464c582000200202e1000a043fdc024329e1e2,
     0x4e4543425e9dddee000024454e464c5820002301245500050441305bb2e4bcc8,
     0x4e4550425e9dddf3000035154e464c5820000b01351e0003044225c7e1fbf253,
     0x4e4543535e9dddfb00000374474f4f474c000b01038800030442ae47e29c0cf0,
     0x4e4550425e9dddfe00001068594d2020200009021060000d0443c72161f87d3f,
     0x4e4543535e9dde0400002a83594d2020200011022a770005044704f0f5908c61,
     0x4e4550425e9dde070000213f4620202020000501214b0007044875695f20aa52,
     0x4e4543535e9dde1900002a9a594d202020001d022a93000a044c945da6d9618f,
     0x4e4550535e9dde1f000012f25350592020000e0112f50005044ff49cfc06afde,
     0x4e4550535e9dde2300000f94594d202020001d010f9100050452f34121d4d9c6,
     0x4e4550425e9dde2800001cb453505920200014021ca6000804542e1d0d1091aa,
     0x4e4550535e9dde2c00002950594d202020000a0129630006045674c7ee553ff7,
     0x4e4550425e9dde3400000121474f4f474c001202011d0009045858875c5cd30c,
     0x4e4550425e9dde380000325d5350582020000702324a000904594d20a8f38450,
     0x4e4543535e9dde460000026a5350582020002301027500050460a57cd2d75938,
     0x486550535e9dde4c000012974e464c582000200212960005046253956c0df638,
     0x4e4550425e9dde56000020cc455320202000120120c500080464a7bb6936308b,
     0x4e4550535e9dde600000272c5350582020001d022739000504666d35b1adf56e,
     0x4e4543535e9dde6a000039ee4620202020000e0139e700070469f7a7445154f5,
     0x4e4543425e9dde6e00002bcf4e464c58200016012bd20008046d6edd200fd593,
     0x4e4543425e9dde740000305a594d202020000a01305c0005046dd835a71a7e56,
     0x4e4543535e9dde7b00001989455320202000090219800004046e71ddf487052e,
     0x4e4543425e9dde7f00001c9d5350582020000c011c9b000d046fae43cf89c898,
     0x4e4550535e9dde8600001edd474f4f474c0021021ed6000904730dd20e4f75bd,
     0x4e4543535e9dde8a00002c1b46202020200011012c1800080475e31053119e40,
     0x4e4543425e9dde9100002f424141504c200010022f40000404786810cc7a5cc3,
     0x4e4543425e9dde9900001e045350592020000d011e11000a0479f60ee02e993b,
     0x4e4543535e9dde9f0000150a4e464c5820000b0215090002047cc840440061ca,
     0x4e4543535e9ddea5000023ad5754492020000e0223bf0007047d2c3bf66eaa8f,
     0x4e4543425e9ddeaf00000126594d202020001f01012e0005047f3abda616821f,
     0x4e4543535e9ddeb400001ef053505920200015011ef60007048199839631ad8e,
     0x4e4543425e9ddebd00003a694141504c20000d023a5d000a0483c7d52ca3453b,
     0x4e4550535e9ddec00000221e4e464c5820001201223100020486d63dfff5a63d,
     0x4e4550425e9ddec3000013654141504c20000502135300080488dc96e3e04c5f,
     0x4e4543535e9ddecc000038965754492020000f0238a90006048bba7284fa9955,
     0x4e4543535e9dded0000024585350582020000c01246b0004048ce6823f5b4e96,
     0x4e4543425e9dded5000036e94141504c2000040236fb0007048e776ef4a0f13e,
     0x4e4543535e9dded80000379d5350582020001701379300020491bc3d8e36c2b6,
     0x4b7a50535e9ddede00001ca54e464c58200021011cae000b04935e72a9470be5,
     0x4e4550425e9ddee700001b2d4553202020000f021b2f000c04965c4c63bbe7c1,
     0x4e4543425e9ddeed000030d8594d202020001b0130d700060498818a3583b3c6,
     0x4e4550535e9ddef6000028c24e464c5820001f0128d10002049afb2865f709bf,
     0x4e4543535e9ddef9000031f2575449202000180131ea000b049b692c4c7edb0b,
     0x4e4543535e9ddf0100002b7d4141504c200019012b74000b049d10c4965f00c2,
     0x4e4550425e9ddf0a000038f8575449202000200239040009049e5d5f2fdef8e1,
     0x4e4543425e9ddf0d000007644e464c5820001d020775000704a1875d1ad672db,
     0x4e4550425e9ddf1f0000376053505820200007013774000504a40d669407a986,
     0x4e4550425e9ddf2400001599462020202000170115a4000304a6f6108a44134d,
     0x4e4550425e9ddf2b00002cb4594d202020000e012cb0000404a94a93f58dfa7f,
     0x4e4550425e9ddf340000229646202020200016012293000504aa88a31ec32686,
     0x4e4543425e9ddf3d000011ee455320202000150211f6000a04ad661920471a2c,
     0x4e4543535e9ddf40000021f55350592020000e0121e5000804adef9e09666d99,
     0x4e4550535e9ddf43000001354620202020000902012c000b04afc5988c3e1954,
     0x4e4550425e9ddf4c0000159745532020200009011588000404b20451aaebcb94,
     0x4e4550425e9ddf51000029504e464c5820000a022943000704b504694de140ae,
     0x4e4550535e9ddf5b000011e1462020202000170211d4000204b8f8d188904b81,
     0x4e4543535e9ddf630000051c4141504c20001b02052f000a04b9943f1abee7f2,
     0x4e4543535e9ddf69000018bc455320202000030218c5000204bb16b82a1701f0,
     0x4e4550425e9ddf6c00002fa957544920200004012f9c000504be44a959187484,
     0x4e4550425e9ddf6f00003165474f4f474c000701315a000804bec89f49110fd0,
     0x4f6350535e9ddf7500002c7853505820200008012c6e000304c17603958c6078,
     0x4e4550425e9ddf78000023065350582020001a0222f4000904c2a3d2e461741f,
     0x4e4543535e9ddf82000025f6455320202000080225e8000a04c50a23fcf964f6,
     0x4e4550535e9ddf8500002f4746202020200013022f4c000304c64fbd6203a550,
     0x4e4543425e9ddf8f00002196594d202020000601218d000804c8347e6f3c1c0e,
     0x4e4543425e9ddf97000009444e464c58200012010952000704ca5b8fd530033c,
     0x4e4550535e9ddf9e0000064a4141504c20002202064e000504cbb9b25aa65aff,
     0x4e4543425e9ddfa7000035f1594d20202000110235e2000704cd394dcf77151f,
     0x4e4543535e9ddfb700002580594d2020200013012585000804d242952ef7087c,
     0x4e4550535e9ddfbb000001a84e464c58200013010199000404d30bb3a735bb1f,
     0x496c43425e9ddfc300001690474f4f474c0009021685000604d3afc129a5a4f9,
     0x4e4543425e9ddfc8000027cc5350582020000e0227c0000704d5e71160edbca7,
     0x4e4543535e9ddfd10000179d4620202020001302178d000904d945fef0091fda,
     0x4e4543535e9ddfd7000026a74553202020000802269b000904da8929f5f03bd3,
     0x4e4550425e9ddfdb000039bd5350582020000c0239b1000b04ddcf05bbac097d,
     0x4e4550535e9ddfe200002f88474f4f474c0011022f87000604e01984ad79a175,
     0x4e4550535e9ddfe50000211d5754492020000502210e000404e29f7987e39009,
     0x4e4550535e9ddfef00002eab4553202020001d012ea9000904e3b7e8a8d515c6,
     0x4e4550425e9ddff5000037a0575449202000050137ad000804e6c466364f893f,
     0x4e4543535e9ddffd000024794141504c20001201246a000904e87de0f1b96be3,
     0x4e4550535e9de000000008f0474f4f474c00210208ec000c04eaa072747b99b0]"

definition raw_rows :: "int list" where
  "raw_rows = raw_rows_1 @ raw_rows_2 @ raw_rows_3 @ raw_rows_4"

text \<open>The bytes of a row, first byte first.\<close>

definition row_bytes :: "int \<Rightarrow> 8 word list" where
  "row_bytes r = rev (map (\<lambda>k. word_of_int (r div 256 ^ k mod 256)) [0..<32])"

definition raw_data :: "8 word list" where
  "raw_data = concat (map row_bytes raw_rows)"

end
