(* ===== verification/Comp3.thy ===== *)
theory Comp3
  imports Comp3_Data
begin

text \<open>
  \<open>comp3.c\<close>: processing a stream of packed, big-endian trade messages on a little-endian machine.
  The \<open>int\<close> counters are integers whose overflow is undefined (\<^term>\<open>None\<close>), as is the overflow
  of the shift and the additions that compute the risk.
\<close>

section \<open>Data\<close>

record exec_notification =
  en_type :: "8 word"
  en_subtype :: "8 word"
  en_trade_type :: "8 word"
  en_side :: "8 word"
  en_timestamp :: "32 word"
  en_price :: "32 word"
  en_symbol :: "8 word list"
  en_contracts :: "16 word"
  en_liquidity :: "8 word"
  en_strike :: "16 word"
  en_expiration :: "16 word"
  en_message_id :: "64 word"

record exec_globals =
  old_message_id :: "64 word"
  contracts_processed :: "32 word"
  puts_count :: int
  calls_count :: int

definition EXECUTION_TYPE :: "8 word" where "EXECUTION_TYPE = 0x4e"
definition EXECUTION_SUBTYPE :: "8 word" where "EXECUTION_SUBTYPE = 0x45"
definition TRADE_PUT :: "8 word" where "TRADE_PUT = 0x50"
definition TRADE_CALL :: "8 word" where "TRADE_CALL = 0x43"
definition SIDE_BUY :: "8 word" where "SIDE_BUY = 0x42"
definition SIDE_SELL :: "8 word" where "SIDE_SELL = 0x53"
definition LIQUIDITY_MAKER :: "8 word" where "LIQUIDITY_MAKER = 1"
definition RISK_THRESHOLD :: int where "RISK_THRESHOLD = 100"

text \<open>The number of a sequence of bytes, least significant first, and back.\<close>

definition le_int :: "8 word list \<Rightarrow> int" where
  "le_int bs = foldr (\<lambda>b n. uint b + 256 * n) bs 0"

definition le_bytes :: "nat \<Rightarrow> int \<Rightarrow> 8 word list" where
  "le_bytes n x = map (\<lambda>k. word_of_int (x div 256 ^ k mod 256)) [0..<n]"

definition bswap :: "nat \<Rightarrow> 'a::len word \<Rightarrow> 'a word" where
  "bswap n w = word_of_int (le_int (rev (le_bytes n (uint w))))"

text \<open>Loads of the little-endian machine.\<close>

definition load_le :: "8 word list \<Rightarrow> nat \<Rightarrow> nat \<Rightarrow> 'a::len word option" where
  "load_le mem n p =
     (if p + n \<le> length mem then Some (word_of_int (le_int (take n (drop p mem)))) else None)"

text \<open>The packed structure at \<open>p\<close>, its members in their order and without padding.\<close>

definition load_notification :: "8 word list \<Rightarrow> nat \<Rightarrow> exec_notification option" where
  "load_notification mem p =
     do {
       t \<leftarrow> rd mem p;
       st \<leftarrow> rd mem (p + 1);
       tt \<leftarrow> rd mem (p + 2);
       sd \<leftarrow> rd mem (p + 3);
       ts \<leftarrow> load_le mem 4 (p + 4);
       pr \<leftarrow> load_le mem 4 (p + 8);
       co \<leftarrow> load_le mem 2 (p + 17);
       li \<leftarrow> rd mem (p + 19);
       sk \<leftarrow> load_le mem 2 (p + 20);
       ex \<leftarrow> load_le mem 2 (p + 22);
       mi \<leftarrow> load_le mem 8 (p + 24);
       Some \<lparr>en_type = t, en_subtype = st, en_trade_type = tt, en_side = sd, en_timestamp = ts,
         en_price = pr, en_symbol = take 5 (drop (p + 12) mem), en_contracts = co, en_liquidity = li,
         en_strike = sk, en_expiration = ex, en_message_id = mi\<rparr>
     }"

section \<open>Processing\<close>

definition count_trade :: "exec_notification \<Rightarrow> int \<Rightarrow> exec_globals \<Rightarrow> exec_globals option" where
  "count_trade trade contracts g =
     (if en_trade_type trade = TRADE_PUT then do {
        n \<leftarrow> int32 (puts_count g + (if en_side trade = SIDE_BUY then contracts else - contracts));
        Some (g\<lparr>puts_count := n\<rparr>)
      }
      else if en_trade_type trade = TRADE_CALL then do {
        n \<leftarrow> int32 (calls_count g + (if en_side trade = SIDE_SELL then - contracts else contracts));
        Some (g\<lparr>calls_count := n\<rparr>)
      }
      else Some g)"

text \<open>The risk of a trade: the difference of the unsigned prices is read as an \<open>int\<close>.\<close>

definition trade_risk :: "exec_notification \<Rightarrow> 32 word \<Rightarrow> 16 word \<Rightarrow> 16 word \<Rightarrow> int option" where
  "trade_risk trade price strike expiration =
     (let vol = sint (price - ucast strike) in do {
        vol' \<leftarrow> (if vol < 0 then int32 (- vol) else Some vol);
        risk \<leftarrow> int32 (vol' * 4);
        risk' \<leftarrow> (if expiration > 10 then int32 (risk + risk) else Some risk);
        (if en_liquidity trade = LIQUIDITY_MAKER then int32 (risk' - 2) else Some risk')
      })"

definition process_execution :: "exec_notification \<Rightarrow> exec_globals \<Rightarrow> (32 word \<times> exec_globals) option" where
  "process_execution trade g =
     (if en_type trade \<noteq> EXECUTION_TYPE \<and> en_subtype trade \<noteq> EXECUTION_SUBTYPE then Some (0, g)
      else
        (let price = bswap 4 (en_price trade);
             contracts = bswap 2 (en_contracts trade);
             strike = bswap 2 (en_strike trade);
             expiration = bswap 2 (en_expiration trade);
             message_id = bswap 8 (en_message_id trade)
         in if message_id \<le> old_message_id g then Some (0, g)
            else do {
              let g1 = g\<lparr>old_message_id := message_id,
                contracts_processed := contracts_processed g + ucast contracts\<rparr>;
              g2 \<leftarrow> count_trade trade (uint contracts) g1;
              risk \<leftarrow> trade_risk trade price strike expiration;
              Some (if risk > RISK_THRESHOLD then 1 else 0, g2)
            }))"

section \<open>The program\<close>

definition CHECK_EVERY :: nat where "CHECK_EVERY = 200"
definition STRIDE :: nat where "STRIDE = 3"
definition CHECK_STRIDE :: nat where "CHECK_STRIDE = 80"
definition MESSAGE_STRIDE :: nat where "MESSAGE_STRIDE = 32 * STRIDE"

text \<open>One turn of either loop, which then moves the pointer by its stride.\<close>

definition message_step :: "8 word list \<Rightarrow> nat \<Rightarrow> nat \<times> 32 word \<times> exec_globals
    \<Rightarrow> (nat \<times> 32 word \<times> exec_globals) option" where
  "message_step mem stride s =
     (let (message_start, status, g) = s in do {
        trade \<leftarrow> load_notification mem message_start;
        (ret_val, g') \<leftarrow> process_execution trade g;
        Some (message_start + stride, if ret_val \<noteq> 0 then 0x00BADBAD else status, g')
      })"

definition comp3_main :: "8 word list \<Rightarrow> exec_globals \<Rightarrow> (32 word \<times> exec_globals) option" where
  "comp3_main mem g =
     do {
       s1 \<leftarrow> for_count (\<lambda>i. message_step mem 32) 0 CHECK_EVERY (0, 0xFEFEFEFE, g);
       (p, status, g') \<leftarrow> for_count (\<lambda>i. message_step mem MESSAGE_STRIDE) 0 CHECK_STRIDE s1;
       Some (if status = 0xFEFEFEFE then 0x600D600D else status, g')
     }"

definition initial_globals :: exec_globals where
  "initial_globals = \<lparr>old_message_id = 0, contracts_processed = 0, puts_count = 0, calls_count = 0\<rparr>"

end
