(* ===== verification/Comp3_Props.thy ===== *)
theory Comp3_Props
  imports Comp3
begin

text \<open>
  Correctness of \<open>comp3.c\<close>: the byte swaps read the big-endian members, a message is processed at
  most once and in the order of the identifiers, its risk is the documented formula, and the
  program accepts its own data.  The evaluation on the data goes through \<open>run_rows\<close>, the same
  processing over the integers that the rows of the data are written as.
\<close>

section \<open>Byte order\<close>

definition be_int :: "8 word list \<Rightarrow> int" where
  "be_int bs = le_int (rev bs)"

lemma le_int_simps [simp]: "le_int [] = 0" "le_int (b # bs) = uint b + 256 * le_int bs"
  by (simp_all add: le_int_def)

lemma le_int_bounds: "0 \<le> le_int bs \<and> le_int bs < 256 ^ length bs"
proof (induction bs)
  case (Cons b bs)
  have "uint b < 256" using uint_bounded[of b] by simp
  with Cons show ?case by simp
qed simp

lemma le_bytes_Suc: "le_bytes (Suc n) x = word_of_int (x mod 256) # le_bytes n (x div 256)"
proof -
  have "x div (256 * 256 ^ k) = x div 256 div 256 ^ k" for k :: nat
    by (simp add: zdiv_zmult2_eq)
  then show ?thesis
    by (simp add: le_bytes_def upt_conv_Cons map_Suc_upt [symmetric] comp_def del: upt_Suc)
qed

lemma le_bytes_le_int: "le_bytes (length bs) (le_int bs) = bs"
proof (induction bs)
  case (Cons b bs)
  have "uint b < 256" using uint_bounded[of b] by simp
  then show ?case using Cons by (simp add: le_bytes_Suc)
qed (simp add: le_bytes_def)

lemma le_int_le_bytes: "le_int (le_bytes n x) = x mod 256 ^ n"
proof (induction n arbitrary: x)
  case (Suc n)
  have "uint (word_of_int (x mod 256) :: 8 word) = x mod 256"
    by (simp add: uint_word_of_int)
  then show ?case using Suc by (simp add: le_bytes_Suc zmod_zmult2_eq)
qed (simp add: le_bytes_def)

text \<open>Swapping the bytes of a little-endian load gives the big-endian value.\<close>

lemma bswap_be_int:
  assumes "length bs = n" "8 * n = LENGTH('a)"
  shows "bswap n (word_of_int (le_int bs) :: 'a::len word) = word_of_int (be_int bs)"
proof -
  have "(2 :: int) ^ LENGTH('a) = 256 ^ n"
    using assms(2) by (simp flip: assms(2) add: power_mult)
  then have "uint (word_of_int (le_int bs) :: 'a word) = le_int bs"
    using le_int_bounds[of bs] assms(1) by (simp add: uint_word_of_int)
  then show ?thesis using le_bytes_le_int[of bs] assms(1) by (simp add: bswap_def be_int_def)
qed

definition field :: "8 word list \<Rightarrow> nat \<Rightarrow> nat \<Rightarrow> nat \<Rightarrow> int" where
  "field mem p k n = be_int (take n (drop (p + k) mem))"

lemma bswap_load:
  assumes "load_le mem n q = Some (w :: 'a::len word)" "8 * n = LENGTH('a)"
  shows "bswap n w = word_of_int (be_int (take n (drop q mem)))"
proof -
  from assms(1) have q: "q + n \<le> length mem" and w: "w = word_of_int (le_int (take n (drop q mem)))"
    by (auto simp: load_le_def split: if_splits)
  show ?thesis unfolding w by (rule bswap_be_int) (use q assms(2) in auto)
qed

lemma load_notification_decoded:
  assumes "load_notification mem p = Some t"
  shows "bswap 4 (en_price t) = word_of_int (field mem p 8 4)
    \<and> bswap 2 (en_contracts t) = word_of_int (field mem p 17 2)
    \<and> bswap 2 (en_strike t) = word_of_int (field mem p 20 2)
    \<and> bswap 2 (en_expiration t) = word_of_int (field mem p 22 2)
    \<and> bswap 8 (en_message_id t) = word_of_int (field mem p 24 8)"
  using assms
  by (auto simp: load_notification_def field_def bind_eq_Some_conv intro!: bswap_load)

text \<open>The swaps undo the byte order of the machine: every member of a message that the processing
  swaps is the number that its bytes in memory spell most significant first, and the bytes of that
  number are the bytes in memory again.
\<close>

theorem notification_big_endian:
  assumes "load_notification mem p = Some t"
  shows "uint (bswap 4 (en_price t)) = field mem p 8 4
    \<and> uint (bswap 2 (en_contracts t)) = field mem p 17 2
    \<and> uint (bswap 2 (en_strike t)) = field mem p 20 2
    \<and> uint (bswap 2 (en_expiration t)) = field mem p 22 2
    \<and> uint (bswap 8 (en_message_id t)) = field mem p 24 8
    \<and> rev (le_bytes 8 (uint (bswap 8 (en_message_id t)))) = take 8 (drop (p + 24) mem)"
proof -
  have len: "p + 32 \<le> length mem"
    using assms by (auto simp: load_notification_def bind_eq_Some_conv load_le_def split: if_splits)
  have bound: "0 \<le> field mem p k n \<and> field mem p k n < 256 ^ n" for k n
    using le_int_bounds[of "rev (take n (drop (p + k) mem))"]
    by (auto simp: field_def be_int_def elim!: order.strict_trans2)
  have "rev (le_bytes 8 (field mem p 24 8)) = take 8 (drop (p + 24) mem)"
    using le_bytes_le_int[of "rev (take 8 (drop (p + 24) mem))"] len
    by (simp add: field_def be_int_def)
  then show ?thesis
    using load_notification_decoded[OF assms] bound[of 8 4] bound[of 17 2] bound[of 20 2]
      bound[of 22 2] bound[of 24 8]
    by (simp add: uint_word_of_int)
qed

theorem notification_big_endian_witness:
  "\<exists>t. load_notification (map word_of_int [1..40]) 3 = Some t
     \<and> uint (bswap 2 (en_contracts t)) = field (map word_of_int [1..40]) 3 17 2"
proof -
  obtain t where "load_notification (map word_of_int [1..40]) 3 = Some t"
    by (simp add: load_notification_def load_le_def rd_def upto.simps)
  then show ?thesis using notification_big_endian[of "map word_of_int [1..40]" 3 t] by simp
qed

section \<open>The order of the messages\<close>

definition message_id :: "exec_notification \<Rightarrow> 64 word" where
  "message_id t = bswap 8 (en_message_id t)"

definition execution :: "exec_notification \<Rightarrow> bool" where
  "execution t = (en_type t = EXECUTION_TYPE \<or> en_subtype t = EXECUTION_SUBTYPE)"

lemma process_execution_ignores:
  "\<not> (execution t \<and> old_message_id g < message_id t) \<Longrightarrow> process_execution t g = Some (0, g)"
  by (auto simp: process_execution_def execution_def message_id_def Let_def not_less)

lemma count_trade_keeps:
  "count_trade t c g = Some g' \<Longrightarrow>
     old_message_id g' = old_message_id g \<and> contracts_processed g' = contracts_processed g"
  by (auto simp: count_trade_def bind_eq_Some_conv split: if_splits)

lemma process_execution_accepts:
  assumes "execution t" "old_message_id g < message_id t" "process_execution t g = Some (r, g')"
  shows "old_message_id g' = message_id t
    \<and> contracts_processed g' = contracts_processed g + ucast (bswap 2 (en_contracts t) :: 16 word)"
proof -
  let ?g1 = "g\<lparr>old_message_id := message_id t,
    contracts_processed := contracts_processed g + ucast (bswap 2 (en_contracts t) :: 16 word)\<rparr>"
  have "\<not> (en_type t \<noteq> EXECUTION_TYPE \<and> en_subtype t \<noteq> EXECUTION_SUBTYPE)"
    using assms(1) by (auto simp: execution_def)
  moreover have "\<not> bswap 8 (en_message_id t) \<le> old_message_id g"
    using assms(2) by (simp add: message_id_def)
  ultimately obtain g2 where "count_trade t (uint (bswap 2 (en_contracts t) :: 16 word)) ?g1 = Some g2"
    "g' = g2"
    using assms(3) unfolding process_execution_def Let_def message_id_def
    by (simp only: if_False bind_eq_Some_conv) blast
  then show ?thesis using count_trade_keeps[of t _ ?g1 g2] by simp
qed

text \<open>C25: The identifier of the last message never decreases, it is the largest identifier of an
  execution that has been presented, and presenting a message a second time, at once or after
  others, changes nothing and reports no risk.
\<close>

theorem messages_processed_once:
  assumes "process_execution t g = Some (r, g1)" "old_message_id g1 \<le> old_message_id g2"
  shows "old_message_id g \<le> old_message_id g1
    \<and> old_message_id g1 = (if execution t then max (old_message_id g) (message_id t) else old_message_id g)
    \<and> process_execution t g2 = Some (0, g2)"
proof (cases "execution t \<and> old_message_id g < message_id t")
  case True
  then have id1: "old_message_id g1 = message_id t"
    using process_execution_accepts assms(1) by blast
  then have "process_execution t g2 = Some (0, g2)"
    using assms(2) by (intro process_execution_ignores) auto
  with id1 True show ?thesis by (simp add: less_imp_le)
next
  case False
  then have g1: "g1 = g" using process_execution_ignores[OF False] assms(1) by simp
  then have "\<not> (execution t \<and> old_message_id g2 < message_id t)" using False assms(2) by auto
  then have "process_execution t g2 = Some (0, g2)" by (rule process_execution_ignores)
  with g1 False show ?thesis by (auto simp: max_def not_less)
qed

theorem messages_processed_once_witness:
  "let t = \<lparr>en_type = 0x4e, en_subtype = 0x45, en_trade_type = 0x50, en_side = 0x42, en_timestamp = 0,
      en_price = 0x01000000, en_symbol = [], en_contracts = 0x0300, en_liquidity = 2, en_strike = 0x0200,
      en_expiration = 0, en_message_id = 0x0700000000000000\<rparr>
   in case process_execution t initial_globals of
        None \<Rightarrow> False
      | Some (r, g) \<Rightarrow> old_message_id g = 7 \<and> puts_count g = 3 \<and> process_execution t g = Some (0, g)"
proof -
  define t where "t = \<lparr>en_type = 0x4e, en_subtype = 0x45, en_trade_type = 0x50, en_side = 0x42,
      en_timestamp = 0, en_price = 0x01000000, en_symbol = [], en_contracts = 0x0300, en_liquidity = 2,
      en_strike = 0x0200, en_expiration = 0, en_message_id = 0x0700000000000000\<rparr>"
  define g where "g = \<lparr>old_message_id = 7, contracts_processed = 3, puts_count = 3, calls_count = 0\<rparr>"
  have "process_execution t initial_globals = Some (0, g)"
    unfolding t_def g_def by code_simp
  then have g: "process_execution t initial_globals = Some (0, g)" "old_message_id g = 7"
    "puts_count g = 3"
    by (simp_all add: g_def)
  show ?thesis using messages_processed_once[OF g(1), of g] g by (simp add: t_def [symmetric])
qed

section \<open>Risk\<close>

lemma price_range:
  fixes a b :: int
  assumes "0 \<le> a" "a < 2 ^ 16" "0 \<le> b" "b < 2 ^ 27"
  shows "- (2 ^ 31) \<le> b - a \<and> b - a < 2 ^ 31"
  using assms by simp

lemma price_distance:
  fixes a b :: int
  assumes "0 \<le> a" "a < 2 ^ 16" "0 \<le> b" "b < 2 ^ 27"
  shows "\<bar>b - a\<bar> < 2 ^ 27"
  using assms by simp

text \<open>For prices below \<open>2 ^ 27\<close> nothing overflows and the risk is four times the distance of price and strike, doubled for
  an expiration beyond ten and reduced by two for a maker.
\<close>

theorem trade_risk_formula:
  assumes "uint price < 2 ^ 27"
  shows "trade_risk t price strike expiration =
    Some (4 * \<bar>uint price - uint strike\<bar> * (if 10 < uint expiration then 2 else 1)
      - (if en_liquidity t = LIQUIDITY_MAKER then 2 else 0))"
proof -
  have s: "0 \<le> uint strike" "uint strike < 2 ^ 16" "0 \<le> uint price"
    using uint_bounded[of strike] by simp_all
  have "sint (price - ucast strike) = uint price - uint strike"
  proof -
    have d: "sint (word_of_int d :: 32 word) = d" if "- (2 ^ 31) \<le> d" "d < 2 ^ 31" for d
      using that by (simp add: signed_of_int signed_take_bit_int_eq_self)
    have "price - ucast strike = word_of_int (uint price - uint strike)"
      by (simp add: wi_hom_sub [symmetric] unsigned_ucast_eq)
    moreover have "- (2 ^ 31) \<le> uint price - uint strike" "uint price - uint strike < 2 ^ 31"
      using price_range[OF s assms] by simp_all
    ultimately show ?thesis by (simp only: d)
  qed
  then obtain d where d: "sint (price - ucast strike) = d" "d = uint price - uint strike" by blast
  have "\<bar>d\<bar> < 2 ^ 27" unfolding d(2) using price_distance[OF s assms] .
  moreover have "10 < expiration \<longleftrightarrow> 10 < uint expiration"
    by (simp add: word_less_def)
  ultimately show ?thesis unfolding d(2) [symmetric]
    by (cases "d < 0"; cases "10 < uint expiration") (simp_all add: trade_risk_def Let_def int32_def d(1))
qed

theorem trade_risk_formula_witness:
  "trade_risk \<lparr>en_type = 0x4e, en_subtype = 0x45, en_trade_type = 0x50, en_side = 0x42, en_timestamp = 0,
      en_price = 0, en_symbol = [], en_contracts = 0, en_liquidity = 1, en_strike = 0,
      en_expiration = 0, en_message_id = 0\<rparr> 3565 3563 12 = Some 14"
  using trade_risk_formula[of 3565 _ 3563 12] by (simp add: LIQUIDITY_MAKER_def)

text \<open>A message whose type is that of an execution but whose subtype is not is processed all the
  same, since the test for messages of no interest requires both to differ.
\<close>

theorem other_subtype_is_processed:
  "\<exists>t r g. en_type t = EXECUTION_TYPE \<and> en_subtype t \<noteq> EXECUTION_SUBTYPE
     \<and> process_execution t initial_globals = Some (r, g) \<and> r = 1 \<and> contracts_processed g = 3"
proof -
  define t where "t = \<lparr>en_type = 0x4e, en_subtype = 0x51, en_trade_type = 0x50, en_side = 0x42,
      en_timestamp = 0, en_price = 0x01010000, en_symbol = [], en_contracts = 0x0300, en_liquidity = 2,
      en_strike = 0x0200, en_expiration = 0, en_message_id = 0x0700000000000000\<rparr>"
  define g where "g = \<lparr>old_message_id = 7, contracts_processed = 3, puts_count = 3, calls_count = 0\<rparr>"
  have "process_execution t initial_globals = Some (1, g)"
    unfolding t_def g_def by code_simp
  then show ?thesis
    by (intro exI[of _ t] exI[of _ "1 :: 32 word"] exI[of _ g])
      (simp add: t_def g_def EXECUTION_TYPE_def EXECUTION_SUBTYPE_def)
qed

section \<open>The program on its data\<close>

text \<open>The members of a row of the data, most significant first, as bits of its number.\<close>

lemma le_int_append: "le_int (xs @ ys) = le_int xs + 256 ^ length xs * le_int ys"
  by (induction xs) (simp_all add: algebra_simps)

lemma le_int_digits:
  "le_int (map (\<lambda>k. word_of_int (r div 256 ^ k mod 256)) [a..<a + n]) = r div 256 ^ a mod 256 ^ n"
proof (induction n arbitrary: a)
  case (Suc n)
  define x where "x = r div 256 ^ a"
  have x: "r div 256 ^ Suc a = x div 256"
    by (simp only: x_def power_Suc2 zdiv_zmult2_eq)
  have "le_int (map (\<lambda>k. word_of_int (r div 256 ^ k mod 256)) [a..<a + Suc n])
      = uint (word_of_int (x mod 256) :: 8 word) + 256 * (x div 256 mod 256 ^ n)"
    using Suc.IH[of "Suc a"] by (simp only: upt_conv_Cons x flip: x_def) (simp add: upt_conv_Cons x_def [symmetric])
  also have "\<dots> = x mod 256 ^ Suc n"
    by (simp add: uint_word_of_int zmod_zmult2_eq)
  finally show ?case by (simp only: x_def)
qed simp

lemma length_row_bytes [simp]: "length (row_bytes r) = 32"
  by (simp add: row_bytes_def)

lemma be_int_row:
  assumes "p + n \<le> 32"
  shows "be_int (take n (drop p (row_bytes r))) = r div 256 ^ (32 - p - n) mod 256 ^ n"
proof -
  have "take n (drop p (row_bytes r))
      = rev (map (\<lambda>k. word_of_int (r div 256 ^ k mod 256)) [32 - p - n..<32 - p - n + n])"
    using assms by (simp add: row_bytes_def drop_rev take_rev take_map drop_map del: upt_Suc)
  then show ?thesis by (simp only: be_int_def rev_rev_ident le_int_digits)
qed

definition bits :: "nat \<Rightarrow> nat \<Rightarrow> int \<Rightarrow> 'a::len word" where
  "bits k n r = word_of_int (take_bit n (drop_bit k r))"

text \<open>A row read as a message whose members are in the order of the machine already.\<close>

definition decoded :: "int \<Rightarrow> exec_notification" where
  "decoded r = \<lparr>en_type = bits 248 8 r, en_subtype = bits 240 8 r, en_trade_type = bits 232 8 r,
     en_side = bits 224 8 r, en_timestamp = 0, en_price = bits 160 32 r, en_symbol = [],
     en_contracts = bits 104 16 r, en_liquidity = bits 96 8 r, en_strike = bits 80 16 r,
     en_expiration = bits 64 16 r, en_message_id = bits 0 64 r\<rparr>"

text \<open>The same with one pass over the bits, for the evaluation.\<close>

lemma decoded_code [code]:
  "decoded r =
     (let r64 = drop_bit 64 r; r80 = drop_bit 16 r64; r96 = drop_bit 16 r80; r104 = drop_bit 8 r96;
          r160 = drop_bit 56 r104; r224 = drop_bit 64 r160; r232 = drop_bit 8 r224;
          r240 = drop_bit 8 r232; r248 = drop_bit 8 r240
      in \<lparr>en_type = bits 0 8 r248, en_subtype = bits 0 8 r240, en_trade_type = bits 0 8 r232,
        en_side = bits 0 8 r224, en_timestamp = 0, en_price = bits 0 32 r160, en_symbol = [],
        en_contracts = bits 0 16 r104, en_liquidity = bits 0 8 r96, en_strike = bits 0 16 r80,
        en_expiration = bits 0 16 r64, en_message_id = bits 0 64 r\<rparr>)"
  by (simp add: decoded_def bits_def Let_def)

definition process_decoded :: "exec_notification \<Rightarrow> exec_globals \<Rightarrow> (32 word \<times> exec_globals) option" where
  "process_decoded t g =
     (if en_type t \<noteq> EXECUTION_TYPE \<and> en_subtype t \<noteq> EXECUTION_SUBTYPE
        \<or> en_message_id t \<le> old_message_id g then Some (0, g)
      else do {
        g2 \<leftarrow> count_trade t (uint (en_contracts t)) (g\<lparr>old_message_id := en_message_id t,
          contracts_processed := contracts_processed g + ucast (en_contracts t)\<rparr>);
        risk \<leftarrow> trade_risk t (en_price t) (en_strike t) (en_expiration t);
        Some (if risk > RISK_THRESHOLD then 1 else 0, g2)
      })"

lemma process_execution_decoded:
  assumes "en_type d = en_type t" "en_subtype d = en_subtype t" "en_trade_type d = en_trade_type t"
    "en_side d = en_side t" "en_liquidity d = en_liquidity t" "en_price d = bswap 4 (en_price t)"
    "en_contracts d = bswap 2 (en_contracts t)" "en_strike d = bswap 2 (en_strike t)"
    "en_expiration d = bswap 2 (en_expiration t)" "en_message_id d = bswap 8 (en_message_id t)"
  shows "process_execution t g = process_decoded d g"
proof -
  have "count_trade t = count_trade d" "trade_risk t = trade_risk d"
    using assms(3-5) by (auto simp: count_trade_def trade_risk_def fun_eq_iff)
  then show ?thesis
    using assms by (simp add: process_execution_def process_decoded_def Let_def)
qed

text \<open>The bytes of the messages lie in the rows.\<close>

lemma take_drop_concat:
  assumes "i < length rs" "k + n \<le> 32"
  shows "take n (drop (32 * i + k) (concat (map row_bytes rs))) = take n (drop k (row_bytes (rs ! i)))"
  using assms
proof (induction rs arbitrary: i)
  case (Cons r rs)
  then show ?case by (cases i) (simp_all add: add.assoc)
qed simp

lemma length_concat_rows: "length (concat (map row_bytes rs)) = 32 * length rs"
  by (induction rs) simp_all

lemma field_row:
  assumes "i < length rs" "k + n \<le> 32"
  shows "field (concat (map row_bytes rs)) (32 * i) k n = take_bit (8 * n) (drop_bit (8 * (32 - k - n)) (rs ! i))"
  using assms
  by (simp add: field_def take_drop_concat be_int_row take_bit_eq_mod drop_bit_eq_div power_mult)

lemma rd_row:
  assumes "i < length rs" "k < 32"
  shows "rd (concat (map row_bytes rs)) (32 * i + k) = Some (word_of_int (take_bit 8 (drop_bit (8 * (31 - k)) (rs ! i))))"
proof -
  let ?m = "concat (map row_bytes rs)"
  have lt: "32 * i + k < length ?m" using assms by (simp add: length_concat_rows)
  then have "take 1 (drop (32 * i + k) ?m) = [?m ! (32 * i + k)]"
    by (simp add: Cons_nth_drop_Suc [symmetric])
  then have "uint (?m ! (32 * i + k)) = field ?m (32 * i) k 1" by (simp add: field_def be_int_def)
  also have "\<dots> = take_bit 8 (drop_bit (8 * (31 - k)) (rs ! i))"
    using field_row[of i rs k 1] assms by simp
  finally show ?thesis using lt by (simp add: word_uint_eq_iff uint_word_of_int take_bit_eq_mod)
qed

lemma load_row:
  assumes "i < length rs"
  shows "\<exists>t. load_notification (concat (map row_bytes rs)) (32 * i) = Some t
    \<and> process_execution t g = process_decoded (decoded (rs ! i)) g"
proof -
  let ?m = "concat (map row_bytes rs)"
  have len: "32 * i + 32 \<le> length ?m" using assms by (simp add: length_concat_rows)
  obtain t where t: "load_notification ?m (32 * i) = Some t"
    using len by (auto simp: load_notification_def load_le_def)
  have bytes: "en_type t = bits 248 8 (rs ! i)" "en_subtype t = bits 240 8 (rs ! i)"
    "en_trade_type t = bits 232 8 (rs ! i)" "en_side t = bits 224 8 (rs ! i)"
    "en_liquidity t = bits 96 8 (rs ! i)"
    using t rd_row[OF assms, of 0] rd_row[OF assms, of 1] rd_row[OF assms, of 2]
      rd_row[OF assms, of 3] rd_row[OF assms, of 19]
    by (auto simp: load_notification_def bind_eq_Some_conv bits_def)
  have "process_execution t g = process_decoded (decoded (rs ! i)) g"
    by (rule process_execution_decoded)
      (simp_all add: decoded_def bytes load_notification_decoded[OF t] bits_def field_row assms)
  with t show ?thesis by blast
qed

primrec run_rows :: "int list \<Rightarrow> 32 word \<times> exec_globals \<Rightarrow> (32 word \<times> exec_globals) option" where
  "run_rows [] s = Some s"
| "run_rows (r # rs) s = do {
     (v, g) \<leftarrow> process_decoded (decoded r) (snd s);
     run_rows rs (if v \<noteq> 0 then 0x00BADBAD else fst s, g)
   }"

lemma run_rows_append: "run_rows (xs @ ys) s = run_rows xs s \<bind> run_rows ys"
  by (induction xs arbitrary: s) (auto simp: Option.bind_assoc split: prod.splits intro!: Option.bind_cong)

fun thirds :: "'a list \<Rightarrow> 'a list" where
  "thirds [] = []"
| "thirds (x # xs) = x # thirds (drop 2 xs)"

text \<open>A loop over the memory is a run over its rows.\<close>

lemma for_count_rows:
  assumes "\<forall>j<n. a + w * j < length rs"
  shows "for_count (\<lambda>i. message_step (concat (map row_bytes rs)) (32 * w)) i n (32 * a, st, g)
    = do { (st', g') \<leftarrow> run_rows (map (\<lambda>j. rs ! (a + w * j)) [0..<n]) (st, g);
           Some (32 * (a + w * n), st', g') }"
  using assms
proof (induction n arbitrary: a i st g)
  case (Suc n)
  have a: "a < length rs" using Suc.prems by (metis add_0_right mult_0_right zero_less_Suc)
  have IH: "for_count (\<lambda>i. message_step (concat (map row_bytes rs)) (32 * w)) (Suc i) n (32 * (a + w), st', g')
      = do { (st', g') \<leftarrow> run_rows (map (\<lambda>j. rs ! (a + w + w * j)) [0..<n]) (st', g');
             Some (32 * (a + w + w * n), st', g') }" for st' g'
    by (rule Suc.IH) (use Suc.prems in \<open>auto simp: algebra_simps dest: spec[of _ "Suc _"]\<close>)
  have rows: "map (\<lambda>j. rs ! (a + w * j)) [0..<Suc n] = rs ! a # map (\<lambda>j. rs ! (a + w + w * j)) [0..<n]"
    by (simp add: upt_conv_Cons map_Suc_upt [symmetric] comp_def algebra_simps del: upt_Suc)
  obtain t where "load_notification (concat (map row_bytes rs)) (32 * a) = Some t"
    "process_execution t g = process_decoded (decoded (rs ! a)) g"
    using load_row[OF a] by blast
  then have step: "message_step (concat (map row_bytes rs)) (32 * w) (32 * a, st, g)
    = do { (v, g') \<leftarrow> process_decoded (decoded (rs ! a)) g;
           Some (32 * (a + w), if v \<noteq> 0 then 0x00BADBAD else st, g') }"
    by (simp add: message_step_def)
  have e: "32 * (a + w + w * n) = 32 * (a + w * Suc n)" by simp
  show ?case
    unfolding for_count.simps step rows run_rows.simps Option.bind_assoc
    by (auto simp only: IH e snd_conv fst_conv Option.bind_assoc bind.simps split: prod.splits
        intro!: Option.bind_cong)
qed simp

lemma thirds_nth: "3 * j < length xs \<Longrightarrow> thirds xs ! j = xs ! (3 * j) \<and> j < length (thirds xs)"
proof (induction xs arbitrary: j rule: thirds.induct)
  case (2 x xs)
  then show ?case by (cases j) (simp_all add: eval_nat_numeral)
qed simp

lemma thirds_rows:
  assumes "\<forall>j<n. a + 3 * j < length rs"
  shows "map (\<lambda>j. rs ! (a + 3 * j)) [0..<n] = take n (thirds (drop a rs))"
proof (rule nth_equalityI)
  have nth: "thirds (drop a rs) ! j = rs ! (a + 3 * j) \<and> j < length (thirds (drop a rs))" if "j < n" for j
  proof -
    have "a + 3 * j < length rs" using assms that by blast
    then show ?thesis using thirds_nth[of j "drop a rs"] by simp
  qed
  have "n \<le> length (thirds (drop a rs))"
    using nth[of "n - 1"] by (cases n) auto
  then show "length (map (\<lambda>j. rs ! (a + 3 * j)) [0..<n]) = length (take n (thirds (drop a rs)))"
    by simp
  show "map (\<lambda>j. rs ! (a + 3 * j)) [0..<n] ! i = take n (thirds (drop a rs)) ! i"
    if "i < length (map (\<lambda>j. rs ! (a + 3 * j)) [0..<n])" for i
    using nth that by simp
qed

lemma mod_3_less: "2 \<le> n \<Longrightarrow> Suc n mod 3 = 1 \<Longrightarrow> (n - 2) mod 3 = (1 :: nat)"
proof -
  assume n: "2 \<le> n" "Suc n mod 3 = 1"
  from n(1) have "Suc n = 3 + (n - 2)" by linarith
  then have "Suc n mod 3 = (n - 2) mod 3" by (simp only: mod_add_self1)
  with n(2) show ?thesis by (simp only:)
qed

lemma thirds_append: "length xs mod 3 = 1 \<Longrightarrow> thirds (xs @ ys) = thirds xs @ thirds (drop 2 ys)"
proof (induction xs rule: thirds.induct)
  case (2 x xs)
  then show ?case
  proof (cases "xs = []")
    case False
    with "2.prems" have "2 \<le> length xs" by (cases xs) (auto simp: Suc_le_eq)
    moreover from this have "length (drop 2 xs) mod 3 = 1" using "2.prems" mod_3_less[of "length xs"] by (simp del: mod_Suc)
    ultimately show ?thesis using "2.IH" by simp
  qed simp
qed simp

lemma length_rows:
  "length raw_rows_1 = 150" "length raw_rows_2 = 150" "length raw_rows_3 = 150" "length raw_rows_4 = 150"
  by (simp_all add: raw_rows_1_def raw_rows_2_def raw_rows_3_def raw_rows_4_def)

lemma comp3_main_rows:
  "comp3_main raw_data g =
     do { (st, g') \<leftarrow> run_rows (take 200 raw_rows @ take 80 (thirds (drop 200 raw_rows))) (0xFEFEFEFE, g);
          Some (if st = 0xFEFEFEFE then 0x600D600D else st, g') }"
proof -
  have len: "length raw_rows = 600" by (simp add: raw_rows_def length_rows)
  have rows: "map (\<lambda>j. raw_rows ! (0 + 1 * j)) [0..<200] = take 200 raw_rows"
    by (rule nth_equalityI) (simp_all add: len)
  have first: "for_count (\<lambda>i. message_step raw_data 32) 0 CHECK_EVERY (0, 0xFEFEFEFE, g)
      = do { (st, g') \<leftarrow> run_rows (take 200 raw_rows) (0xFEFEFEFE, g); Some (32 * 200, st, g') }"
    using for_count_rows[of 200 0 1 raw_rows 0 "0xFEFEFEFE" g] rows
    by (simp add: len raw_data_def CHECK_EVERY_def)
  have second: "for_count (\<lambda>i. message_step raw_data MESSAGE_STRIDE) 0 CHECK_STRIDE (32 * 200, s)
      = do { (st', g'') \<leftarrow> run_rows (take 80 (thirds (drop 200 raw_rows))) s; Some (32 * 440, st', g'') }"
    for s
    using for_count_rows[of 80 200 3 raw_rows 0 "fst s" "snd s"] thirds_rows[of 80 200 raw_rows]
    by (simp add: len raw_data_def CHECK_STRIDE_def MESSAGE_STRIDE_def STRIDE_def)
  show ?thesis
    unfolding comp3_main_def first run_rows_append Option.bind_assoc
    by (intro Option.bind_cong refl)
      (simp only: case_prod_unfold prod.collapse second Option.bind_assoc bind.simps fst_conv snd_conv)
qed

text \<open>The run, in six parts.\<close>

lemma run_part_1:
  "run_rows (take 50 raw_rows_1) (0xFEFEFEFE, initial_globals)
     = Some (0xFEFEFEFE, \<lparr>old_message_id = 33196632491622254, contracts_processed = 988, puts_count = 67, calls_count = 33\<rparr>)"
  by code_simp

lemma run_part_2:
  "run_rows (take 50 (drop 50 raw_rows_1)) (0xFEFEFEFE, \<lparr>old_message_id = 33196632491622254, contracts_processed = 988, puts_count = 67, calls_count = 33\<rparr>)
     = Some (0xFEFEFEFE, \<lparr>old_message_id = 58926678039146277, contracts_processed = 1922, puts_count = - 70, calls_count = - 54\<rparr>)"
  by code_simp

lemma run_part_3:
  "run_rows (drop 100 raw_rows_1) (0xFEFEFEFE, \<lparr>old_message_id = 58926678039146277, contracts_processed = 1922, puts_count = - 70, calls_count = - 54\<rparr>)
     = Some (0xFEFEFEFE, \<lparr>old_message_id = 91671853280692181, contracts_processed = 2763, puts_count = 49, calls_count = 62\<rparr>)"
  by code_simp

lemma run_part_4:
  "run_rows (take 50 raw_rows_2) (0xFEFEFEFE, \<lparr>old_message_id = 91671853280692181, contracts_processed = 2763, puts_count = 49, calls_count = 62\<rparr>)
     = Some (0xFEFEFEFE, \<lparr>old_message_id = 117504301361543793, contracts_processed = 3635, puts_count = 80, calls_count = 87\<rparr>)"
  by code_simp

lemma strided_rows_2:
  "thirds (drop 50 raw_rows_2) = [
     0x4e4550535e9dd4f000002f3b57544920200005022f29000801a2f55816f57a8d,
     0x4e4543425e9dd502000011ec4e464c582000060211de000901a5e377b2d8b31b,
     0x4e4550535e9dd51000001b045754492020001a021af1000901adb65d23ea98fd,
     0x4e4550535e9dd529000002765350582020000a020272000701b2e6a856e2822f,
     0x4e4550425e9dd54400001fb553505920200006021fbb000a01bc74fe94607fda,
     0x4e4543425e9dd5530000359c4e464c582000110135a0000d01c172c3ade9d8dc,
     0x4e4543535e9dd56900000f5a474f4f474c001b010f69000801c5a80d4961cea8,
     0x4e4543425e9dd5770000319f53505820200019013198000a01c97ce9285ae0be,
     0x4e4543535e9dd592000003e6535059202000060103f3000701cf4d38dc167950,
     0x4e4543535e9dd5ad00000b0753505820200012010b1a000201d9bbbff3911cdb,
     0x4e4543425e9dd5c0000028745350582020000f012880000901e2d3941d0ee0cc,
     0x4e4550535e9dd5d7000014fe4e464c582000030214ff000201ec92476cb533b2,
     0x4e4550425e9dd5e900003141474f4f474c000e023141000701f296b98cf0ad5a,
     0x4e4543425e9dd604000016ba474f4f474c001e0116bc000a01f9320b763e3ca9,
     0x4e4543535e9dd619000036d95350592020000b0236d5000201fd4c9aa0c2981c,
     0x4e4543535e9dd62b00002a40474f4f474c001c012a3e000302056aeccc2a4f6c,
     0x4e4543425e9dd64600000b17474f4f474c0019010b0900090209d0a07774a2e3,
     0x4e4550425e9dd65b000035c0474f4f474c00200235bd000a0210a1b9dac30c11,
     0x4e4543535e9dd66b000033a8535058202000060133ab00060217e57292a16adb,
     0x4e4543425e9dd67c00000ec3474f4f474c0020020ed3000a021bee0f13d6b4a3,
     0x4e4543535e9dd69400001360594d2020200021011367000b02205cda2ed26011,
     0x4e4550535e9dd6ac00003a46474f4f474c0020023a46000202253c6610aadb87,
     0x4e4543535e9dd6c40000217c4620202020000e0221800006022d4b00e1be10cd,
     0x4e4550425e9dd6e0000028274e464c5820001301282d000c0232663d2b8ea017,
     0x4e4543535e9dd6f60000327a5754492020001b01328c0006023557290dda9e7f,
     0x4e4543535e9dd70f000016424141504c2000090116380007023a95cf7ba0f809,
     0x4e4543425e9dd72200001720535059202000150217230007023f4d98e089a2ed,
     0x4e4543535e9dd736000017d34141504c2000080117d600040242b5c2f1524fef,
     0x4e4543425e9dd74e000037da575449202000060237d8000d02471ed14d2db682,
     0x4e4543425e9dd762000033c64141504c2000140133b60002024e702e286c5883,
     0x4e4550535e9dd76f000008d5535059202000040108ca000b0253c30bfbda2824,
     0x4e4550425e9dd77d000011564141504c200022021152000602594dc4a5428633,
     0x4e4543535e9dd79800001d2353505920200017021d2d0005025f8573f74dd9eb,
     0x4e4550425e9dd7a40000082e474f4f474c001f02083b00020263d58273e7deb0]"
  by (simp add: raw_rows_2_def)

lemma strided_rows_3:
  "take 46 (thirds (drop 2 raw_rows_3)) = [
     0x4e4543425e9dd7c000000e814e464c58200013020e7c0007026eb345710d2227,
     0x4e4550535e9dd7db000008e1535058202000100208d9000d02750fe0020d7ac3,
     0x4e4550535e9dd7f800001f0b474f4f474c0013021f0f000a027e869bf19b8192,
     0x4e4543535e9dd80a000009dd5754492020001b0209ea00050282c3e0146215e6,
     0x4e4550535e9dd81d0000282e5350592020000f01283a000702898240bda1a2cd,
     0x447a50425e9dd832000010144620202020001d01101c000a028f4d78f16a261d,
     0x436a50535e9dd8560000050d4e464c58200008020511000b029726da688d165a,
     0x4e4550535e9dd87300002d3e45532020200010012d3c000702a0f716684efb7c,
     0x4e4550535e9dd885000013b84e464c582000150213b7000602a9a2004889c2c4,
     0x4e4543425e9dd89d00002592594d202020001102258a000c02ad042c970f5549,
     0x4e4543425e9dd8b700000a63594d202020001f010a5f000a02b51ba0be15e1aa,
     0x4e4543535e9dd8cd000016785350582020001c01167e000402b96af99e9829ca,
     0x4e4550535e9dd8de00000076594d202020000c010077000d02bbb98699bde8a8,
     0x4e4550535e9dd8eb00000f2e53505820200022010f39000702c18a91aaca39fe,
     0x4e4550535e9dd8f90000186e4141504c20001c01186e000b02c5fff3883b5bc0,
     0x4e4550425e9dd90a000020234e464c58200010012013000902c9f9fc4440f167,
     0x4e4543535e9dd91e00000efc5350592020000e010f03000802ced64211f1afd6,
     0x4e4543535e9dd934000026d8462020202000160126d4000202d3c47feee15afb,
     0x4e4543535e9dd9430000222f5350592020002001222c000b02da38c105413b1a,
     0x4e4543535e9dd959000014af455320202000080114ad000702ded56da171fbf9,
     0x4e4543425e9dd96f00002da457544920200014012d92000402e53773636121d3,
     0x4e4550425e9dd97f000026135350592020000401260d000b02e964dc74857fb3,
     0x4e4543535e9dd9a20000292e4e464c5820000502293b000702f252c6f15d30c4,
     0x4e4550425e9dd9be000030d95350592020000a0230e1000502f98e0d6b999073,
     0x4e4550535e9dd9d400000b085350592020001a020af7000a02febb71d1612c03,
     0x4e4550535e9dd9ea00002ef14141504c20001c022ef2000a0307363037712b17,
     0x496750535e9dd9fc00001e41474f4f474c0020021e2f0003030d7c473004cc60,
     0x4e4543425e9dda0d00000a07575449202000170109ff000d0312bd2c0a1c4c8e,
     0x4e4543535e9dda330000152e4620202020001a011532000603194e67e5f9e987,
     0x4e4550535e9dda43000001f9535059202000100201e80006031fc54c31a53586,
     0x4e4543425e9dda50000006424141504c200011020649000c03270c853b533395,
     0x4e4550535e9dda7300002e6d594d2020200010012e6d000b03347b3e50152f90,
     0x4e4550425e9dda83000005a35350592020000f01059f00020339c7411a13722a,
     0x4e4550425e9dda970000211a4e464c5820002001211c000303414b7b6831e2f5,
     0x4e4543535e9ddab1000010f4455320202000050210f8000b0348414f3de22d40,
     0x4e4543425e9ddad800000489455320202000070204970007034fe682fb308ffe,
     0x4e4550425e9ddaea00002cb75350592020001c012cc700070354d8dbbcad39f3,
     0x4e4550535e9ddafb000004034141504c20000b0203f30003035d597fb539a2e3,
     0x4e4550425e9ddb09000023734e464c5820001d012376000203649686c17c9f57,
     0x4e4550425e9ddb1800001d8e46202020200017021d830002036d315abf4e2ba7,
     0x4e4543535e9ddb3000000e2c4141504c200014020e3e00050373359af963f952,
     0x4e4543425e9ddb4500000fe3474f4f474c0017010fe600040379d981ca630735,
     0x4e4543425e9ddb5d00003a4c594d202020001a013a500005037e9b8a6f221312,
     0x4e4550425e9ddb6f000012b6462020202000160112a30007038247776431cc61,
     0x4e4550535e9ddb8b000021e04620202020001e0221e80009038c7f0c48dc0ca0,
     0x4e4543535e9ddbac00002517474f4f474c000d02250e000b0397b97f79ca16c9]"
  by (simp add: raw_rows_3_def)

lemma run_part_5:
  "run_rows (thirds (drop 50 raw_rows_2)) (0xFEFEFEFE, \<lparr>old_message_id = 117504301361543793, contracts_processed = 3635, puts_count = 80, calls_count = 87\<rparr>)
     = Some (0xFEFEFEFE, \<lparr>old_message_id = 172215967037251248, contracts_processed = 4258, puts_count = 136, calls_count = 74\<rparr>)"
  unfolding strided_rows_2 by code_simp

lemma run_part_6:
  "run_rows (take 46 (thirds (drop 2 raw_rows_3))) (0xFEFEFEFE, \<lparr>old_message_id = 172215967037251248, contracts_processed = 4258, puts_count = 136, calls_count = 74\<rparr>)
     = Some (0xFEFEFEFE, \<lparr>old_message_id = 258879460752365257, contracts_processed = 5108, puts_count = 27, calls_count = 57\<rparr>)"
  unfolding strided_rows_3 by code_simp

lemmas run_parts = run_part_1 run_part_2 run_part_3 run_part_4 run_part_5 run_part_6

text \<open>C24: The program accepts its own data: the status is \<open>0x600D600D\<close>, after 280 messages of which none
  is above the threshold, with the last identifier and the totals that they give.
\<close>

theorem comp3_passes:
  "comp3_main raw_data initial_globals = Some (0x600D600D, \<lparr>old_message_id = 258879460752365257,
     contracts_processed = 5108, puts_count = 27, calls_count = 57\<rparr>)"
proof -
  have one: "take 200 raw_rows = take 50 raw_rows_1 @ take 50 (drop 50 raw_rows_1) @ drop 100 raw_rows_1
      @ take 50 raw_rows_2"
    using append_take_drop_id[of 50 "drop 50 raw_rows_1"]
    by (simp add: raw_rows_def length_rows flip: append_assoc)
  have len: "length (drop 50 raw_rows_2) mod 3 = 1" "length (thirds (drop 50 raw_rows_2)) = 34"
    by (simp_all add: length_rows strided_rows_2)
  have "drop 200 raw_rows = drop 50 raw_rows_2 @ raw_rows_3 @ raw_rows_4"
    by (simp add: raw_rows_def length_rows)
  moreover have "take 46 (thirds (drop 2 (raw_rows_3 @ raw_rows_4))) = take 46 (thirds (drop 2 raw_rows_3))"
  proof -
    have "map (\<lambda>j. (raw_rows_3 @ raw_rows_4) ! (2 + 3 * j)) [0..<46] = map (\<lambda>j. raw_rows_3 ! (2 + 3 * j)) [0..<46]"
      by (intro map_cong refl) (simp add: nth_append length_rows)
    then show ?thesis
      using thirds_rows[of 46 2 raw_rows_3] thirds_rows[of 46 2 "raw_rows_3 @ raw_rows_4"]
      by (simp add: length_rows del: map_eq_conv)
  qed
  ultimately have two: "take 80 (thirds (drop 200 raw_rows))
      = thirds (drop 50 raw_rows_2) @ take 46 (thirds (drop 2 raw_rows_3))"
    using len by (simp add: thirds_append)
  show ?thesis
    unfolding comp3_main_rows one two run_rows_append Option.bind_assoc
    by (simp only: run_parts bind.simps prod.case if_True refl)
qed

end
