(* ===== verification/Util.thy ===== *)
theory Util
  imports Prelude
begin

text \<open>
  \<open>util.h\<close> of the bare-metal port: the comparison of results with their reference, the barrier of
  the cores, the shift register and the length of an instruction.  \<open>uint64_t\<close> values are 64-bit
  words.  The barrier is a relation over the interleaved steps of the threads on sequentially
  consistent memory, one step for each access to the shared variables.
\<close>

section \<open>Verifying results\<close>

text \<open>\<open>for (i = 0; i < n/2*2; i += 2)\<close>, with the number of turns that are left.\<close>

primrec verify_loop :: "nat \<Rightarrow> nat \<Rightarrow> int list \<Rightarrow> int list \<Rightarrow> int option option" where
  "verify_loop 0 i test ref = Some None"
| "verify_loop (Suc k) i test ref =
     do {
       t0 \<leftarrow> rd test i;
       t1 \<leftarrow> rd test (i + 1);
       v0 \<leftarrow> rd ref i;
       v1 \<leftarrow> rd ref (i + 1);
       if t0 \<noteq> v0 then Some (Some (int i + 1))
       else if t1 \<noteq> v1 then Some (Some (int i + 2))
       else verify_loop k (i + 2) test ref
     }"

definition verify :: "nat \<Rightarrow> int list \<Rightarrow> int list \<Rightarrow> int option" where
  "verify n test ref =
     do {
       r \<leftarrow> verify_loop (n div 2) 0 test ref;
       case r of
         Some k \<Rightarrow> Some k
       | None \<Rightarrow>
           if n mod 2 \<noteq> 0 then do {
             t \<leftarrow> rd test (n - 1);
             v \<leftarrow> rd ref (n - 1);
             Some (if t \<noteq> v then int n else 0)
           }
           else Some 0
     }"

text \<open>The comparison of doubles is a parameter.\<close>

primrec verifyDouble_loop :: "('d \<Rightarrow> 'd \<Rightarrow> bool) \<Rightarrow> nat \<Rightarrow> nat \<Rightarrow> 'd list \<Rightarrow> 'd list \<Rightarrow> int option option" where
  "verifyDouble_loop eq 0 i test ref = Some None"
| "verifyDouble_loop eq (Suc k) i test ref =
     do {
       t0 \<leftarrow> rd test i;
       t1 \<leftarrow> rd test (i + 1);
       v0 \<leftarrow> rd ref i;
       v1 \<leftarrow> rd ref (i + 1);
       let eq1 = of_bool (eq t0 v0);
       let eq2 = of_bool (eq t1 v1);
       if (eq1 AND eq2) = (0 :: int) then Some (Some (int i + 1 + eq1))
       else verifyDouble_loop eq k (i + 2) test ref
     }"

definition verifyDouble :: "('d \<Rightarrow> 'd \<Rightarrow> bool) \<Rightarrow> nat \<Rightarrow> 'd list \<Rightarrow> 'd list \<Rightarrow> int option" where
  "verifyDouble eq n test ref =
     do {
       r \<leftarrow> verifyDouble_loop eq (n div 2) 0 test ref;
       case r of
         Some k \<Rightarrow> Some k
       | None \<Rightarrow>
           if n mod 2 \<noteq> 0 then do {
             t \<leftarrow> rd test (n - 1);
             v \<leftarrow> rd ref (n - 1);
             Some (if \<not> eq t v then int n else 0)
           }
           else Some 0
     }"

section \<open>Words\<close>

definition lfsr63 :: "64 word \<Rightarrow> 64 word" where
  "lfsr63 x = (let b = (x XOR drop_bit 1 x) AND 1 in drop_bit 1 x OR push_bit 62 b)"

text \<open>The length of the instruction whose first half-word is given.\<close>

definition insn_len :: "16 word \<Rightarrow> nat" where
  "insn_len h = (if h AND 3 \<noteq> 0 then 4 else 2)"

section \<open>The barrier\<close>

text \<open>
  The program counter of a thread: outside, after toggling its sense, waiting for the shared
  sense, and, for the last one to arrive, before resetting the count and before the release.
  \<open>th_entered\<close> and \<open>th_passed\<close> are no variables of the code: they count the increments of
  \<open>count\<close> and the returns of each thread.
\<close>

datatype barrier_pc = Outside | Toggled | Waiting | Resetting | Releasing

record thread =
  th_pc :: barrier_pc
  threadsense :: bool
  th_entered :: nat
  th_passed :: nat

record barrier_state =
  sense :: bool
  count_arrived :: nat
  threads :: "thread list"

inductive barrier_step :: "nat \<Rightarrow> nat \<Rightarrow> barrier_state \<Rightarrow> barrier_state \<Rightarrow> bool" for ncores i where
  toggle: "i < length (threads s) \<Longrightarrow> t = threads s ! i \<Longrightarrow> th_pc t = Outside \<Longrightarrow>
     barrier_step ncores i s (s\<lparr>threads := (threads s)[i := t\<lparr>th_pc := Toggled,
       threadsense := \<not> threadsense t\<rparr>]\<rparr>)"
| arrive: "i < length (threads s) \<Longrightarrow> t = threads s ! i \<Longrightarrow> th_pc t = Toggled \<Longrightarrow>
     barrier_step ncores i s (s\<lparr>count_arrived := count_arrived s + 1,
       threads := (threads s)[i := t\<lparr>th_entered := th_entered t + 1,
         th_pc := (if int (count_arrived s) = int ncores - 1 then Resetting else Waiting)\<rparr>]\<rparr>)"
| reset: "i < length (threads s) \<Longrightarrow> t = threads s ! i \<Longrightarrow> th_pc t = Resetting \<Longrightarrow>
     barrier_step ncores i s (s\<lparr>count_arrived := 0,
       threads := (threads s)[i := t\<lparr>th_pc := Releasing\<rparr>]\<rparr>)"
| release: "i < length (threads s) \<Longrightarrow> t = threads s ! i \<Longrightarrow> th_pc t = Releasing \<Longrightarrow>
     barrier_step ncores i s (s\<lparr>sense := threadsense t,
       threads := (threads s)[i := t\<lparr>th_pc := Outside, th_passed := th_passed t + 1\<rparr>]\<rparr>)"
| leave: "i < length (threads s) \<Longrightarrow> t = threads s ! i \<Longrightarrow> th_pc t = Waiting \<Longrightarrow>
     sense s = threadsense t \<Longrightarrow>
     barrier_step ncores i s (s\<lparr>threads := (threads s)[i := t\<lparr>th_pc := Outside,
       th_passed := th_passed t + 1\<rparr>]\<rparr>)"

inductive_cases barrier_stepE: "barrier_step ncores i s s'"

definition barrier_init :: "nat \<Rightarrow> barrier_state" where
  "barrier_init ncores = \<lparr>sense = False, count_arrived = 0,
     threads = replicate ncores \<lparr>th_pc = Outside, threadsense = False, th_entered = 0, th_passed = 0\<rparr>\<rparr>"

inductive barrier_reachable :: "nat \<Rightarrow> barrier_state \<Rightarrow> bool" for ncores where
  init: "barrier_reachable ncores (barrier_init ncores)"
| step: "barrier_reachable ncores s \<Longrightarrow> barrier_step ncores i s s' \<Longrightarrow> barrier_reachable ncores s'"

end
