(* ===== verification/Util_Props.thy ===== *)
theory Util_Props
  imports Util
begin

text \<open>
  Correctness of \<open>util.h\<close>: the comparisons find the first difference, the shift register permutes
  the non-zero 63-bit values, and the barrier is safe and free of deadlock for any number of cores
  and any interleaving.
\<close>

section \<open>Verifying results\<close>

definition first_difference :: "('d \<Rightarrow> 'd \<Rightarrow> bool) \<Rightarrow> nat \<Rightarrow> nat \<Rightarrow> 'd list \<Rightarrow> 'd list \<Rightarrow> nat option" where
  "first_difference eq i n test ref = List.find (\<lambda>j. \<not> eq (test ! j) (ref ! j)) [i..<n]"

lemma first_difference_step:
  "i < n \<Longrightarrow> first_difference eq i n test ref =
     (if eq (test ! i) (ref ! i) then first_difference eq (Suc i) n test ref else Some i)"
  by (simp add: first_difference_def upt_conv_Cons)

lemma first_difference_end [simp]: "n \<le> i \<Longrightarrow> first_difference eq i n test ref = None"
  by (simp add: first_difference_def)

lemma first_difference_split:
  "i \<le> m \<Longrightarrow> m \<le> n \<Longrightarrow> first_difference eq i n test ref =
     (case first_difference eq i m test ref of Some k \<Rightarrow> Some k | None \<Rightarrow> first_difference eq m n test ref)"
proof (induction "m - i" arbitrary: i)
  case 0
  then show ?case by simp
next
  case (Suc k)
  then have "i < m" "i < n" by simp_all
  then show ?case
    using Suc by (simp add: first_difference_step[of i m] first_difference_step[of i n])
qed

lemma verify_loop_is_double: "verify_loop k i test ref = verifyDouble_loop (=) k i test ref"
  by (induction k arbitrary: i) (auto simp: Let_def intro!: Option.bind_cong)

lemma verify_is_double: "verify n test ref = verifyDouble (=) n test ref"
  by (auto simp: verify_def verifyDouble_def verify_loop_is_double intro!: Option.bind_cong split: option.splits)

lemma verifyDouble_loop_result:
  "i + 2 * k \<le> length test \<Longrightarrow> i + 2 * k \<le> length ref \<Longrightarrow>
     verifyDouble_loop eq k i test ref =
       Some (map_option (\<lambda>j. int j + 1) (first_difference eq i (i + 2 * k) test ref))"
proof (induction k arbitrary: i)
  case (Suc k)
  have "first_difference eq i (i + 2 * Suc k) test ref =
      (if \<not> eq (test ! i) (ref ! i) then Some i else if \<not> eq (test ! Suc i) (ref ! Suc i) then Some (Suc i)
       else first_difference eq (i + 2) (i + 2 + 2 * k) test ref)"
    by (simp add: first_difference_step[of i] first_difference_step[of "Suc i"])
  then show ?case using Suc by (simp add: Let_def)
qed simp

lemma verifyDouble_result:
  assumes "n \<le> length test" "n \<le> length ref"
  shows "verifyDouble eq n test ref =
    Some (case first_difference eq 0 n test ref of None \<Rightarrow> 0 | Some j \<Rightarrow> int j + 1)"
proof -
  have le: "2 * (n div 2) \<le> n" by simp
  have loop: "verifyDouble_loop eq (n div 2) 0 test ref =
      Some (map_option (\<lambda>j. int j + 1) (first_difference eq 0 (2 * (n div 2)) test ref))"
    using verifyDouble_loop_result[of 0 "n div 2" test ref eq] assms by simp
  have split: "first_difference eq 0 n test ref =
      (case first_difference eq 0 (2 * (n div 2)) test ref of
         Some k \<Rightarrow> Some k | None \<Rightarrow> first_difference eq (2 * (n div 2)) n test ref)"
    using le by (intro first_difference_split) simp_all
  show ?thesis
  proof (cases "n mod 2 = 0")
    case True
    then have "2 * (n div 2) = n" by presburger
    then show ?thesis by (simp add: verifyDouble_def loop True split: option.splits)
  next
    case False
    define k where "k = n div 2"
    have n: "n = Suc (2 * k)" using False unfolding k_def by presburger
    have last: "first_difference eq (2 * k) n test ref =
        (if eq (test ! (2 * k)) (ref ! (2 * k)) then None else Some (2 * k))"
      by (simp add: first_difference_step n)
    have "2 * k < length test" "2 * k < length ref" using assms n by simp_all
    moreover have "n - 1 = 2 * k" "int n = int (2 * k) + 1" using n by simp_all
    ultimately show ?thesis
      using False loop split
      by (simp add: verifyDouble_def last k_def [symmetric] split: option.splits)
  qed
qed

text \<open>Both comparisons, unrolled by two, return one plus the index of the first element that
  differs from the reference, and zero when there is none.\<close>

theorem verify_first_difference:
  assumes "n \<le> length test" "n \<le> length ref" "n \<le> length test'" "n \<le> length ref'"
  shows "verify n test ref = Some (case first_difference (=) 0 n test ref of None \<Rightarrow> 0 | Some j \<Rightarrow> int j + 1)
    \<and> verifyDouble eq n test' ref' =
        Some (case first_difference eq 0 n test' ref' of None \<Rightarrow> 0 | Some j \<Rightarrow> int j + 1)"
  using assms by (simp add: verify_is_double verifyDouble_result)

theorem verify_first_difference_witness:
  "verify 5 [1, 2, 3, 4, 5] [1, 2, 3, 9, 5] = Some 4
   \<and> verifyDouble (\<lambda>x y. x = y \<and> x \<noteq> (7 :: int)) 5 [1, 2, 7, 4, 5] [1, 2, 7, 9, 5] = Some 3"
  using verify_first_difference[of 5 "[1, 2, 3, 4, 5]" "[1, 2, 3, 9, 5]" "[1, 2, 7, 4, 5]" "[1, 2, 7, 9, 5]"
      "\<lambda>x y. x = y \<and> x \<noteq> (7 :: int)"]
  by (simp add: first_difference_def upt_rec)

section \<open>The shift register\<close>

lemma lfsr63_bit:
  "bit (lfsr63 x) n \<longleftrightarrow> (if n = 62 then bit x 63 \<or> (bit x 0 \<noteq> bit x 1) else bit x (Suc n))"
proof -
  have b: "bit ((x XOR drop_bit 1 x) AND 1) m \<longleftrightarrow> m = 0 \<and> bit x 0 \<noteq> bit x 1" for m
    by (auto simp: bit_simps bit_1_iff)
  show ?thesis
    unfolding lfsr63_def Let_def bit_or_iff bit_push_bit_iff b bit_drop_bit_eq
    by (auto simp: bit_push_bit_iff b dest: bit_imp_le_length)
qed

lemma lfsr63_inj:
  assumes "\<not> bit x 63" "\<not> bit y 63" "lfsr63 x = lfsr63 y"
  shows "x = y"
proof (rule bit_word_eqI)
  have eq: "bit (lfsr63 x) n = bit (lfsr63 y) n" for n using assms(3) by simp
  have high: "bit x (Suc n) = bit y (Suc n)" for n
  proof (cases "n = 62")
    case True
    then show ?thesis using assms(1,2) by simp
  next
    case False
    then show ?thesis using eq[of n] by (simp add: lfsr63_bit)
  qed
  moreover have "bit x 0 = bit y 0"
    using eq[of 62] high[of 0] assms(1,2) by (auto simp: lfsr63_bit)
  ultimately show "bit x n = bit y n" for n by (cases n) auto
qed

lemma lfsr63_closed: "\<not> bit x 63 \<Longrightarrow> \<not> bit (lfsr63 x) 63"
  by (auto simp: lfsr63_bit dest: bit_imp_le_length)

lemma lfsr63_zero: "lfsr63 0 = 0"
  by (simp add: lfsr63_def)

text \<open>The shift register permutes the non-zero values of 63 bits: it never reaches zero from
  any of them and no two of them have the same successor.\<close>

theorem lfsr63_permutes: "bij_betw lfsr63 {x. x \<noteq> 0 \<and> \<not> bit x 63} {x. x \<noteq> 0 \<and> \<not> bit x 63}"
proof -
  let ?S = "{x :: 64 word. x \<noteq> 0 \<and> \<not> bit x 63}"
  have inj: "inj_on lfsr63 ?S" using lfsr63_inj by (auto intro: inj_onI)
  moreover have "lfsr63 ` ?S \<subseteq> ?S"
    using lfsr63_closed lfsr63_inj[of _ 0] lfsr63_zero by auto
  ultimately have "lfsr63 ` ?S = ?S" by (intro endo_inj_surj) simp_all
  with inj show ?thesis by (simp add: bij_betw_def)
qed

text \<open>\<open>insn_len\<close> tells a length of two only for the first of the three encodings of a compressed
  instruction: whenever one of the low bits is set it is four, although only both bits set mark
  an instruction of 32 bits.\<close>

theorem insn_len_low_bits: "insn_len h = (if bit h 0 \<or> bit h 1 then 4 else 2)"
proof -
  have b: "bit (h AND 3) n \<longleftrightarrow> bit h n \<and> n < 2" for n
    using bit_take_bit_iff[of 2 h n] by (auto simp: take_bit_eq_mask mask_eq_exp_minus_1)
  have "h AND 3 = 0 \<longleftrightarrow> \<not> bit h 0 \<and> \<not> bit h 1"
  proof
    assume "h AND 3 = 0"
    then show "\<not> bit h 0 \<and> \<not> bit h 1" using b[of 0] b[of 1] by simp
  next
    assume "\<not> bit h 0 \<and> \<not> bit h 1"
    then show "h AND 3 = 0"
      by (intro bit_word_eqI) (auto simp: b less_Suc_eq numeral_2_eq_2)
  qed
  then show ?thesis by (simp add: insn_len_def)
qed

section \<open>The barrier\<close>

definition cnt :: "('a \<Rightarrow> bool) \<Rightarrow> 'a list \<Rightarrow> nat" where
  "cnt P xs = length (filter P xs)"

lemma cnt_update:
  "i < length xs \<Longrightarrow> cnt P (xs[i := y]) + of_bool (P (xs ! i)) = cnt P xs + of_bool (P y)"
proof (induction xs arbitrary: i)
  case (Cons x xs)
  show ?case
  proof (cases i)
    case 0
    then show ?thesis by (simp add: cnt_def)
  next
    case (Suc k)
    with Cons.IH[of k] Cons.prems show ?thesis by (simp add: cnt_def)
  qed
qed simp

lemma cnt_le: "cnt P xs \<le> length xs"
  by (simp add: cnt_def)

lemma cnt_all: "cnt P xs = length xs \<longleftrightarrow> (\<forall>x \<in> set xs. P x)"
  by (simp add: cnt_def filter_id_conv flip: length_filter_less) (metis filter_id_conv length_filter_less less_irrefl)

lemma cnt_0: "cnt P xs = 0 \<longleftrightarrow> (\<forall>x \<in> set xs. \<not> P x)"
  by (simp add: cnt_def filter_empty_conv)

text \<open>
  The invariant after \<open>R\<close> releases.  Every thread has entered \<open>R\<close> or \<open>R + 1\<close> times; one that waits
  with its sense equal to the shared one is released already.
\<close>

definition thread_inv :: "nat \<Rightarrow> thread \<Rightarrow> bool" where
  "thread_inv R t \<longleftrightarrow>
     (case th_pc t of
        Outside \<Rightarrow> th_entered t = R \<and> th_passed t = R \<and> threadsense t = odd R
      | Toggled \<Rightarrow> th_entered t = R \<and> th_passed t = R \<and> threadsense t = even R
      | Waiting \<Rightarrow> th_entered t = th_passed t + 1 \<and> threadsense t = odd (th_entered t)
          \<and> (th_entered t = R \<or> th_entered t = R + 1)
      | Resetting \<Rightarrow> th_entered t = R + 1 \<and> th_passed t = R \<and> threadsense t = even R
      | Releasing \<Rightarrow> th_entered t = R + 1 \<and> th_passed t = R \<and> threadsense t = even R)"

definition arrived :: "nat \<Rightarrow> thread \<Rightarrow> bool" where
  "arrived R t \<longleftrightarrow> th_entered t = R + 1"

definition phase :: "nat \<Rightarrow> nat \<Rightarrow> nat \<Rightarrow> nat \<Rightarrow> nat \<Rightarrow> bool" where
  "phase n k a resetting releasing \<longleftrightarrow>
     resetting = 0 \<and> releasing = 0 \<and> k = a \<and> a < n
     \<or> resetting = 1 \<and> releasing = 0 \<and> k = n \<and> a = n
     \<or> resetting = 0 \<and> releasing = 1 \<and> k = 0 \<and> a = n"

definition barrier_inv :: "nat \<Rightarrow> nat \<Rightarrow> barrier_state \<Rightarrow> bool" where
  "barrier_inv n R s \<longleftrightarrow> length (threads s) = n \<and> sense s = odd R \<and> (\<forall>t \<in> set (threads s). thread_inv R t)
     \<and> phase n (count_arrived s) (cnt (arrived R) (threads s))
         (cnt (\<lambda>t. th_pc t = Resetting) (threads s)) (cnt (\<lambda>t. th_pc t = Releasing) (threads s))"

lemma barrier_inv_init: "0 < n \<Longrightarrow> barrier_inv n 0 (barrier_init n)"
  by (simp add: barrier_inv_def barrier_init_def thread_inv_def phase_def cnt_def arrived_def)

lemma cnt_update_eq:
  "i < length xs \<Longrightarrow> cnt P (xs[i := y]) = cnt P xs + of_bool (P y) - of_bool (P (xs ! i))"
  using cnt_update[of i xs P y] by simp

lemma cnt_pos: "i < length xs \<Longrightarrow> P (xs ! i) \<Longrightarrow> 0 < cnt P xs"
  using cnt_0[of P xs] by auto

text \<open>A step that keeps the shared sense keeps the invariant for the same number of releases.\<close>

lemma barrier_inv_update:
  assumes inv: "barrier_inv n R s" and i: "i < length (threads s)" and t: "thread_inv R t'"
    and ph: "\<And>a r q. phase n (count_arrived s) (a + of_bool (arrived R (threads s ! i)))
        (r + of_bool (th_pc (threads s ! i) = Resetting)) (q + of_bool (th_pc (threads s ! i) = Releasing)) \<Longrightarrow>
      a < n \<Longrightarrow>
      phase n c (a + of_bool (arrived R t')) (r + of_bool (th_pc t' = Resetting)) (q + of_bool (th_pc t' = Releasing))"
  shows "barrier_inv n R (s\<lparr>count_arrived := c, threads := (threads s)[i := t']\<rparr>)"
proof -
  let ?c = "\<lambda>P. cnt P (threads s) - of_bool (P (threads s ! i))"
  have split: "cnt P (threads s) = ?c P + of_bool (P (threads s ! i))" for P
    using cnt_pos[OF i, of P] by (cases "P (threads s ! i)") simp_all
  have upd: "cnt P ((threads s)[i := t']) = ?c P + of_bool (P t')" for P
    using cnt_update[OF i, of P t'] split[of P] by simp
  have "cnt (arrived R) (threads s) = n \<longrightarrow> arrived R (threads s ! i)"
    using inv i cnt_all[of "arrived R" "threads s"] by (auto simp: barrier_inv_def)
  then have "?c (arrived R) < n"
    using inv i cnt_le[of "arrived R" "threads s"] by (auto simp: barrier_inv_def)
  moreover have "phase n (count_arrived s) (?c (arrived R) + of_bool (arrived R (threads s ! i)))
      (?c (\<lambda>t. th_pc t = Resetting) + of_bool (th_pc (threads s ! i) = Resetting))
      (?c (\<lambda>t. th_pc t = Releasing) + of_bool (th_pc (threads s ! i) = Releasing))"
    using inv by (simp only: barrier_inv_def split[of "arrived R", symmetric]
        split[of "\<lambda>t. th_pc t = Resetting", symmetric] split[of "\<lambda>t. th_pc t = Releasing", symmetric])
  ultimately have "phase n c (cnt (arrived R) ((threads s)[i := t']))
      (cnt (\<lambda>t. th_pc t = Resetting) ((threads s)[i := t'])) (cnt (\<lambda>t. th_pc t = Releasing) ((threads s)[i := t']))"
    unfolding upd by (intro ph) simp_all
  then show ?thesis
    using inv t set_update_subset_insert[of "threads s" i t'] by (auto simp: barrier_inv_def)
qed

lemma barrier_inv_thread: "barrier_inv n R s \<Longrightarrow> i < length (threads s) \<Longrightarrow> thread_inv R (threads s ! i)"
  by (simp add: barrier_inv_def)

text \<open>The release: every thread has arrived, so all the others wait, and for the new round none has.\<close>

lemma barrier_inv_release:
  assumes inv: "barrier_inv n R s" and i: "i < length (threads s)" and t: "th_pc (threads s ! i) = Releasing"
  shows "barrier_inv n (R + 1) (s\<lparr>sense := threadsense (threads s ! i),
    threads := (threads s)[i := (threads s ! i)\<lparr>th_pc := Outside, th_passed := th_passed (threads s ! i) + 1\<rparr>]\<rparr>)"
    (is "barrier_inv n (R + 1) ?s")
proof -
  let ?R = "cnt (\<lambda>t. th_pc t = Resetting) (threads s)" and ?L = "cnt (\<lambda>t. th_pc t = Releasing) (threads s)"
  have len: "length (threads s) = n" using inv by (simp add: barrier_inv_def)
  have "0 < ?L" by (rule cnt_pos[OF i, of "\<lambda>t. th_pc t = Releasing"]) (rule t)
  then have ph: "?R = 0" "?L = 1" "count_arrived s = 0" "cnt (arrived R) (threads s) = n"
    using inv by (auto simp: barrier_inv_def phase_def)
  have all: "arrived R u" if "u \<in> set (threads s)" for u
    using ph(4) cnt_all[of "arrived R" "threads s"] len that by simp
  have ti: "thread_inv R (threads s ! i)" using barrier_inv_thread[OF inv i] .
  let ?t = "(threads s ! i)\<lparr>th_pc := Outside, th_passed := th_passed (threads s ! i) + 1\<rparr>"
  have only: "th_pc u = Waiting" if u: "u \<in> set ((threads s)[i := ?t])" "u \<noteq> ?t" for u
  proof -
    from u(1) obtain j where "j < length (threads s)" "u = (threads s)[i := ?t] ! j"
      by (metis in_set_conv_nth length_list_update)
    moreover from this have "j \<noteq> i" using u(2) i by auto
    ultimately have j: "j < length (threads s)" "j \<noteq> i" "u = threads s ! j" by simp_all
    have "th_pc u \<noteq> Resetting" using ph(1) j(1,3) cnt_0[of "\<lambda>t. th_pc t = Resetting" "threads s"] by auto
    moreover have "th_pc u \<noteq> Releasing"
    proof
      assume "th_pc u = Releasing"
      then have "th_pc (threads s ! j) = Releasing" using j by simp
      then have "0 < cnt (\<lambda>t. th_pc t = Releasing) ((threads s)[i := ?t])"
        using j by (intro cnt_pos[of j]) simp_all
      then show False using cnt_update[OF i, of "\<lambda>t. th_pc t = Releasing" ?t] t ph(2) by simp
    qed
    moreover have "arrived R u" "thread_inv R u"
      using all j barrier_inv_thread[OF inv j(1)] by auto
    ultimately show ?thesis by (cases "th_pc u") (auto simp: arrived_def thread_inv_def)
  qed
  have new: "thread_inv (R + 1) u \<and> \<not> arrived (R + 1) u \<and> th_pc u \<noteq> Resetting \<and> th_pc u \<noteq> Releasing"
    if u: "u \<in> set ((threads s)[i := ?t])" for u
  proof (cases "u = ?t")
    case True
    then show ?thesis using ti t by (simp add: thread_inv_def arrived_def)
  next
    case False
    then have "u \<in> set (threads s)" using u set_update_subset_insert[of "threads s" i ?t] by auto
    then have "arrived R u" "thread_inv R u" using all inv by (auto simp: barrier_inv_def)
    then show ?thesis using only[OF u False] by (simp add: thread_inv_def arrived_def)
  qed
  then have "cnt (arrived (R + 1)) ((threads s)[i := ?t]) = 0"
    "cnt (\<lambda>t. th_pc t = Resetting) ((threads s)[i := ?t]) = 0"
    "cnt (\<lambda>t. th_pc t = Releasing) ((threads s)[i := ?t]) = 0"
    unfolding cnt_0 by auto
  moreover have "0 < n" using i len by simp
  moreover have "threadsense (threads s ! i) = odd (R + 1)" using ti t by (simp add: thread_inv_def)
  ultimately show ?thesis using new len ph(3) by (simp add: barrier_inv_def phase_def)
qed

lemma barrier_inv_step:
  assumes "barrier_inv n R s" "barrier_step n i s s'"
  shows "\<exists>R'. barrier_inv n R' s'"
  using assms(2)
proof cases
  case (toggle t)
  then have "thread_inv R t" using barrier_inv_thread assms(1) by blast
  with toggle have "barrier_inv n R (s\<lparr>count_arrived := count_arrived s, threads :=
      (threads s)[i := t\<lparr>th_pc := Toggled, threadsense := \<not> threadsense t\<rparr>]\<rparr>)"
    by (intro barrier_inv_update[OF assms(1)]) (auto simp: thread_inv_def arrived_def)
  with toggle show ?thesis by auto
next
  case (arrive t)
  then have "thread_inv R t" using barrier_inv_thread assms(1) by blast
  with arrive have "barrier_inv n R (s\<lparr>count_arrived := count_arrived s + 1, threads :=
      (threads s)[i := t\<lparr>th_entered := th_entered t + 1,
         th_pc := (if int (count_arrived s) = int n - 1 then Resetting else Waiting)\<rparr>]\<rparr>)"
    by (intro barrier_inv_update[OF assms(1)]) (auto simp: thread_inv_def arrived_def phase_def)
  with arrive show ?thesis by auto
next
  case (reset t)
  then have "thread_inv R t" using barrier_inv_thread assms(1) by blast
  with reset have "barrier_inv n R (s\<lparr>count_arrived := 0, threads :=
      (threads s)[i := t\<lparr>th_pc := Releasing\<rparr>]\<rparr>)"
    by (intro barrier_inv_update[OF assms(1)]) (auto simp: thread_inv_def arrived_def phase_def)
  with reset show ?thesis by auto
next
  case (release t)
  then show ?thesis using barrier_inv_release[OF assms(1), of i] by blast
next
  case (leave t)
  then have "thread_inv R t" "sense s = odd R" using barrier_inv_thread assms(1) by (blast, simp add: barrier_inv_def)
  with leave have "barrier_inv n R (s\<lparr>count_arrived := count_arrived s, threads :=
      (threads s)[i := t\<lparr>th_pc := Outside, th_passed := th_passed t + 1\<rparr>]\<rparr>)"
    by (intro barrier_inv_update[OF assms(1)]) (auto simp: thread_inv_def arrived_def)
  with leave show ?thesis by auto
qed

lemma barrier_inv_reachable:
  assumes "barrier_reachable n s" "0 < n"
  shows "\<exists>R. barrier_inv n R s"
  using assms
proof (induction rule: barrier_reachable.induct)
  case init
  then show ?case using barrier_inv_init by blast
next
  case (step s i s')
  then show ?case using barrier_inv_step by blast
qed

text \<open>C8: The barrier is safe: in every reachable state of any interleaving, no thread has passed the
  barrier more often than any other thread has entered it.\<close>

theorem barrier_safe:
  assumes "barrier_reachable n s" "t \<in> set (threads s)" "u \<in> set (threads s)"
  shows "th_passed t \<le> th_entered u"
proof -
  have "length (threads s) = n"
    using assms(1) by (induction rule: barrier_reachable.induct) (auto simp: barrier_init_def elim!: barrier_stepE)
  then have "0 < n" using assms(2) by (cases "threads s") auto
  then obtain R where "barrier_inv n R s" using barrier_inv_reachable assms(1) by blast
  then have "thread_inv R t" "thread_inv R u" using assms(2,3) by (auto simp: barrier_inv_def)
  then have "th_passed t \<le> R" "R \<le> th_entered u"
    by (auto simp: thread_inv_def split: barrier_pc.splits)
  then show ?thesis by simp
qed

theorem barrier_safe_witness:
  "\<exists>s t u. barrier_reachable 1 s \<and> t \<in> set (threads s) \<and> u \<in> set (threads s)
     \<and> th_passed t = 1 \<and> th_passed t \<le> th_entered u"
proof -
  let ?s = "\<lambda>b k p z e q. \<lparr>sense = b, count_arrived = k,
    threads = [\<lparr>th_pc = p, threadsense = z, th_entered = e, th_passed = q\<rparr>]\<rparr>"
  have "barrier_reachable 1 (?s False 0 Outside False 0 0)"
    using barrier_reachable.init[of 1] by (simp add: barrier_init_def)
  then have "barrier_reachable 1 (?s False 0 Toggled True 0 0)"
    by (rule barrier_reachable.step[where i = 0]) (use barrier_step.toggle[of 0 "?s False 0 Outside False 0 0" _ 1] in simp)
  then have "barrier_reachable 1 (?s False 1 Resetting True 1 0)"
    by (rule barrier_reachable.step[where i = 0]) (use barrier_step.arrive[of 0 "?s False 0 Toggled True 0 0" _ 1] in simp)
  then have "barrier_reachable 1 (?s False 0 Releasing True 1 0)"
    by (rule barrier_reachable.step[where i = 0]) (use barrier_step.reset[of 0 "?s False 1 Resetting True 1 0" _ 1] in simp)
  then have "barrier_reachable 1 (?s True 0 Outside True 1 1)"
    by (rule barrier_reachable.step[where i = 0]) (use barrier_step.release[of 0 "?s False 0 Releasing True 1 0" _ 1] in simp)
  then show ?thesis
    using barrier_safe[of 1 "?s True 0 Outside True 1 1"]
    by (intro exI[of _ "?s True 0 Outside True 1 1"] exI) auto
qed

text \<open>C28: The barrier cannot deadlock: in every reachable state in which all the cores are inside it,
  one of them can take a step.\<close>

theorem barrier_progress:
  assumes "barrier_reachable n s" "0 < n" "\<forall>t \<in> set (threads s). th_pc t \<noteq> Outside"
  shows "\<exists>i s'. barrier_step n i s s'"
proof (rule ccontr)
  assume stuck: "\<not> ?thesis"
  obtain R where R: "barrier_inv n R s" using barrier_inv_reachable assms(1,2) by blast
  have all: "arrived R t \<and> th_pc t = Waiting" if t: "t \<in> set (threads s)" for t
  proof -
    obtain i where i: "i < length (threads s)" "t = threads s ! i" using t by (auto simp: in_set_conv_nth)
    have "th_pc t \<noteq> Toggled" "th_pc t \<noteq> Resetting" "th_pc t \<noteq> Releasing"
      "\<not> (th_pc t = Waiting \<and> sense s = threadsense t)"
      using stuck barrier_step.intros[OF i] by blast+
    then have "th_pc t = Waiting" "sense s \<noteq> threadsense t" using assms(3) t by (cases "th_pc t"; auto)+
    moreover have "thread_inv R t" "sense s = odd R" using R t by (auto simp: barrier_inv_def)
    ultimately show ?thesis by (auto simp: thread_inv_def arrived_def)
  qed
  then have "cnt (arrived R) (threads s) = n" using cnt_all[of "arrived R" "threads s"] R
    by (auto simp: barrier_inv_def)
  moreover have "cnt (\<lambda>t. th_pc t = Resetting) (threads s) = 0" "cnt (\<lambda>t. th_pc t = Releasing) (threads s) = 0"
    using all unfolding cnt_0 by auto
  ultimately show False using R by (simp add: barrier_inv_def phase_def)
qed

theorem barrier_progress_witness: "\<exists>i s'. barrier_step 1 i
    \<lparr>sense = False, count_arrived = 0, threads = [\<lparr>th_pc = Toggled, threadsense = True, th_entered = 0, th_passed = 0\<rparr>]\<rparr> s'"
proof (rule barrier_progress)
  have "barrier_reachable 1 (barrier_init 1)" by (rule barrier_reachable.init)
  then show "barrier_reachable 1 \<lparr>sense = False, count_arrived = 0,
      threads = [\<lparr>th_pc = Toggled, threadsense = True, th_entered = 0, th_passed = 0\<rparr>]\<rparr>"
    by (rule barrier_reachable.step[where i = 0])
      (use barrier_step.toggle[of 0 "barrier_init 1" _ 1] in \<open>simp add: barrier_init_def\<close>)
qed simp_all

end
