(* ===== verification/Portme.thy ===== *)
theory Portme
  imports Coremark "HOL-Library.Signed_Division"
begin

text \<open>
  \<open>core_portme.c\<close> and the configuration of \<open>core_portme.h\<close> of the bare-metal port: the seeds of the
  run types, the timer on the cycle counter, initialisation from the arguments, memory, and the
  parallel contexts over processes with shared memory or sockets.  The readings of the cycle
  counter and the results of system calls are parameters.  A call of \<open>ee_printf\<close> is recorded with
  its format and its arguments.
\<close>

section \<open>Output\<close>

datatype print_arg = PNum int | PStr string

type_synonym print_call = "string \<times> print_arg list"

definition nl :: string where "nl = [CHR 0x0A]"

text \<open>The port's own \<open>ee_printf\<close> prints nothing.\<close>

definition ee_printf_stub :: "print_call \<Rightarrow> ee_u32" where
  "ee_printf_stub c = 0"

section \<open>Seeds\<close>

datatype run_type = VALIDATION_RUN | PERFORMANCE_RUN | PROFILE_RUN

text \<open>The run type where none is defined.\<close>

definition default_run :: "ee_u32 \<Rightarrow> run_type" where
  "default_run total_data_size = (if total_data_size = 1200 then PROFILE_RUN else PERFORMANCE_RUN)"

definition run_seeds :: "run_type \<Rightarrow> ee_s32 \<Rightarrow> seeds" where
  "run_seeds r iterations =
     (let (s1, s2, s3) = (case r of
            VALIDATION_RUN \<Rightarrow> (0x3415, 0x3415, 0x66)
          | PERFORMANCE_RUN \<Rightarrow> (0x0, 0x0, 0x66)
          | PROFILE_RUN \<Rightarrow> (0x8, 0x8, 0x8))
      in \<lparr>seed1_volatile = s1, seed2_volatile = s2, seed3_volatile = s3,
        seed4_volatile = iterations, seed5_volatile = 0\<rparr>)"

section \<open>Time\<close>

definition NSECS_PER_SEC :: ee_u32 where "NSECS_PER_SEC = 1000000000"
definition TIMER_RES_DIVIDER :: ee_u32 where "TIMER_RES_DIVIDER = 1"
definition EE_TICKS_PER_SEC :: ee_u32 where "EE_TICKS_PER_SEC = NSECS_PER_SEC div TIMER_RES_DIVIDER"

text \<open>The two time variables, and how often the cycle counter has been read.\<close>

record timer =
  start_time_val :: ee_u32
  stop_time_val :: ee_u32
  reads :: nat

definition MYTIMEDIFF :: "ee_u32 \<Rightarrow> ee_u32 \<Rightarrow> ee_u32" where
  "MYTIMEDIFF fin ini = fin - ini"

definition start_time :: "(nat \<Rightarrow> ee_u32) \<Rightarrow> timer \<Rightarrow> timer" where
  "start_time cycle t = t\<lparr>start_time_val := cycle (reads t), reads := reads t + 1\<rparr>"

definition stop_time :: "(nat \<Rightarrow> ee_u32) \<Rightarrow> timer \<Rightarrow> timer" where
  "stop_time cycle t = t\<lparr>stop_time_val := cycle (reads t), reads := reads t + 1\<rparr>"

definition get_time :: "timer \<Rightarrow> ee_u32" where
  "get_time t = MYTIMEDIFF (stop_time_val t) (start_time_val t)"

definition time_in_secs :: "ee_u32 \<Rightarrow> ee_u32" where
  "time_in_secs ticks = ticks div EE_TICKS_PER_SEC"

text \<open>The difference of two \<open>struct timespec\<close> in milliseconds, where the platform has \<open>time.h\<close>.\<close>

record timespec =
  tv_sec :: int
  tv_nsec :: int

definition MYTIMEDIFF_timespec :: "timespec \<Rightarrow> timespec \<Rightarrow> int option" where
  "MYTIMEDIFF_timespec fin ini =
     do {
       s \<leftarrow> int32 (tv_sec fin - tv_sec ini);
       ms \<leftarrow> int32 (s * (1000000000 div 1000000));
       ns \<leftarrow> int32 (tv_nsec fin - tv_nsec ini);
       int32 (ms + ns sdiv 1000000)
     }"

section \<open>Memory\<close>

text \<open>With the parameter \<open>malloc\<close> where the block comes from the heap, else always NULL.\<close>

definition portable_malloc :: "(ee_u32 \<Rightarrow> nat option) option \<Rightarrow> ee_u32 \<Rightarrow> nat option" where
  "portable_malloc malloc sz = (case malloc of Some f \<Rightarrow> f sz | None \<Rightarrow> None)"

section \<open>Initialisation\<close>

record portme_config =
  PRINT_ARGS :: bool
  MAIN_HAS_NOARGC :: bool
  SEED_METHOD_ARG :: bool
  MULTITHREAD :: nat
  sizes :: type_sizes

record core_portable =
  portable_id :: ee_u8
  default_num_contexts :: ee_u32

definition c_string :: "ee_u8 list \<Rightarrow> string" where
  "c_string s = map (\<lambda>b. char_of (unat b)) s"

text \<open>A first argument \<open>M<n>\<close> sets the number of contexts and is removed.\<close>

definition context_arg :: "nat \<Rightarrow> nat \<Rightarrow> ee_u8 list list \<Rightarrow> core_portable
    \<Rightarrow> (nat \<times> ee_u8 list list \<times> core_portable) option" where
  "context_arg multithread argc argv p =
     (if argc > 1 then do {
        a \<leftarrow> rd argv 1;
        if deref a = 77 then do {
          let n = parseval (tl a);
          let n' = (if n > of_nat multithread then of_nat multithread else n);
          let nargs = argc - 1;
          argv' \<leftarrow> for_count (\<lambda>i argv. do { x \<leftarrow> rd argv (i + 1); wr argv i x }) 1 (nargs - 1) argv;
          Some (nargs, argv', p\<lparr>default_num_contexts := n'\<rparr>)
        }
        else Some (argc, argv, p)
      }
      else Some (argc, argv, p))"

definition portable_init :: "portme_config \<Rightarrow> nat \<Rightarrow> ee_u8 list list \<Rightarrow> core_portable
    \<Rightarrow> (print_call list \<times> nat \<times> ee_u8 list list \<times> core_portable) option" where
  "portable_init cfg argc argv p =
     do {
       let out1 = (if PRINT_ARGS cfg
         then map (\<lambda>i. (''Arg[%d]=%s'' @ nl, [PNum (int i), PStr (c_string (argv ! i))])) [0..<argc] else []);
       let out2 = (if sz_ptr_int (sizes cfg) \<noteq> sz_ptr (sizes cfg)
         then [(''ERROR! Please define ee_ptr_int to a type that holds a pointer!'' @ nl, [])] else []);
       let out3 = (if sz_u32 (sizes cfg) \<noteq> 4
         then [(''ERROR! Please define ee_u32 to a 32b unsigned type!'' @ nl, [])] else []);
       let out4 = (if MAIN_HAS_NOARGC cfg \<and> SEED_METHOD_ARG cfg
         then [(''ERROR! Main has no argc, but SEED_METHOD defined to SEED_ARG!'' @ nl, [])] else []);
       (argc', argv', p') \<leftarrow>
         (if MULTITHREAD cfg > 1 \<and> SEED_METHOD_ARG cfg then context_arg (MULTITHREAD cfg) argc argv p
          else Some (argc, argv, p));
       Some (out1 @ out2 @ out3 @ out4, argc', argv', p'\<lparr>portable_id := 1\<rparr>)
     }"

definition portable_fini :: "core_portable \<Rightarrow> core_portable" where
  "portable_fini p = p\<lparr>portable_id := 0\<rparr>"

section \<open>Parallel contexts\<close>

text \<open>
  The eight bytes from \<open>res->crc\<close> on, which are the four check sums, travel from the child to the
  parent.  \<open>run\<close> is the run of the child, a copy of the parent's state.
\<close>

definition crc_bytes :: "core_results \<Rightarrow> ee_u16 list" where
  "crc_bytes res = [r_crc res, r_crclist res, r_crcmatrix res, r_crcstate res]"

definition set_crc_bytes :: "core_results \<Rightarrow> ee_u16 list \<Rightarrow> core_results option" where
  "set_crc_bytes res b =
     do {
       b0 \<leftarrow> rd b 0;
       b1 \<leftarrow> rd b 1;
       b2 \<leftarrow> rd b 2;
       b3 \<leftarrow> rd b 3;
       Some (res\<lparr>r_crc := b0, r_crclist := b1, r_crcmatrix := b2, r_crcstate := b3\<rparr>)
     }"

text \<open>The results of the system calls: of the child's and the parent's \<open>shmat\<close>, whether they succeed.\<close>

record os_calls =
  os_fork :: int
  os_shmget :: int
  os_child_shmat :: bool
  os_waitpid :: int
  os_errno :: string
  os_parent_shmat :: bool
  os_socket :: int
  os_bind :: int
  os_sendto :: int
  os_recvfrom :: int

text \<open>The segment, zero when it is created, after the child has run.\<close>

definition core_start_parallel_fork :: "os_calls \<Rightarrow> (core_results \<Rightarrow> core_results option) \<Rightarrow> core_results
    \<Rightarrow> (ee_u8 \<times> print_call list \<times> ee_u16 list) option" where
  "core_start_parallel_fork os run res =
     do {
       let out1 = (if os_shmget os < 0 then [(''ERROR in shmget!'' @ nl, [])] else []);
       let shm = replicate 4 0;
       (out2, shm') \<leftarrow>
         (if os_fork os < 0 then Some ([], shm)
          else do {
            res' \<leftarrow> run res;
            Some (if \<not> os_child_shmat os then ([(''ERROR in child shmat!'' @ nl, [])], shm)
              else ([], crc_bytes res'))
          });
       Some (1, out1 @ out2, shm')
     }"

definition core_stop_parallel_fork :: "os_calls \<Rightarrow> ee_u16 list \<Rightarrow> core_results
    \<Rightarrow> (ee_u8 \<times> print_call list \<times> core_results) option" where
  "core_stop_parallel_fork os shm res =
     (if os_waitpid os \<noteq> os_fork os then
        Some (0, [(''ERROR waiting for child.'' @ nl, [])]
          @ (if os_errno os = ''ECHILD'' then [(''errno=No such child %d'' @ nl, [PNum (os_fork os)])] else [])
          @ (if os_errno os = ''EINTR'' then [(''errno=Interrupted'' @ nl, [])] else []), res)
      else if \<not> os_parent_shmat os then Some (0, [(''ERROR in parent shmat!'' @ nl, [])], res)
      else do { res' \<leftarrow> set_crc_bytes res shm; Some (1, [], res') })"

text \<open>The datagram that the child sends, if any.\<close>

definition core_start_parallel_socket :: "os_calls \<Rightarrow> string \<Rightarrow> (core_results \<Rightarrow> core_results option)
    \<Rightarrow> core_results \<Rightarrow> (ee_u8 \<times> print_call list \<times> ee_u16 list option) option" where
  "core_start_parallel_socket os strerror run res =
     do {
       (out1, msg) \<leftarrow>
         (if os_fork os < 0 then Some ([], None)
          else do {
            res' \<leftarrow> run res;
            Some (if os_socket os = - 1 then ([(''Error Creating Socket'', [])], None)
              else if os_sendto os < 0 then ([(''Error sending packet: %s'' @ nl, [PStr strerror])], None)
              else ([], Some (crc_bytes res')))
          });
       let out2 = (if os_bind os < 0 then [(''bind(): %s'' @ nl, [PStr strerror])] else []);
       Some (1, out1 @ out2, msg)
     }"

definition core_stop_parallel_socket :: "os_calls \<Rightarrow> string \<Rightarrow> ee_u16 list option \<Rightarrow> core_results
    \<Rightarrow> (ee_u8 \<times> print_call list \<times> core_results) option" where
  "core_stop_parallel_socket os strerror msg res =
     (if os_recvfrom os < 0 then Some (0, [(''Error in receive: %s'' @ nl, [PStr strerror])], res)
      else do {
        m \<leftarrow> msg;
        res' \<leftarrow> set_crc_bytes res m;
        Some (if os_waitpid os \<noteq> os_fork os then
            (0, [(''ERROR waiting for child.'' @ nl, [])]
              @ (if os_errno os = ''ECHILD'' then [(''errno=No such child %d'' @ nl, [PNum (os_fork os)])] else [])
              @ (if os_errno os = ''EINTR'' then [(''errno=Interrupted'' @ nl, [])] else []), res')
          else (1, [], res'))
      })"

end
