(* ===== verification/Portme_Props.thy ===== *)
theory Portme_Props
  imports Portme
begin

text \<open>
  Correctness of the port: the timer is right across a wrap of the cycle counter but can never show
  five seconds, the argument with the number of contexts is consumed, and a parallel context hands
  over exactly its four check sums.
\<close>

section \<open>Time\<close>

lemma time_in_secs_bound: "unat (time_in_secs ticks) \<le> 4"
proof -
  have "unat ticks < 2 ^ 32" using unsigned_less[of ticks, where 'a = nat] by simp
  then have "unat ticks div 1000000000 < 5" by (intro less_mult_imp_div_less) simp
  then show ?thesis
    by (simp add: time_in_secs_def EE_TICKS_PER_SEC_def NSECS_PER_SEC_def TIMER_RES_DIVIDER_def unat_div)
qed

lemma get_time_elapsed:
  assumes "start_time_val t = of_nat a" "stop_time_val t = of_nat (a + n)" "n < 2 ^ 32"
  shows "unat (get_time t) = n"
proof -
  have "get_time t = of_nat n" using assms by (simp add: get_time_def MYTIMEDIFF_def)
  then show ?thesis using assms(3) by (simp add: unat_of_nat_32)
qed

text \<open>The ticks between a start and a stop are the cycles that have elapsed, even where the 32-bit
  counter wraps in between, but since a second has a thousand million of them the seconds that
  they are converted to never exceed four.\<close>

theorem timer_elapsed:
  assumes "cycle (reads t) = of_nat a" "cycle (reads t + 1) = of_nat (a + n)" "n < 2 ^ 32"
  shows "let t' = stop_time cycle (start_time cycle t) in
    unat (get_time t') = n \<and> unat (time_in_secs (get_time t')) = n div 1000000000
    \<and> unat (time_in_secs (get_time t')) \<le> 4"
proof -
  have "unat (get_time (stop_time cycle (start_time cycle t))) = n"
    by (rule get_time_elapsed[where a = a]) (use assms in \<open>simp_all add: start_time_def stop_time_def\<close>)
  then show ?thesis
    using time_in_secs_bound
    by (simp add: Let_def time_in_secs_def EE_TICKS_PER_SEC_def NSECS_PER_SEC_def TIMER_RES_DIVIDER_def unat_div)
qed

theorem timer_elapsed_witness:
  "let cycle = (\<lambda>k. if k = 0 then 4294967290 else 1999999990); t = \<lparr>start_time_val = 0, stop_time_val = 0, reads = 0\<rparr>;
       t' = stop_time cycle (start_time cycle t)
   in unat (get_time t') = 1999999996 \<and> unat (time_in_secs (get_time t')) = 1"
  using timer_elapsed[of "\<lambda>k. if k = 0 then 4294967290 else 1999999990"
      "\<lparr>start_time_val = 0, stop_time_val = 0, reads = 0\<rparr>" 4294967290 1999999996]
  by (simp add: Let_def)

lemma sdiv_near: "\<bar>d - 1000000 * (d sdiv 1000000)\<bar> < (1000000 :: int)"
proof -
  have "1000000 * (d sdiv 1000000) + d smod 1000000 = d" by (rule mult_sdiv_smod_eq)
  moreover have "\<bar>d smod 1000000\<bar> < 1000000"
  proof -
    have "\<bar>d smod 1000000\<bar> \<le> \<bar>d\<bar> mod 1000000"
      by (cases "d = 0") (simp_all add: smod_int_alt_def abs_mult abs_sgn_eq)
    then show ?thesis using pos_mod_bound[of 1000000 "\<bar>d\<bar>"] by simp
  qed
  ultimately show ?thesis by (simp add: algebra_simps)
qed

text \<open>The milliseconds between two time stamps of a platform with \<open>time.h\<close> differ from the exact
  time by less than one, whatever the order of their nanoseconds, when they are within three weeks.\<close>

theorem timespec_milliseconds:
  assumes "0 \<le> tv_nsec fin" "tv_nsec fin < 1000000000" "0 \<le> tv_nsec ini" "tv_nsec ini < 1000000000"
    "\<bar>tv_sec fin - tv_sec ini\<bar> \<le> 2000000"
  shows "\<exists>ms. MYTIMEDIFF_timespec fin ini = Some ms
    \<and> \<bar>(1000000000 * (tv_sec fin - tv_sec ini) + (tv_nsec fin - tv_nsec ini)) - 1000000 * ms\<bar> < 1000000"
proof -
  define s where "s = tv_sec fin - tv_sec ini"
  define d where "d = tv_nsec fin - tv_nsec ini"
  have s: "\<bar>s\<bar> \<le> 2000000" using assms(5) by (simp add: s_def)
  have d: "\<bar>d\<bar> < 1000000000" using assms(1-4) by (simp add: d_def)
  have near: "\<bar>d - 1000000 * (d sdiv 1000000)\<bar> < 1000000" by (rule sdiv_near)
  have "MYTIMEDIFF_timespec fin ini = Some (s * 1000 + d sdiv 1000000)"
    using s d near by (auto simp: MYTIMEDIFF_timespec_def s_def [symmetric] d_def [symmetric] int32_def abs_if split: if_splits)
  then show ?thesis using near by (auto simp: s_def [symmetric] d_def [symmetric] algebra_simps)
qed

theorem timespec_milliseconds_witness:
  "\<exists>ms. MYTIMEDIFF_timespec \<lparr>tv_sec = 7, tv_nsec = 100\<rparr> \<lparr>tv_sec = 5, tv_nsec = 999999999\<rparr> = Some ms
    \<and> \<bar>(1000000000 * 2 + (100 - 999999999)) - 1000000 * ms\<bar> < 1000000"
  using timespec_milliseconds[of "\<lparr>tv_sec = 7, tv_nsec = 100\<rparr>" "\<lparr>tv_sec = 5, tv_nsec = 999999999\<rparr>"] by simp

section \<open>Arguments\<close>

text \<open>With several contexts and the seeds in the arguments, a first argument that starts with \<open>M\<close>
  sets the number of contexts, limited to the configured one, and is removed: the arguments after
  it move down by one place.\<close>

theorem context_argument_consumed:
  assumes "1 < argc" "argc \<le> length argv" "deref (argv ! 1) = 77"
  shows "\<exists>argv' p'. context_arg m argc argv p = Some (argc - 1, argv', p')
    \<and> default_num_contexts p' = min (parseval (tl (argv ! 1))) (of_nat m)
    \<and> length argv' = length argv \<and> argv' ! 0 = argv ! 0
    \<and> (\<forall>i. 1 \<le> i \<and> i < argc - 1 \<longrightarrow> argv' ! i = argv ! (i + 1))"
proof -
  define P where "P = (\<lambda>j v. length v = length argv
    \<and> (\<forall>i < length argv. v ! i = (if 1 \<le> i \<and> i < j then argv ! (i + 1) else argv ! i)))"
  have "\<exists>v. for_count (\<lambda>i argv. do { x \<leftarrow> rd argv (i + 1); wr argv i x }) 1 (argc - 1 - 1) argv = Some v
      \<and> P (1 + (argc - 1 - 1)) v"
  proof (rule for_count_rule)
    fix j v assume "1 \<le> j" "j < 1 + (argc - 1 - 1)" "P j v"
    then show "\<exists>v'. do { x \<leftarrow> rd v (j + 1); wr v j x } = Some v' \<and> P (Suc j) v'"
      using assms(1,2) by (auto simp: P_def nth_list_update)
  qed (simp add: P_def)
  moreover have "1 + (argc - 1 - 1) = argc - 1" using assms(1) by simp
  ultimately obtain v where v: "for_count (\<lambda>i argv. do { x \<leftarrow> rd argv (i + 1); wr argv i x }) 1 (argc - 1 - 1) argv = Some v"
    "P (argc - 1) v"
    by (simp only:) blast
  let ?p = "p\<lparr>default_num_contexts := min (parseval (tl (argv ! 1))) (of_nat m)\<rparr>"
  have "context_arg m argc argv p = Some (argc - 1, v, ?p)"
    using assms v(1) by (simp add: context_arg_def Let_def min_def not_le [symmetric])
  moreover have "0 < length argv" using assms(1,2) by (cases argv) simp_all
  with v(2) have "length v = length argv" "v ! 0 = argv ! 0" by (simp_all add: P_def)
  moreover have "\<forall>i. 1 \<le> i \<and> i < argc - 1 \<longrightarrow> v ! i = argv ! (i + 1)"
    using v(2) assms(1,2) by (auto simp: P_def)
  ultimately show ?thesis by auto
qed

theorem context_argument_consumed_witness:
  "\<exists>argv' p'. context_arg 4 3 [[], [77, 57], [49]] \<lparr>portable_id = 0, default_num_contexts = 4\<rparr> = Some (2, argv', p')
    \<and> default_num_contexts p' = min (parseval [57]) 4 \<and> argv' ! 1 = [49]"
  using context_argument_consumed[of 3 "[[], [77, 57], [49]]" 4 "\<lparr>portable_id = 0, default_num_contexts = 4\<rparr>"]
  by (fastforce simp: deref_def)

section \<open>Parallel contexts\<close>

definition with_sums :: "core_results \<Rightarrow> core_results \<Rightarrow> core_results" where
  "with_sums res res' = res\<lparr>r_crc := r_crc res', r_crclist := r_crclist res',
     r_crcmatrix := r_crcmatrix res', r_crcstate := r_crcstate res'\<rparr>"

lemma set_crc_bytes_sums [simp]: "set_crc_bytes res (crc_bytes res') = Some (with_sums res res')"
  by (simp add: set_crc_bytes_def crc_bytes_def with_sums_def eval_nat_numeral)

text \<open>When the system calls of a parallel context succeed, by shared memory or by a datagram, the
  parent ends with the four check sums of the run of its child, and with nothing else of it: every
  other member, the error count among them, is its own.\<close>

theorem parallel_hands_over:
  assumes "run res = Some res'" "0 < os_fork os" "os_waitpid os = os_fork os"
    "os_child_shmat os" "os_parent_shmat os" "os_socket os \<noteq> - 1" "0 \<le> os_sendto os" "0 \<le> os_recvfrom os"
  shows "(\<exists>out shm. core_start_parallel_fork os run res = Some (1, out, shm)
      \<and> core_stop_parallel_fork os shm res = Some (1, [], with_sums res res'))
    \<and> (\<exists>out msg. core_start_parallel_socket os strerror run res = Some (1, out, msg)
      \<and> core_stop_parallel_socket os strerror msg res = Some (1, [], with_sums res res'))"
  using assms
  by (simp add: core_start_parallel_fork_def core_stop_parallel_fork_def core_start_parallel_socket_def
      core_stop_parallel_socket_def Let_def)

definition os_ok :: os_calls where
  "os_ok = \<lparr>os_fork = 42, os_shmget = 5, os_child_shmat = True, os_waitpid = 42, os_errno = [],
     os_parent_shmat = True, os_socket = 3, os_bind = 0, os_sendto = 8, os_recvfrom = 8\<rparr>"

theorem parallel_hands_over_witness:
  "\<forall>res strerror. (\<exists>out shm. core_start_parallel_fork os_ok (\<lambda>r. Some (r\<lparr>r_crc := 7\<rparr>)) res = Some (1, out, shm)
      \<and> core_stop_parallel_fork os_ok shm res = Some (1, [], with_sums res (res\<lparr>r_crc := 7\<rparr>)))
    \<and> (\<exists>out msg. core_start_parallel_socket os_ok strerror (\<lambda>r. Some (r\<lparr>r_crc := 7\<rparr>)) res = Some (1, out, msg)
      \<and> core_stop_parallel_socket os_ok strerror msg res = Some (1, [], with_sums res (res\<lparr>r_crc := 7\<rparr>)))"
  by (intro allI parallel_hands_over) (simp_all add: os_ok_def)

text \<open>A failure of \<open>fork\<close> passes for success: there is no child to wait for, \<open>waitpid\<close> returns the same
  \<open>-1\<close>, and the check sums are read from a segment that nobody has written.\<close>

theorem fork_failure_unnoticed:
  assumes "os_fork os = - 1" "os_waitpid os = - 1" "os_parent_shmat os" "0 \<le> os_shmget os"
  shows "\<exists>shm. core_start_parallel_fork os run res = Some (1, [], shm)
    \<and> core_stop_parallel_fork os shm res = Some (1, [], res\<lparr>r_crc := 0, r_crclist := 0, r_crcmatrix := 0, r_crcstate := 0\<rparr>)"
  using assms
  by (simp add: core_start_parallel_fork_def core_stop_parallel_fork_def set_crc_bytes_def eval_nat_numeral)

theorem fork_failure_unnoticed_witness:
  "\<forall>res. \<exists>shm. core_start_parallel_fork (os_ok\<lparr>os_fork := - 1, os_waitpid := - 1\<rparr>) (\<lambda>r. None) res = Some (1, [], shm)
    \<and> core_stop_parallel_fork (os_ok\<lparr>os_fork := - 1, os_waitpid := - 1\<rparr>) shm res
        = Some (1, [], res\<lparr>r_crc := 0, r_crclist := 0, r_crcmatrix := 0, r_crcstate := 0\<rparr>)"
  by (intro allI fork_failure_unnoticed) (simp_all add: os_ok_def)

end
