(* ===== verification/Core_Main.thy ===== *)
theory Core_Main
  imports Core_List Portme
begin

text \<open>
  \<open>core_main.c\<close>: the run of the benchmark for a number of iterations, and the main program that reads
  the seeds, lays out and initialises the memory, calibrates the number of iterations, runs and
  times the benchmark, and checks and reports the results.  The configuration is the one of the
  bare-metal port (one context, a static block of memory, integer seconds, no arguments);
  the checks and the report are written for any number of contexts, as in the source.  A member
  of the results structure that the program leaves uninitialised is NULL or zero here.
\<close>

section \<open>Iterations\<close>

definition list_known_crc :: "ee_u16 list" where
  "list_known_crc = [0xd4b0, 0x3340, 0x6a79, 0xe714, 0xe3c1]"

definition matrix_known_crc :: "ee_u16 list" where
  "matrix_known_crc = [0xbe52, 0x1199, 0x5608, 0x1fd7, 0x0747]"

definition state_known_crc :: "ee_u16 list" where
  "state_known_crc = [0x5e47, 0x39bf, 0xe5a4, 0x8e3a, 0x8d84]"

definition iterate_step :: "nat \<Rightarrow> core_results \<Rightarrow> core_results option" where
  "iterate_step i res =
     do {
       (crc, res1) \<leftarrow> core_bench_list res 1;
       let res2 = res1\<lparr>r_crc := crcu16 crc (r_crc res1)\<rparr>;
       (crc', res3) \<leftarrow> core_bench_list res2 (- 1);
       let res4 = res3\<lparr>r_crc := crcu16 crc' (r_crc res3)\<rparr>;
       Some (if i = 0 then res4\<lparr>r_crclist := r_crc res4\<rparr> else res4)
     }"

definition iterate :: "core_results \<Rightarrow> core_results option" where
  "iterate res =
     (let iterations = r_iterations res
      in for_count iterate_step 0 (unat iterations)
           (res\<lparr>r_crc := 0, r_crclist := 0, r_crcmatrix := 0, r_crcstate := 0\<rparr>))"

section \<open>Seeds\<close>

definition get_seed :: "seeds \<Rightarrow> int \<Rightarrow> ee_s16" where
  "get_seed v x = ucast (get_seed_32 v x)"

text \<open>The values for testing with one seed only.\<close>

definition default_seeds :: "core_results \<Rightarrow> core_results" where
  "default_seeds res =
     (let res1 = (if r_seed1 res = 0 \<and> r_seed2 res = 0 \<and> r_seed3 res = 0
            then res\<lparr>r_seed1 := 0, r_seed2 := 0, r_seed3 := 0x66\<rparr> else res)
      in if r_seed1 res1 = 1 \<and> r_seed2 res1 = 0 \<and> r_seed3 res1 = 0
         then res1\<lparr>r_seed1 := 0x3415, r_seed2 := 0x3415, r_seed3 := 0x66\<rparr> else res1)"

definition read_seeds :: "seeds \<Rightarrow> core_results \<Rightarrow> core_results" where
  "read_seeds v res =
     (let res1 = res\<lparr>r_seed1 := get_seed v 1, r_seed2 := get_seed v 2, r_seed3 := get_seed v 3,
            r_iterations := get_seed_32 v 4, r_execs := get_seed_32 v 5\<rparr>;
          res2 = (if r_execs res1 = 0 then res1\<lparr>r_execs := ALL_ALGORITHMS_MASK\<rparr> else res1)
      in default_seeds res2)"

section \<open>Memory\<close>

definition executes :: "nat \<Rightarrow> core_results \<Rightarrow> bool" where
  "executes i res \<longleftrightarrow> push_bit i 1 AND r_execs res \<noteq> 0"

definition num_algorithms :: "core_results \<Rightarrow> nat" where
  "num_algorithms res = length (filter (\<lambda>i. executes i res) [0..<NUM_ALGORITHMS])"

text \<open>The size per algorithm; without an algorithm the division is undefined.\<close>

definition divide_size :: "core_results \<Rightarrow> core_results option" where
  "divide_size res =
     (if num_algorithms res = 0 then None
      else Some (res\<lparr>r_size := r_size res div of_nat (num_algorithms res)\<rparr>))"

text \<open>The pointers \<open>memblock[i + 1]\<close> of the algorithms that are executed, with the counter \<open>j\<close>.\<close>

definition assign_pointers :: "core_results \<Rightarrow> core_results option" where
  "assign_pointers res =
     do {
       (j, res') \<leftarrow> for_count (\<lambda>i (j, res).
           if executes i res then do {
             base \<leftarrow> rd (r_memblock res) 0;
             blk \<leftarrow> wr (r_memblock res) (i + 1) (base + r_size res * of_nat j);
             Some (j + 1, res\<lparr>r_memblock := blk\<rparr>)
           }
           else Some (j, res)) 0 NUM_ALGORITHMS (0, res);
       Some res'
     }"

text \<open>
  The static block is zero.  Its contents by type: the cells and the items that the list block
  has room for, the three matrices, the bytes of the state block.
\<close>

definition static_memory :: "core_results \<Rightarrow> core_results option" where
  "static_memory res =
     do {
       let cells = unat (r_size res) div 20 - 2;
       i \<leftarrow> dim_loop (r_size res) 0 0;
       let n = unat (i - 1);
       Some (res\<lparr>heads := replicate cells \<lparr>lh_next = None, lh_info = 0\<rparr>,
         datas := replicate cells \<lparr>ld_data16 = 0, ld_idx = 0\<rparr>,
         mats := \<lparr>mat_A = replicate (n * n) 0, mat_B = replicate (n * n) 0, mat_C = replicate (n * n) 0\<rparr>,
         state_mem := replicate (unat (r_size res)) 0\<rparr>)
     }"

definition call_inits :: "core_results \<Rightarrow> core_results option" where
  "call_inits res =
     do {
       res1 \<leftarrow> (if r_execs res AND ID_LIST \<noteq> 0 then do {
                  (l, w) \<leftarrow> core_list_init (r_size res) (r_seed1 res) res;
                  Some (w\<lparr>r_list := l\<rparr>)
                } else Some res);
       res2 \<leftarrow> (if r_execs res1 AND ID_MATRIX \<noteq> 0 then do {
                  blk \<leftarrow> rd (r_memblock res1) 2;
                  (N, p, m) \<leftarrow> core_init_matrix (r_size res1) blk
                    (scast (r_seed1 res1) OR push_bit 16 (scast (r_seed2 res1))) (mats res1);
                  Some (res1\<lparr>r_mat := p, mats := m\<rparr>)
                } else Some res1);
       (if r_execs res2 AND ID_STATE \<noteq> 0 then do {
          mem \<leftarrow> core_init_state (r_size res2) (r_seed1 res2) (state_mem res2);
          Some (res2\<lparr>state_mem := mem\<rparr>)
        } else Some res2)
     }"

section \<open>The number of iterations\<close>

text \<open>\<open>while (secs_passed < 1)\<close>, which may never end.\<close>

partial_function (option) calibrate :: "(nat \<Rightarrow> ee_u32) \<Rightarrow> core_results \<Rightarrow> timer \<Rightarrow> ee_u32
    \<Rightarrow> (core_results \<times> timer \<times> ee_u32) option" where
  "calibrate cycle res t secs_passed =
     (if secs_passed < 1 then do {
        let res1 = res\<lparr>r_iterations := r_iterations res * 10\<rparr>;
        let t1 = start_time cycle t;
        res2 \<leftarrow> iterate res1;
        let t2 = stop_time cycle t1;
        calibrate cycle res2 t2 (time_in_secs (get_time t2))
      }
      else Some (res, t, secs_passed))"

declare calibrate.simps [code]

definition set_iterations :: "(nat \<Rightarrow> ee_u32) \<Rightarrow> core_results \<Rightarrow> timer \<Rightarrow> (core_results \<times> timer) option" where
  "set_iterations cycle res t =
     (if r_iterations res = 0 then do {
        (res', t', secs_passed) \<leftarrow> calibrate cycle (res\<lparr>r_iterations := 1\<rparr>) t 0;
        let divisor = (if secs_passed = 0 then 1 else secs_passed);
        Some (res'\<lparr>r_iterations := r_iterations res' * (1 + 10 div divisor)\<rparr>, t')
      }
      else Some (res, t))"

section \<open>Checking the results\<close>

definition seed_crc :: "core_results \<Rightarrow> ee_u16" where
  "seed_crc res =
     (let c1 = crc16 (r_seed1 res) 0;
          c2 = crc16 (r_seed2 res) c1;
          c3 = crc16 (r_seed3 res) c2
      in crc16 (ucast (r_size res)) c3)"

text \<open>The known run and the first count of errors.\<close>

definition known_run :: "ee_u16 \<Rightarrow> print_call list \<times> int \<times> ee_s16" where
  "known_run seedcrc =
     (if seedcrc = 0x8a02 then ([(''6k performance run parameters for coremark.'' @ nl, [])], 0, 0)
      else if seedcrc = 0x7b05 then ([(''6k validation run parameters for coremark.'' @ nl, [])], 1, 0)
      else if seedcrc = 0x4eaf then ([(''Profile generation run parameters for coremark.'' @ nl, [])], 2, 0)
      else if seedcrc = 0xe9f5 then ([(''2K performance run parameters for coremark.'' @ nl, [])], 3, 0)
      else if seedcrc = 0x18f2 then ([(''2K validation run parameters for coremark.'' @ nl, [])], 4, 0)
      else ([], - 1, - 1))"

text \<open>One of the three checks of a context.\<close>

definition check_crc :: "string \<Rightarrow> nat \<Rightarrow> bool \<Rightarrow> ee_u16 \<Rightarrow> ee_u16 \<Rightarrow> ee_s16 \<Rightarrow> print_call list \<times> ee_s16" where
  "check_crc what i execs crc known err =
     (if execs \<and> crc \<noteq> known
      then ([(''[%u]ERROR! '' @ what @ '' crc 0x%04x - should be 0x%04x'' @ nl,
              [PNum (int i), PNum (uint crc), PNum (uint known)])], err + 1)
      else ([], err))"

definition check_context :: "nat \<Rightarrow> nat \<Rightarrow> core_results \<Rightarrow> (print_call list \<times> core_results) option" where
  "check_context known_id i res =
     do {
       l \<leftarrow> rd list_known_crc known_id;
       m \<leftarrow> rd matrix_known_crc known_id;
       s \<leftarrow> rd state_known_crc known_id;
       let (out1, err1) = check_crc ''list'' i (r_execs res AND ID_LIST \<noteq> 0) (r_crclist res) l 0;
       let (out2, err2) = check_crc ''matrix'' i (r_execs res AND ID_MATRIX \<noteq> 0) (r_crcmatrix res) m err1;
       let (out3, err3) = check_crc ''state'' i (r_execs res AND ID_STATE \<noteq> 0) (r_crcstate res) s err2;
       Some (out1 @ out2 @ out3, res\<lparr>r_err := err3\<rparr>)
     }"

fun check_contexts :: "nat \<Rightarrow> nat \<Rightarrow> core_results list \<Rightarrow> ee_s16
    \<Rightarrow> (print_call list \<times> core_results list \<times> ee_s16) option" where
  "check_contexts known_id i [] total_errors = Some ([], [], total_errors)"
| "check_contexts known_id i (res # results) total_errors =
     do {
       (out1, res') \<leftarrow> check_context known_id i res;
       (out2, results', total') \<leftarrow> check_contexts known_id (i + 1) results (total_errors + r_err res');
       Some (out1 @ out2, res' # results', total')
     }"

definition check_results :: "type_sizes \<Rightarrow> int \<Rightarrow> core_results list \<Rightarrow> ee_s16
    \<Rightarrow> (print_call list \<times> core_results list \<times> ee_s16) option" where
  "check_results z known_id results total_errors =
     do {
       (out, results', total') \<leftarrow>
         (if known_id \<ge> 0 then check_contexts (nat known_id) 0 results total_errors
          else Some ([], results, total_errors));
       Some (out, results', total' + ucast (check_data_types z))
     }"

section \<open>Reporting\<close>

record report_config =
  COMPILER_VERSION :: string
  COMPILER_FLAGS :: string
  MEM_LOCATION :: string
  PARALLEL_METHOD :: "string option"

text \<open>The times; a run of less than ten seconds counts as an error.\<close>

definition report_time :: "core_results list \<Rightarrow> ee_u32 \<Rightarrow> ee_s16 \<Rightarrow> (print_call list \<times> ee_s16) option" where
  "report_time results total_time total_errors =
     do {
       res \<leftarrow> rd results 0;
       let contexts = of_nat (length results);
       let secs = time_in_secs total_time;
       let out1 = [(''CoreMark Size    : %lu'' @ nl, [PNum (uint (r_size res))]),
         (''Total ticks      : %lu'' @ nl, [PNum (uint total_time)]),
         (''Total time (secs): %d'' @ nl, [PNum (uint secs)])];
       let out2 = (if secs > 0
         then [(''Iterations/Sec   : %d'' @ nl, [PNum (uint (contexts * r_iterations res div secs))])] else []);
       let (out3, total') = (if secs < 10
         then ([(''ERROR! Must execute for at least 10 secs for a valid result!'' @ nl, [])], total_errors + 1)
         else ([], total_errors));
       Some (out1 @ out2 @ out3, total')
     }"

text \<open>One line per context.\<close>

definition report_crcs :: "string \<Rightarrow> (core_results \<Rightarrow> ee_u16) \<Rightarrow> core_results list \<Rightarrow> print_call list" where
  "report_crcs what crc results =
     map (\<lambda>(i, res). (''[%d]'' @ what @ '' : 0x%04x'' @ nl, [PNum (int i), PNum (uint (crc res))]))
       (enumerate 0 results)"

text \<open>The rest of the report: \<open>res\<close> is the first context, \<open>results\<close> are those that are reported.\<close>

definition report_contexts :: "report_config \<Rightarrow> core_results \<Rightarrow> core_results list \<Rightarrow> ee_u16 \<Rightarrow> print_call list" where
  "report_contexts cfg res results seedcrc =
     (let contexts = of_nat (length results)
      in [(''Iterations       : %lu'' @ nl, [PNum (uint (contexts * r_iterations res))]),
           (''Compiler version : %s'' @ nl, [PStr (COMPILER_VERSION cfg)]),
           (''Compiler flags   : %s'' @ nl, [PStr (COMPILER_FLAGS cfg)])]
         @ (case PARALLEL_METHOD cfg of
              Some m \<Rightarrow> [(''Parallel %s : %d'' @ nl, [PStr m, PNum (uint contexts)])] | None \<Rightarrow> [])
         @ [(''Memory location  : %s'' @ nl, [PStr (MEM_LOCATION cfg)]),
           (''seedcrc          : 0x%04x'' @ nl, [PNum (uint seedcrc)])]
         @ (if r_execs res AND ID_LIST \<noteq> 0 then report_crcs ''crclist      '' r_crclist results else [])
         @ (if r_execs res AND ID_MATRIX \<noteq> 0 then report_crcs ''crcmatrix    '' r_crcmatrix results else [])
         @ (if r_execs res AND ID_STATE \<noteq> 0 then report_crcs ''crcstate     '' r_crcstate results else [])
         @ report_crcs ''crcfinal     '' r_crc results)"

definition report_run :: "report_config \<Rightarrow> core_results list \<Rightarrow> ee_u16 \<Rightarrow> print_call list option" where
  "report_run cfg results seedcrc = do { res \<leftarrow> rd results 0; Some (report_contexts cfg res results seedcrc) }"

definition validated :: print_call where
  "validated = (''Correct operation validated. See README.md for run and reporting rules.'' @ nl, [])"

definition errors_detected :: print_call where
  "errors_detected = (''Errors detected'' @ nl, [])"

definition cannot_validate :: print_call where
  "cannot_validate = (''Cannot validate operation for these seed values, please compare with results on a known platform.'' @ nl, [])"

definition verdict :: "ee_s16 \<Rightarrow> print_call list" where
  "verdict total_errors =
     (if total_errors = 0 then [validated] else [])
     @ (if sint total_errors > 0 then [errors_detected] else [])
     @ (if sint total_errors < 0 then [cannot_validate] else [])"

section \<open>The main program\<close>

definition initial_results :: "ee_u32 \<Rightarrow> ee_u32 \<Rightarrow> core_results" where
  "initial_results static_memblk total_data_size =
     \<lparr>r_seed1 = 0, r_seed2 = 0, r_seed3 = 0, r_memblock = [static_memblk, 0, 0, 0], r_size = total_data_size,
      r_iterations = 0, r_execs = 0, r_list = None, r_mat = \<lparr>p_N = 0, p_A = 0, p_B = 0, p_C = 0\<rparr>,
      r_crc = 0, r_crclist = 0, r_crcmatrix = 0, r_crcstate = 0, r_err = 0,
      heads = [], datas = [], mats = \<lparr>mat_A = [], mat_B = [], mat_C = []\<rparr>, state_mem = []\<rparr>"

definition data_init :: "core_results \<Rightarrow> core_results option" where
  "data_init res =
     do {
       res1 \<leftarrow> divide_size res;
       res2 \<leftarrow> assign_pointers res1;
       res3 \<leftarrow> static_memory res2;
       call_inits res3
     }"

text \<open>From the result of the timed run on: what is printed, and the count of errors.\<close>

definition check_and_report :: "report_config \<Rightarrow> type_sizes \<Rightarrow> core_results list \<Rightarrow> ee_u32
    \<Rightarrow> (print_call list \<times> ee_s16 \<times> core_results list) option" where
  "check_and_report rcfg z results total_time =
     do {
       res \<leftarrow> rd results 0;
       let seedcrc = seed_crc res;
       let (out1, known_id, errors0) = known_run seedcrc;
       (out2, results', errors1) \<leftarrow> check_results z known_id results errors0;
       (out3, errors2) \<leftarrow> report_time results' total_time errors1;
       out4 \<leftarrow> report_run rcfg results' seedcrc;
       Some (out1 @ out2 @ out3 @ out4 @ verdict errors2, errors2, results')
     }"

definition core_main :: "portme_config \<Rightarrow> report_config \<Rightarrow> nat \<Rightarrow> (nat \<Rightarrow> ee_u32) \<Rightarrow> seeds \<Rightarrow> ee_u32 \<Rightarrow> ee_u32
    \<Rightarrow> (print_call list \<times> int \<times> core_results list \<times> core_portable) option" where
  "core_main cfg rcfg sizeof_list_head cycle v static_memblk total_data_size =
     do {
       (out0, argc, argv, p) \<leftarrow> portable_init cfg 0 [[]] \<lparr>portable_id = 0, default_num_contexts = 1\<rparr>;
       if sizeof_list_head > 128
       then Some (out0 @ [(''list_head structure too big for comparable data!'' @ nl, [])], 0, [], p)
       else do {
         let res0 = read_seeds v (initial_results static_memblk total_data_size);
         res1 \<leftarrow> data_init res0;
         (res2, t2) \<leftarrow> set_iterations cycle res1 \<lparr>start_time_val = 0, stop_time_val = 0, reads = 0\<rparr>;
         let t3 = start_time cycle t2;
         res3 \<leftarrow> iterate res2;
         let t4 = stop_time cycle t3;
         (out1, total_errors, results) \<leftarrow> check_and_report rcfg (sizes cfg) [res3] (get_time t4);
         Some (out0 @ out1, 0, results, portable_fini p)
       }
     }"

end
