(* ===== verification/Core_List_Init.thy ===== *)
theory Core_List_Init
  imports Core_List_Bench
begin

text \<open>
  The initialisation of \<open>core_list_join.c\<close>: \<open>core_list_init\<close> fills its block with one list of all
  the cells but the last, in the order of their indices, on which the benchmark can run.
\<close>

section \<open>Inserting the cells\<close>

definition same_inputs :: "core_results \<Rightarrow> core_results \<Rightarrow> bool" where
  "same_inputs w w' \<longleftrightarrow> w'\<lparr>heads := [], datas := []\<rparr> = w\<lparr>heads := [], datas := []\<rparr>
     \<and> length (heads w') = length (heads w) \<and> length (datas w') = length (datas w)"

lemma same_inputs_refl [simp]: "same_inputs w w"
  by (simp add: same_inputs_def)

lemma same_inputs_trans: "same_inputs w w1 \<Longrightarrow> same_inputs w1 w2 \<Longrightarrow> same_inputs w w2"
  by (simp add: same_inputs_def)

lemma same_inputs_update:
  "length hs = length (heads w) \<Longrightarrow> length ds = length (datas w) \<Longrightarrow> same_inputs w (w\<lparr>heads := hs, datas := ds\<rparr>)"
  by (simp add: same_inputs_def)

text \<open>The list after \<open>k\<close> insertions behind the head: the last inserted cell comes first.\<close>

definition built :: "nat \<Rightarrow> core_results \<Rightarrow> bool" where
  "built k w \<longleftrightarrow> lseg (heads w) (Some 0) (0 # rev [1..<Suc k]) None \<and> k < length (datas w)
     \<and> (\<forall>x \<le> k. lh_info (heads w ! x) = x \<and> regen (ld_data16 (datas w ! x)) = ld_data16 (datas w ! x)
          \<and> ld_idx (datas w ! x) = (if x = 0 then 0 else 0x7fff))"

lemma item_data_regen: "regen (item_data seed i) = item_data seed i"
proof -
  define d where "d = (push_bit 3 (ucast (scast seed XOR (of_nat i :: ee_u32)) AND 0xf)
    OR ucast ((of_nat i :: ee_u32) AND 7) :: ee_u16)"
  have d: "item_data seed i = push_bit 8 d OR d" by (simp add: item_data_def Let_def d_def)
  have "\<forall>m<16. 8 \<le> m \<longrightarrow> \<not> bit d m"
    unfolding d_def by (simp add: all_less_16 bit_simps)
  then have "\<not> bit d m" if "8 \<le> m" for m
    using that by (cases "m < 16") auto
  then have "bit (item_data seed i) m \<longleftrightarrow> (if m < 8 then bit d m else m < 16 \<and> bit d (m - 8))" for m
    by (auto simp: d bit_or_iff bit_push_bit_iff)
  then show ?thesis
    by (intro word16_eqI) (simp add: all_less_16 regen_def bit_simps)
qed

lemma core_list_insert_result:
  assumes "built k w" "k + 2 < sz" "sz \<le> length (heads w)" "sz \<le> length (datas w)"
    "regen (ld_data16 info) = ld_data16 info" "ld_idx info = 0x7fff"
  shows "\<exists>w'. core_list_insert_new (Some 0) info (k + 1) (k + 1) sz sz w = Some (Some (k + 1), k + 2, k + 2, w')
    \<and> built (k + 1) w' \<and> same_inputs w w'"
proof -
  have l: "lseg (heads w) (Some 0) (0 # rev [1..<Suc k]) None" using assms(1) by (simp add: built_def)
  then obtain n where n: "lh_next (heads w ! 0) = n" "lseg (heads w) n (rev [1..<Suc k]) None" "0 < length (heads w)"
    by auto
  let ?a = "(heads w)[k + 1 := (heads w ! (k + 1))\<lparr>lh_next := n\<rparr>]"
  let ?b = "?a[0 := (heads w ! 0)\<lparr>lh_next := Some (k + 1)\<rparr>]"
  let ?hs = "?b[k + 1 := (heads w ! (k + 1))\<lparr>lh_next := n, lh_info := k + 1\<rparr>]"
  let ?ds = "(datas w)[k + 1 := (datas w ! (k + 1))\<lparr>ld_data16 := ld_data16 info, ld_idx := ld_idx info\<rparr>]"
  have "core_list_insert_new (Some 0) info (k + 1) (k + 1) sz sz w
      = Some (Some (k + 1), k + 2, k + 2, w\<lparr>heads := ?hs, datas := ?ds\<rparr>)"
    using assms(2-4) n
    by (simp add: core_list_insert_new_def get_next_def set_next_def set_info_def copy_info_def set_data16_def
        set_idx_def Let_def)
  moreover have "built (k + 1) (w\<lparr>heads := ?hs, datas := ?ds\<rparr>)"
  proof -
    have "lseg ?hs (Some 0) (0 # (k + 1) # rev [1..<Suc k]) None"
      using n(2,3) assms(2,3) by simp
    moreover have "rev [1..<Suc (k + 1)] = (k + 1) # rev [1..<Suc k]" by simp
    ultimately show ?thesis
      using assms by (auto simp: built_def nth_list_update le_Suc_eq)
  qed
  moreover have "same_inputs w (w\<lparr>heads := ?hs, datas := ?ds\<rparr>)"
    by (rule same_inputs_update) simp_all
  ultimately show ?thesis by blast
qed

lemma core_list_insert_full:
  "sz \<le> k + 2 \<Longrightarrow> core_list_insert_new (Some 0) info (k + 1) (k + 1) sz sz w = Some (None, k + 1, k + 1, w)"
  by (simp add: core_list_insert_new_def)

lemma insert_loop_result:
  assumes "built 1 w" "3 \<le> sz" "sz \<le> length (heads w)" "sz \<le> length (datas w)"
  shows "\<exists>w'. for_count (insert_step sz seed) 0 sz (2, 2, w) = Some (sz - 1, sz - 1, w')
    \<and> built (sz - 2) w' \<and> same_inputs w w'"
proof -
  define P where "P = (\<lambda>j (s :: nat \<times> nat \<times> core_results). \<exists>w'. s = (min (sz - 2) (1 + j) + 1, min (sz - 2) (1 + j) + 1, w')
    \<and> built (min (sz - 2) (1 + j)) w' \<and> same_inputs w w')"
  have "\<exists>s'. for_count (insert_step sz seed) 0 sz (2, 2, w) = Some s' \<and> P (0 + sz) s'"
  proof (rule for_count_rule)
    fix j s assume "P j s"
    then obtain w' where s: "s = (min (sz - 2) (1 + j) + 1, min (sz - 2) (1 + j) + 1, w')"
      and w': "built (min (sz - 2) (1 + j)) w'" "same_inputs w w'" by (auto simp: P_def)
    have len: "sz \<le> length (heads w')" "sz \<le> length (datas w')" using w'(2) assms(3,4) by (simp_all add: same_inputs_def)
    show "\<exists>s'. insert_step sz seed j s = Some s' \<and> P (Suc j) s'"
    proof (cases "1 + j + 2 < sz")
      case True
      then have k: "min (sz - 2) (1 + j) = 1 + j" "min (sz - 2) (1 + Suc j) = 1 + Suc j" by simp_all
      obtain w2 where "core_list_insert_new (Some 0) \<lparr>ld_data16 = item_data seed j, ld_idx = 0x7fff\<rparr> (1 + j + 1) (1 + j + 1) sz sz w'
          = Some (Some (1 + j + 1), 1 + j + 2, 1 + j + 2, w2)" "built (1 + j + 1) w2" "same_inputs w' w2"
        using core_list_insert_result[of "1 + j" w' sz "\<lparr>ld_data16 = item_data seed j, ld_idx = 0x7fff\<rparr>"]
          w'(1) True len item_data_regen unfolding k by auto
      then show ?thesis
        using s w'(2) same_inputs_trans unfolding P_def k by (fastforce simp: insert_step_def k)
    next
      case False
      then have k: "min (sz - 2) (1 + j) = sz - 2" "min (sz - 2) (1 + Suc j) = sz - 2" using assms(2) by simp_all
      have "core_list_insert_new (Some 0) \<lparr>ld_data16 = item_data seed j, ld_idx = 0x7fff\<rparr> (sz - 2 + 1) (sz - 2 + 1) sz sz w'
          = Some (None, sz - 2 + 1, sz - 2 + 1, w')"
        by (rule core_list_insert_full) simp
      then show ?thesis using s w' unfolding P_def k by (simp add: insert_step_def)
    qed
  next
    have "min (sz - 2) 1 = 1" using assms(2) by simp
    then show "P 0 (2, 2, w)" using assms(1) by (simp add: P_def)
  qed
  moreover have "min (sz - 2) (1 + sz) = sz - 2" "sz - 2 + 1 = sz - 1" using assms(2) by simp_all
  ultimately show ?thesis unfolding P_def by auto
qed

section \<open>Giving the indices\<close>

lemma set_idx_in [simp]:
  "i < length (datas w) \<Longrightarrow> set_idx w i v = Some (w\<lparr>datas := (datas w)[i := (datas w ! i)\<lparr>ld_idx := v\<rparr>]\<rparr>)"
  by (simp add: set_idx_def)

text \<open>All the cells but the last get the indices that follow each other.\<close>

lemma index_loop_result:
  assumes "lseg (heads w) finder xs None" "xs \<noteq> []" "distinct xs"
    "\<forall>x \<in> set xs. lh_info (heads w ! x) = x \<and> x < length (datas w)"
  shows "\<exists>ds. index_loop sz seed finder i w = Some (w\<lparr>datas := ds\<rparr>) \<and> length ds = length (datas w)
    \<and> map ld_data16 ds = map ld_data16 (datas w)
    \<and> (\<forall>x. x \<notin> set (butlast xs) \<longrightarrow> ds ! x = datas w ! x)
    \<and> (\<forall>j < length xs - 1. ld_idx (ds ! (xs ! j)) = item_idx sz seed (i + of_nat j))"
  using assms
proof (induction xs arbitrary: w finder i)
  case (Cons x xs)
  then have x: "finder = Some x" "x < length (heads w)" "lseg (heads w) (lh_next (heads w ! x)) xs None"
    "lh_info (heads w ! x) = x" "x < length (datas w)" by auto
  show ?case
  proof (cases xs)
    case Nil
    then show ?thesis
      using x by (intro exI[of _ "datas w"], subst index_loop.simps) (auto simp: get_next_def)
  next
    case (Cons y ys)
    define w1 where "w1 = w\<lparr>datas := (datas w)[x := (datas w ! x)\<lparr>ld_idx := item_idx sz seed i\<rparr>]\<rparr>"
    have "\<exists>ds. index_loop sz seed (lh_next (heads w ! x)) (i + 1) w1 = Some (w1\<lparr>datas := ds\<rparr>) \<and> length ds = length (datas w1)
      \<and> map ld_data16 ds = map ld_data16 (datas w1)
      \<and> (\<forall>x. x \<notin> set (butlast xs) \<longrightarrow> ds ! x = datas w1 ! x)
      \<and> (\<forall>j < length xs - 1. ld_idx (ds ! (xs ! j)) = item_idx sz seed (i + 1 + of_nat j))"
      by (rule Cons.IH) (use Cons.prems x Cons in \<open>auto simp: w1_def\<close>)
    then obtain ds where ds: "index_loop sz seed (lh_next (heads w ! x)) (i + 1) w1 = Some (w1\<lparr>datas := ds\<rparr>)"
      "length ds = length (datas w1)" "map ld_data16 ds = map ld_data16 (datas w1)"
      "\<forall>x. x \<notin> set (butlast xs) \<longrightarrow> ds ! x = datas w1 ! x"
      "\<forall>j < length xs - 1. ld_idx (ds ! (xs ! j)) = item_idx sz seed (i + 1 + of_nat j)" by blast
    have "index_loop sz seed finder i w = Some (w\<lparr>datas := ds\<rparr>)"
      using x Cons ds(1) by (subst index_loop.simps) (simp add: get_next_def get_info_def w1_def)
    moreover have "map ld_data16 ds = map ld_data16 (datas w)"
      using ds(3) x(5) list_update_id[of "map ld_data16 (datas w)" x] by (simp add: w1_def map_update)
    moreover have "ds ! z = datas w ! z" if "z \<notin> set (butlast (x # xs))" for z
      using ds(4) that Cons by (auto simp: w1_def)
    moreover have "ld_idx (ds ! ((x # xs) ! j)) = item_idx sz seed (i + of_nat j)" if "j < length (x # xs) - 1" for j
    proof (cases j)
      case 0
      have "x \<notin> set (butlast xs)" using Cons.prems(3) by (auto dest: in_set_butlastD)
      then show ?thesis using 0 ds(4) x(5) by (simp add: w1_def)
    next
      case (Suc k)
      then show ?thesis using ds(5) that by (simp add: algebra_simps)
    qed
    moreover have "length ds = length (datas w)" using ds(2) by (simp add: w1_def)
    ultimately show ?thesis by blast
  qed
qed simp

section \<open>The initialised list\<close>

text \<open>The indices of the cells between the head and the last one, in the order they are given.\<close>

definition index_values :: "ee_u32 \<Rightarrow> ee_s16 \<Rightarrow> nat \<Rightarrow> ee_s16 list" where
  "index_values sz seed n = map (\<lambda>j. item_idx sz seed (1 + of_nat j)) [0..<n]"

lemma built_indices:
  assumes "built (s - 2) w" "4 \<le> s" "index_loop sz seed (lh_next (heads w ! 0)) 1 w = Some w'"
  shows "\<exists>ds. w' = w\<lparr>datas := ds\<rparr> \<and> length ds = length (datas w) \<and> map ld_data16 ds = map ld_data16 (datas w)
    \<and> map (\<lambda>x. ld_idx (ds ! x)) (0 # rev [1..<s - 1]) = 0 # index_values sz seed (s - 3) @ [0x7fff]"
proof -
  define xs where "xs = rev [1..<s - 1]"
  have e: "Suc (s - 2) = s - 1" using assms(2) by simp
  have b: "lseg (heads w) (Some 0) (0 # xs) None" "s - 2 < length (datas w)"
    "\<forall>x \<le> s - 2. lh_info (heads w ! x) = x \<and> ld_idx (datas w ! x) = (if x = 0 then 0 else 0x7fff)"
    using assms(1) unfolding built_def e xs_def by simp_all
  have len: "length xs = s - 2" "xs \<noteq> []" using assms(2) by (simp_all add: xs_def)
  have nth: "xs ! j = s - 2 - j" if "j < s - 2" for j
    using that by (simp add: xs_def rev_nth)
  have "\<exists>ds. index_loop sz seed (lh_next (heads w ! 0)) 1 w = Some (w\<lparr>datas := ds\<rparr>) \<and> length ds = length (datas w)
      \<and> map ld_data16 ds = map ld_data16 (datas w)
      \<and> (\<forall>x. x \<notin> set (butlast xs) \<longrightarrow> ds ! x = datas w ! x)
      \<and> (\<forall>j < length xs - 1. ld_idx (ds ! (xs ! j)) = item_idx sz seed (1 + of_nat j))"
    by (rule index_loop_result) (use b len in \<open>auto simp: xs_def\<close>)
  then obtain ds where ds: "w' = w\<lparr>datas := ds\<rparr>" "length ds = length (datas w)"
    "map ld_data16 ds = map ld_data16 (datas w)"
    "\<forall>x. x \<notin> set (butlast xs) \<longrightarrow> ds ! x = datas w ! x"
    "\<forall>j < length xs - 1. ld_idx (ds ! (xs ! j)) = item_idx sz seed (1 + of_nat j)"
    using assms(3) by auto
  have not: "0 \<notin> set (butlast xs)" "1 \<notin> set (butlast xs)"
  proof -
    have "[1..<s - 1] = 1 # [2..<s - 1]"
      using assms(2) upt_conv_Cons[of 1 "s - 1"] by (simp add: numeral_2_eq_2)
    then have "butlast xs = rev [2..<s - 1]" by (simp only: xs_def rev.simps butlast_snoc)
    then show "0 \<notin> set (butlast xs)" "1 \<notin> set (butlast xs)" by simp_all
  qed
  have "map (\<lambda>x. ld_idx (ds ! x)) xs = index_values sz seed (s - 3) @ [0x7fff]"
  proof (rule nth_equalityI)
    show "length (map (\<lambda>x. ld_idx (ds ! x)) xs) = length (index_values sz seed (s - 3) @ [0x7fff])"
      using len assms(2) by (simp add: index_values_def)
    fix j assume "j < length (map (\<lambda>x. ld_idx (ds ! x)) xs)"
    then have j: "j < s - 2" using len by simp
    show "map (\<lambda>x. ld_idx (ds ! x)) xs ! j = (index_values sz seed (s - 3) @ [0x7fff]) ! j"
    proof (cases "j < s - 3")
      case True
      then show ?thesis using ds(5) len j by (simp add: index_values_def nth_append)
    next
      case False
      then have "j = s - 3" using j by simp
      moreover have "xs ! (s - 3) = 1" using nth[of "s - 3"] assms(2) by simp
      ultimately show ?thesis
        using ds(4) not(2) b(3) assms(2) len by (simp add: index_values_def nth_append)
    qed
  qed
  moreover have "ld_idx (ds ! 0) = 0" using ds(4) not(1) b(3) by simp
  ultimately show ?thesis using ds(1-3) by (intro exI[of _ ds]) (simp add: xs_def)
qed

lemma core_list_init_built:
  assumes "s = unat (blksize div 20 - 2)" "4 \<le> s" "s \<le> length (heads w)" "s \<le> length (datas w)"
  shows "\<exists>w6. built (s - 2) w6 \<and> same_inputs w w6 \<and> core_list_init blksize seed w =
    do { w7 \<leftarrow> index_loop (blksize div 20 - 2) seed (lh_next (heads w6 ! 0)) 1 w6;
         core_list_mergesort (Some 0) (cmp_idx True) w7 }"
proof -
  let ?w4 = "w\<lparr>heads := (heads w)[0 := \<lparr>lh_next = None, lh_info = 0\<rparr>],
    datas := (datas w)[0 := \<lparr>ld_data16 = 0x8080, ld_idx = 0\<rparr>]\<rparr>"
  have pos: "0 < length (heads w)" "0 < length (datas w)" using assms(2-4) by (cases "heads w"; cases "datas w"; simp)+
  have b0: "built 0 ?w4" using pos by (simp add: built_def regen_def)
  have s4: "same_inputs w ?w4" by (simp add: same_inputs_def)
  obtain w5 where w5: "core_list_insert_new (Some 0) \<lparr>ld_data16 = 0xffff, ld_idx = 0x7fff\<rparr> 1 1 s s ?w4
      = Some (Some 1, 2, 2, w5)" "built 1 w5" "same_inputs ?w4 w5"
    using core_list_insert_result[OF b0, of s "\<lparr>ld_data16 = 0xffff, ld_idx = 0x7fff\<rparr>"] assms(2-4)
    by (auto simp: regen_def numeral_2_eq_2)
  have len5: "s \<le> length (heads w5)" "s \<le> length (datas w5)"
    using w5(3) assms(3,4) by (simp_all add: same_inputs_def)
  obtain w6 where w6: "for_count (insert_step s seed) 0 s (2, 2, w5) = Some (s - 1, s - 1, w6)"
    "built (s - 2) w6" "same_inputs w5 w6"
    using insert_loop_result[OF w5(2) _ len5, of seed] assms(2) by auto
  have pos6: "0 < length (heads w6)" using w6(2) by (auto simp: built_def)
  have rec1: "c\<lparr>lh_next := None, lh_info := 0\<rparr> = \<lparr>lh_next = None, lh_info = 0\<rparr>" for c :: list_head
    by (cases c) simp
  have rec2: "d\<lparr>ld_idx := 0, ld_data16 := 0x8080\<rparr> = \<lparr>ld_data16 = 0x8080, ld_idx = 0\<rparr>" for d :: list_data
    by (cases d) simp
  have "core_list_init blksize seed w =
      do { w7 \<leftarrow> index_loop (blksize div 20 - 2) seed (lh_next (heads w6 ! 0)) 1 w6;
           core_list_mergesort (Some 0) (cmp_idx True) w7 }"
    using pos pos6 w5(1) w6(1) assms(1)
    by (simp add: rec1 rec2 core_list_init_def Let_def set_next_def set_info_def get_next_def)
  then show ?thesis using w6(2) same_inputs_trans[OF s4 same_inputs_trans[OF w5(3) w6(3)]] by blast
qed

lemma built_index_loop:
  assumes "built (s - 2) w" "4 \<le> s"
  shows "\<exists>ds. index_loop sz seed (lh_next (heads w ! 0)) 1 w = Some (w\<lparr>datas := ds\<rparr>) \<and> length ds = length (datas w)
    \<and> map ld_data16 ds = map ld_data16 (datas w)
    \<and> map (\<lambda>x. ld_idx (ds ! x)) (0 # rev [1..<s - 1]) = 0 # index_values sz seed (s - 3) @ [0x7fff]"
proof -
  have e: "Suc (s - 2) = s - 1" using assms(2) by simp
  have b: "lseg (heads w) (Some 0) (0 # rev [1..<s - 1]) None" "s - 2 < length (datas w)" "\<forall>x \<le> s - 2. lh_info (heads w ! x) = x"
    using assms(1) unfolding built_def e by simp_all
  have "lseg (heads w) (lh_next (heads w ! 0)) (rev [1..<s - 1]) None" using b(1) by simp
  moreover have "rev [1..<s - 1] \<noteq> []" "distinct (rev [1..<s - 1])" using assms(2) by simp_all
  moreover have "\<forall>x \<in> set (rev [1..<s - 1]). lh_info (heads w ! x) = x \<and> x < length (datas w)"
    using b(2,3) by auto
  ultimately have "\<exists>ds. index_loop sz seed (lh_next (heads w ! 0)) 1 w = Some (w\<lparr>datas := ds\<rparr>)"
    using index_loop_result by blast
  then show ?thesis using built_indices[OF assms, of sz seed] by fastforce
qed

text \<open>Different indices in order are in strict order.\<close>

lemma strictly_by_index:
  assumes "sorted_wrt (\<lambda>x y. idx_le w (lh_info (heads w ! x)) (lh_info (heads w ! y))) ys" "distinct ys"
    "inj_on f (set ys)" "\<And>x. x \<in> set ys \<Longrightarrow> ld_idx (item w x) = f x"
  shows "sorted_wrt (\<lambda>x y. sint (ld_idx (item w x)) < sint (ld_idx (item w y))) ys"
  unfolding sorted_wrt_iff_nth_less
proof (intro allI impI)
  fix j k assume jk: "j < k" "k < length ys"
  then have mem: "ys ! j \<in> set ys" "ys ! k \<in> set ys" "ys ! j \<noteq> ys ! k"
    using assms(2) by (auto simp: nth_eq_iff_index_eq)
  have "sint (ld_idx (item w (ys ! j))) \<le> sint (ld_idx (item w (ys ! k)))"
    using assms(1) jk by (auto simp: sorted_wrt_iff_nth_less idx_le_def item_def)
  moreover have "ld_idx (item w (ys ! j)) \<noteq> ld_idx (item w (ys ! k))"
    using inj_onD[OF assms(3) _ mem(1,2)] mem(3) assms(4)[OF mem(1)] assms(4)[OF mem(2)] by auto
  then have "sint (ld_idx (item w (ys ! j))) \<noteq> sint (ld_idx (item w (ys ! k)))"
    using signed_word_eqI by blast
  ultimately show "sint (ld_idx (item w (ys ! j))) < sint (ld_idx (item w (ys ! k)))" by simp
qed

lemma core_list_init_ready:
  assumes "s = unat (blksize div 20 - 2)" "4 \<le> s" "s < 2 ^ 31" "s \<le> length (heads w)" "s \<le> length (datas w)"
    "distinct (0 # index_values (blksize div 20 - 2) seed (s - 3) @ [0x7fff])"
  shows "\<exists>p w' xs. core_list_init blksize seed w = Some (p, w') \<and> same_inputs w w'
    \<and> list_ready (w'\<lparr>r_list := p\<rparr>) xs \<and> mset xs = mset [0..<s - 1]"
proof -
  let ?sz = "blksize div 20 - 2"
  obtain w6 where w6: "built (s - 2) w6" "same_inputs w w6" and init: "core_list_init blksize seed w =
    do { w7 \<leftarrow> index_loop ?sz seed (lh_next (heads w6 ! 0)) 1 w6; core_list_mergesort (Some 0) (cmp_idx True) w7 }"
    using core_list_init_built[OF assms(1,2,4,5)] by blast
  define xs where "xs = 0 # rev [1..<s - 1]"
  have e: "Suc (s - 2) = s - 1" using assms(2) by simp
  have b: "lseg (heads w6) (Some 0) xs None" "s - 2 < length (datas w6)"
    "\<forall>x \<le> s - 2. lh_info (heads w6 ! x) = x \<and> regen (ld_data16 (datas w6 ! x)) = ld_data16 (datas w6 ! x)"
    using w6(1) unfolding built_def e xs_def by simp_all
  from built_index_loop[OF w6(1) assms(2), of ?sz seed, folded xs_def]
  obtain ds where i: "index_loop ?sz seed (lh_next (heads w6 ! 0)) 1 w6 = Some (w6\<lparr>datas := ds\<rparr>)"
    "length ds = length (datas w6)" "map ld_data16 ds = map ld_data16 (datas w6)"
    "map (\<lambda>x. ld_idx (ds ! x)) xs = 0 # index_values ?sz seed (s - 3) @ [0x7fff]"
    by (elim exE conjE) (rule that)
  let ?w7 = "w6\<lparr>datas := ds\<rparr>"
  have set_xs: "set xs = {0..<s - 1}" using assms(2) by (auto simp: xs_def)
  have mset_xs: "mset xs = mset [0..<s - 1]"
    using assms(2) by (simp add: xs_def upt_conv_Cons)
  have dist: "distinct xs" "xs \<noteq> []" "length xs < 2 ^ 31" "\<forall>x \<in> set xs. lh_info (heads ?w7 ! x) < length ds"
    using b(2,3) i(2) assms(2,3) set_xs by (auto simp: xs_def)
  obtain p w' ys where m: "core_list_mergesort (Some 0) (cmp_idx True) ?w7 = Some (p, w')" "idx_ext ?w7 w'"
    "lseg (heads w') p ys None" "mset ys = mset xs" "frame (set xs) (heads w6) (heads w')"
    "sorted_wrt (\<lambda>x y. idx_le w' (lh_info (heads w' ! x)) (lh_info (heads w' ! y))) ys"
    using by_idx.mergesort_result[of ?w7 "length ds" "Some 0" xs] b(1) dist by auto
  have ys: "set ys = set xs" "distinct ys" "length ys = length xs"
    using mset_eq_setD[OF m(4)] mset_eq_imp_distinct_iff[OF m(4)] dist(1) mset_eq_length[OF m(4)] by simp_all
  have len: "length (heads w') = length (heads w6)" "length (datas w') = length ds"
    using frame_length[OF m(5)] m(2) by (auto simp: idx_ext_def dest: list_all2_lengthD)
  have same: "same_inputs w w'"
    using w6(2) m(2) i(2) len unfolding same_inputs_def idx_ext_def by simp
  have info: "lh_info (heads w' ! x) = x \<and> x < length (heads w') \<and> x < length (datas w')" if "x \<in> set ys" for x
  proof -
    have x: "x \<in> set xs" "x \<le> s - 2" using that ys(1) set_xs by auto
    have lt: "x < length (heads w6)" using lseg_in[OF b(1) x(1)] .
    have "map lh_info (heads w') ! x = map lh_info (heads w6) ! x" using frame_infos[OF m(5)] by simp
    then show ?thesis using b(2,3) x(2) lt len i(2) by simp
  qed
  have data: "ld_idx (item w' x) = ld_idx (ds ! x) \<and> regen (ld_data16 (item w' x)) = ld_data16 (item w' x)"
    if "x \<in> set ys" for x
  proof -
    have x: "x < length ds" "x \<le> s - 2" using that info len ys(1) set_xs by auto
    have "map ld_data16 ds ! x = map ld_data16 (datas w6) ! x" using i(3) by simp
    then have "regen (ld_data16 (ds ! x)) = ld_data16 (ds ! x)" using b(3) x i(2) by simp
    moreover have "regen_item (ds ! x) (datas w' ! x)"
      using m(2) x(1) by (auto simp: idx_ext_def dest: list_all2_nthD)
    ultimately show ?thesis using info[OF that] by (auto simp: item_def regen_item_def)
  qed
  have inj: "inj_on (\<lambda>x. ld_idx (ds ! x)) (set ys)"
    using assms(6) unfolding i(4) [symmetric] distinct_map ys(1) by blast
  have strict: "sorted_wrt (\<lambda>x y. sint (ld_idx (item w' x)) < sint (ld_idx (item w' y))) ys"
    by (rule strictly_by_index[OF m(6) ys(2) inj]) (use data in blast)
  have "list_ready (w'\<lparr>r_list := p\<rparr>) ys"
    using m(3) ys dist(3) assms(2) strict data info
    unfolding list_ready_def items_in_def by (simp add: item_def xs_def)
  moreover have "core_list_init blksize seed w = Some (p, w')" using init i(1) m(1) by simp
  moreover have "mset ys = mset [0..<s - 1]" using m(4) mset_xs by simp
  ultimately show ?thesis using same by blast
qed

end
