(* ===== verification/Core_Main_Props.thy ===== *)
theory Core_Main_Props
  imports Core_Main Core_List_Init Portme_Props
begin

text \<open>
  The composition of the benchmark: its initialisation gives a state that every iteration runs on
  and restores, so that \<open>iterate\<close> returns for any number of iterations and the whole program for the
  seeds of the known runs; the calibration ends once a run takes a second; and the verdict that the
  program prints on this port.
\<close>

section \<open>Iterations\<close>

text \<open>Runs differ in the check sums, the cached items and the result matrix only.\<close>

definition inputs :: "core_results \<Rightarrow> core_results" where
  "inputs w = w\<lparr>datas := [], mats := (mats w)\<lparr>mat_C := []\<rparr>, r_crc := 0, r_crclist := 0, r_crcmatrix := 0,
     r_crcstate := 0\<rparr>"

lemma inputs_crc [simp]:
  "inputs (w\<lparr>r_crc := c\<rparr>) = inputs w" "inputs (w\<lparr>r_crclist := c\<rparr>) = inputs w"
  "inputs (w\<lparr>r_crcmatrix := c\<rparr>) = inputs w" "inputs (w\<lparr>r_crcstate := c\<rparr>) = inputs w"
  by (simp_all add: inputs_def)

lemma fields_inputs [simp]:
  "r_seed1 (inputs w) = r_seed1 w" "r_seed2 (inputs w) = r_seed2 w" "r_seed3 (inputs w) = r_seed3 w"
  "r_size (inputs w) = r_size w" "r_iterations (inputs w) = r_iterations w" "r_execs (inputs w) = r_execs w"
  "r_err (inputs w) = r_err w" "heads (inputs w) = heads w"
  by (simp_all add: inputs_def)

lemma inputs_fields:
  assumes "inputs w' = inputs w"
  shows "r_seed1 w' = r_seed1 w" "r_seed2 w' = r_seed2 w" "r_seed3 w' = r_seed3 w" "r_size w' = r_size w"
    "r_iterations w' = r_iterations w" "r_execs w' = r_execs w" "r_err w' = r_err w" "heads w' = heads w"
  using arg_cong[OF assms, of r_seed1] arg_cong[OF assms, of r_seed2] arg_cong[OF assms, of r_seed3]
    arg_cong[OF assms, of r_size] arg_cong[OF assms, of r_iterations] arg_cong[OF assms, of r_execs]
    arg_cong[OF assms, of r_err] arg_cong[OF assms, of heads]
  by simp_all

lemma complex_ext_inputs_same:
  assumes "complex_ext w (w'\<lparr>datas := datas w\<rparr>)" "heads w' = heads w"
  shows "inputs w' = inputs w" "r_crclist w' = r_crclist w"
  using assms by (cases w; cases w'; auto simp: complex_ext_def inputs_def)+

lemma list_ready_crc [simp]:
  "list_ready (w\<lparr>r_crc := c\<rparr>) xs = list_ready w xs" "list_ready (w\<lparr>r_crclist := c\<rparr>) xs = list_ready w xs"
  "list_ready (w\<lparr>r_crcmatrix := c\<rparr>) xs = list_ready w xs" "list_ready (w\<lparr>r_crcstate := c\<rparr>) xs = list_ready w xs"
  by (simp_all add: list_ready_def item_def items_in_def)

lemma bench_ready_crc [simp]:
  "bench_ready (w\<lparr>r_crc := c\<rparr>) = bench_ready w" "bench_ready (w\<lparr>r_crclist := c\<rparr>) = bench_ready w"
  "bench_ready (w\<lparr>r_crcmatrix := c\<rparr>) = bench_ready w" "bench_ready (w\<lparr>r_crcstate := c\<rparr>) = bench_ready w"
  by (simp_all add: bench_ready_def)

lemma item_crc [simp]: "item (w\<lparr>r_crc := c\<rparr>) x = item w x" "item (w\<lparr>r_crclist := c\<rparr>) x = item w x"
  "item (w\<lparr>r_crcmatrix := c\<rparr>) x = item w x" "item (w\<lparr>r_crcstate := c\<rparr>) x = item w x"
  by (simp_all add: item_def)

text \<open>What holds before and after every iteration.\<close>

definition running :: "core_results \<Rightarrow> nat list \<Rightarrow> core_results \<Rightarrow> bool" where
  "running w xs w' \<longleftrightarrow> list_ready w' xs \<and> bench_ready w' \<and> inputs w' = inputs w \<and> (\<forall>x \<in> set xs. item w' x = item w x)"

lemma bench_list_running:
  assumes "running w xs w1" "0 \<le> sint idx \<or> 0 < sint (r_seed3 w)"
  shows "\<exists>c w2. core_bench_list w1 idx = Some (c, w2) \<and> running w xs w2 \<and> r_crclist w2 = r_crclist w1"
proof -
  have r: "list_ready w1 xs" "bench_ready w1" "inputs w1 = inputs w" "\<forall>x \<in> set xs. item w1 x = item w x"
    using assms(1) by (simp_all add: running_def)
  have "0 \<le> sint idx \<or> 0 < sint (r_seed3 w1)" using assms(2) inputs_fields(3)[OF r(3)] by simp
  then obtain c w2 where w2: "core_bench_list w1 idx = Some (c, w2)" "heads w2 = heads w1"
    "\<forall>x \<in> set xs. item w2 x = item w1 x" "complex_ext w1 (w2\<lparr>datas := datas w1\<rparr>)" "list_ready w2 xs" "bench_ready w2"
    using core_bench_list_restores[OF r(1,2)] by blast
  then show ?thesis
    using r(3,4) complex_ext_inputs_same[OF w2(4,2)] by (auto simp: running_def)
qed

lemma iterate_step_running:
  assumes "running w xs w1" "0 < sint (r_seed3 w)"
  shows "\<exists>w2. iterate_step i w1 = Some w2 \<and> running w xs w2 \<and> (i \<noteq> 0 \<longrightarrow> r_crclist w2 = r_crclist w1)"
proof -
  obtain c w2 where 1: "core_bench_list w1 1 = Some (c, w2)" "running w xs w2" "r_crclist w2 = r_crclist w1"
    using bench_list_running[OF assms(1), of 1] by auto
  let ?w2 = "w2\<lparr>r_crc := crcu16 c (r_crc w2)\<rparr>"
  have "running w xs ?w2" using 1(2) by (simp add: running_def)
  then obtain c' w3 where 2: "core_bench_list ?w2 (- 1) = Some (c', w3)" "running w xs w3" "r_crclist w3 = r_crclist ?w2"
    using bench_list_running[of w xs ?w2 "- 1"] assms(2) by blast
  then show ?thesis using 1 by (auto simp: iterate_step_def running_def Let_def)
qed

lemma iterate_running:
  assumes "list_ready w xs" "bench_ready w" "0 < sint (r_seed3 w)"
  shows "\<exists>w'. iterate w = Some w' \<and> running w xs w'"
proof -
  let ?w0 = "w\<lparr>r_crc := 0, r_crclist := 0, r_crcmatrix := 0, r_crcstate := 0\<rparr>"
  have "\<exists>w'. for_count iterate_step 0 (unat (r_iterations w)) ?w0 = Some w' \<and> running w xs w'"
  proof (rule for_count_rule[where P = "\<lambda>_. running w xs"])
    show "\<exists>s'. iterate_step j s = Some s' \<and> running w xs s'" if "running w xs s" for j s
      using iterate_step_running[OF that assms(3)] by blast
    show "running w xs ?w0" using assms by (simp add: running_def)
  qed
  then show ?thesis by (simp add: iterate_def)
qed

text \<open>The check sum of the list is the one of the first iteration, however many follow.\<close>

lemma iterate_loop_crclist:
  assumes "running w xs w1" "0 < sint (r_seed3 w)" "0 < i" "for_count iterate_step i n w1 = Some w2"
  shows "r_crclist w2 = r_crclist w1"
  using assms(1,3,4)
proof (induction n arbitrary: i w1)
  case (Suc n)
  obtain w' where w': "iterate_step i w1 = Some w'" "running w xs w'" "r_crclist w' = r_crclist w1"
    using iterate_step_running[OF Suc.prems(1) assms(2), of i] Suc.prems(2) by auto
  then show ?case using Suc.IH[of w' "Suc i"] Suc.prems(3) by simp
qed simp

text \<open>C9: The timed run returns for every number of iterations and leaves a state that it can run on
  again, with the links, the items and all the inputs as before; and the check sum of the list
  that the program validates is the one after the first iteration, whatever their number.\<close>

theorem iterate_returns:
  assumes "list_ready w xs" "bench_ready w" "0 < sint (r_seed3 w)" "r_iterations w \<noteq> 0"
  shows "\<exists>w' w1. iterate w = Some w' \<and> list_ready w' xs \<and> bench_ready w' \<and> inputs w' = inputs w
    \<and> (\<forall>x \<in> set xs. item w' x = item w x)
    \<and> iterate_step 0 (w\<lparr>r_crc := 0, r_crclist := 0, r_crcmatrix := 0, r_crcstate := 0\<rparr>) = Some w1
    \<and> r_crclist w' = r_crclist w1"
proof -
  let ?w0 = "w\<lparr>r_crc := 0, r_crclist := 0, r_crcmatrix := 0, r_crcstate := 0\<rparr>"
  obtain w' where w': "iterate w = Some w'" "running w xs w'" using iterate_running[OF assms(1-3)] by blast
  obtain n where n: "unat (r_iterations w) = Suc n"
    using assms(4) by (cases "unat (r_iterations w)") (simp_all add: unat_eq_0)
  have "running w xs ?w0" using assms(1,2) by (simp add: running_def)
  then obtain w1 where w1: "iterate_step 0 ?w0 = Some w1" "running w xs w1"
    using iterate_step_running assms(3) by blast
  have "for_count iterate_step 1 n w1 = Some w'" using w'(1) w1(1) n by (simp add: iterate_def)
  then have "r_crclist w' = r_crclist w1" using iterate_loop_crclist[OF w1(2) assms(3), of 1 n w'] by simp
  with w' w1 show ?thesis by (auto simp: running_def)
qed

theorem iterate_returns_witness:
  "\<exists>w' w1. iterate demo = Some w' \<and> list_ready w' [0, 1, 2] \<and> bench_ready w' \<and> inputs w' = inputs demo
    \<and> (\<forall>x \<in> set [0, 1, 2]. item w' x = item demo x)
    \<and> iterate_step 0 (demo\<lparr>r_crc := 0, r_crclist := 0, r_crcmatrix := 0, r_crcstate := 0\<rparr>) = Some w1
    \<and> r_crclist w' = r_crclist w1"
  by (rule iterate_returns) (use demo_list demo_ready in \<open>simp_all add: demo_def\<close>)

section \<open>Calibration\<close>

definition secs_of :: "(nat \<Rightarrow> ee_u32) \<Rightarrow> nat \<Rightarrow> nat \<Rightarrow> ee_u32" where
  "secs_of cycle r k = time_in_secs (cycle (r + 2 * k + 1) - cycle (r + 2 * k))"

lemma list_ready_iterations [simp]: "list_ready (w\<lparr>r_iterations := c\<rparr>) xs = list_ready w xs"
  by (simp add: list_ready_def item_def items_in_def)

lemma bench_ready_iterations [simp]: "bench_ready (w\<lparr>r_iterations := c\<rparr>) = bench_ready w"
  by (simp add: bench_ready_def)

lemma inputs_iterations: "inputs (w\<lparr>r_iterations := c\<rparr>) = (inputs w)\<lparr>r_iterations := c\<rparr>"
  by (simp add: inputs_def)

text \<open>One turn of the loop.\<close>

lemma calibrate_turn:
  assumes "list_ready w xs" "bench_ready w" "0 < sint (r_seed3 w)"
  shows "\<exists>w' t'. calibrate cycle w t 0 = calibrate cycle w' t' (secs_of cycle (reads t) 0)
    \<and> list_ready w' xs \<and> bench_ready w' \<and> r_iterations w' = r_iterations w * 10 \<and> r_seed3 w' = r_seed3 w
    \<and> inputs (w'\<lparr>r_iterations := 0\<rparr>) = inputs (w\<lparr>r_iterations := 0\<rparr>) \<and> reads t' = reads t + 2"
proof -
  let ?w1 = "w\<lparr>r_iterations := r_iterations w * 10\<rparr>"
  let ?t = "stop_time cycle (start_time cycle t)"
  obtain w' where w': "iterate ?w1 = Some w'" "running ?w1 xs w'"
    using iterate_running[of ?w1 xs] assms by auto
  have "time_in_secs (get_time ?t) = secs_of cycle (reads t) 0"
    by (simp add: secs_of_def get_time_def start_time_def stop_time_def MYTIMEDIFF_def)
  then have "calibrate cycle w t 0 = calibrate cycle w' ?t (secs_of cycle (reads t) 0)"
    using w'(1) by (subst calibrate.simps) (simp add: Let_def)
  moreover have "r_iterations w' = r_iterations w * 10" "r_seed3 w' = r_seed3 w"
    using inputs_fields[of w' ?w1] w'(2) by (simp_all add: running_def)
  moreover have "inputs (w'\<lparr>r_iterations := 0\<rparr>) = inputs (w\<lparr>r_iterations := 0\<rparr>)"
    using w'(2) by (simp add: running_def inputs_iterations)
  ultimately show ?thesis
    using w'(2) by (intro exI[of _ w'] exI[of _ ?t]) (simp add: running_def start_time_def stop_time_def)
qed

lemma calibrate_returns:
  assumes "list_ready w xs" "bench_ready w" "0 < sint (r_seed3 w)"
    "\<forall>j < k. secs_of cycle (reads t) j = 0" "secs_of cycle (reads t) k \<noteq> 0"
  shows "\<exists>w' t'. calibrate cycle w t 0 = Some (w', t', secs_of cycle (reads t) k)
    \<and> list_ready w' xs \<and> bench_ready w' \<and> r_iterations w' = r_iterations w * 10 ^ Suc k
    \<and> inputs (w'\<lparr>r_iterations := 0\<rparr>) = inputs (w\<lparr>r_iterations := 0\<rparr>)"
  using assms
proof (induction k arbitrary: w t)
  case (0 w t)
  obtain w' t' where w': "calibrate cycle w t 0 = calibrate cycle w' t' (secs_of cycle (reads t) 0)"
    "list_ready w' xs" "bench_ready w'" "r_iterations w' = r_iterations w * 10"
    "inputs (w'\<lparr>r_iterations := 0\<rparr>) = inputs (w\<lparr>r_iterations := 0\<rparr>)"
    using calibrate_turn[OF 0(1-3)] by blast
  moreover have "calibrate cycle w' t' (secs_of cycle (reads t) 0) = Some (w', t', secs_of cycle (reads t) 0)"
    using 0(5) by (subst calibrate.simps) simp
  ultimately show ?case by auto
next
  case (Suc k w t)
  have "secs_of cycle (reads t) 0 = 0" using Suc.prems(4) by simp
  then obtain w' t' where w': "calibrate cycle w t 0 = calibrate cycle w' t' 0"
    "list_ready w' xs" "bench_ready w'" "r_iterations w' = r_iterations w * 10" "r_seed3 w' = r_seed3 w"
    "inputs (w'\<lparr>r_iterations := 0\<rparr>) = inputs (w\<lparr>r_iterations := 0\<rparr>)" "reads t' = reads t + 2"
    using calibrate_turn[OF Suc.prems(1-3), of cycle t] by auto
  have shift: "secs_of cycle (reads t') j = secs_of cycle (reads t) (Suc j)" for j
    by (simp add: secs_of_def w'(7))
  have "\<exists>w2 t2. calibrate cycle w' t' 0 = Some (w2, t2, secs_of cycle (reads t') k)
    \<and> list_ready w2 xs \<and> bench_ready w2 \<and> r_iterations w2 = r_iterations w' * 10 ^ Suc k
    \<and> inputs (w2\<lparr>r_iterations := 0\<rparr>) = inputs (w'\<lparr>r_iterations := 0\<rparr>)"
  proof (rule Suc.IH)
    show "0 < sint (r_seed3 w')" using Suc.prems(3) w'(5) by simp
    show "\<forall>j<k. secs_of cycle (reads t') j = 0" "secs_of cycle (reads t') k \<noteq> 0"
      unfolding shift using Suc.prems(4,5) by auto
  qed (use w' in simp_all)
  then show ?case using w'(1,4,6) unfolding shift by (auto simp: mult.assoc)
qed

text \<open>C17: When no number of iterations is given the calibration ends as soon as one of its runs takes a
  second by the clock, the \<open>k\<close>-th after \<open>10 ^ (k + 1)\<close> iterations, and sets the number such that the
  timed run takes about ten; the state is one that the timed run can start from.\<close>

theorem calibration_ends:
  assumes "list_ready w xs" "bench_ready w" "0 < sint (r_seed3 w)" "r_iterations w = 0"
    "\<forall>j < k. secs_of cycle (reads t) j = 0" "secs_of cycle (reads t) k \<noteq> 0"
  shows "\<exists>w' t'. set_iterations cycle w t = Some (w', t')
    \<and> r_iterations w' = 10 ^ Suc k * (1 + 10 div secs_of cycle (reads t) k)
    \<and> list_ready w' xs \<and> bench_ready w' \<and> inputs (w'\<lparr>r_iterations := 0\<rparr>) = inputs w"
proof -
  let ?w = "w\<lparr>r_iterations := 1\<rparr>"
  have w0: "w\<lparr>r_iterations := 0\<rparr> = w" using assms(4) by (cases w) simp
  obtain w' t' where "calibrate cycle ?w t 0 = Some (w', t', secs_of cycle (reads t) k)"
    "list_ready w' xs" "bench_ready w'" "r_iterations w' = 10 ^ Suc k"
    "inputs (w'\<lparr>r_iterations := 0\<rparr>) = inputs w"
    using calibrate_returns[of ?w xs k cycle t] assms w0 by auto
  then show ?thesis
    using assms(4,6) by (auto simp: set_iterations_def Let_def)
qed

theorem calibration_ends_witness:
  "\<exists>w' t'. set_iterations (\<lambda>n. if n = 3 then 2000000000 else 0) (demo\<lparr>r_iterations := 0\<rparr>)
      \<lparr>start_time_val = 0, stop_time_val = 0, reads = 0\<rparr> = Some (w', t')
    \<and> r_iterations w' = 10 ^ 2 * (1 + 10 div 2) \<and> list_ready w' [0, 1, 2]"
proof -
  let ?c = "\<lambda>n :: nat. if n = 3 then 2000000000 else 0 :: ee_u32"
  have "secs_of ?c 0 0 = 0" "secs_of ?c 0 1 = 2"
    by (simp_all add: secs_of_def time_in_secs_def EE_TICKS_PER_SEC_def NSECS_PER_SEC_def TIMER_RES_DIVIDER_def)
  then show ?thesis
    using calibration_ends[of "demo\<lparr>r_iterations := 0\<rparr>" "[0, 1, 2]" 1 ?c "\<lparr>start_time_val = 0, stop_time_val = 0, reads = 0\<rparr>"]
      demo_list demo_ready
    by (auto simp: numeral_2_eq_2)
qed

section \<open>Initialisation\<close>

lemma executes_all: "r_execs w = ALL_ALGORITHMS_MASK \<Longrightarrow> executes i w \<longleftrightarrow> i < 3"
proof -
  assume e: "r_execs w = ALL_ALGORITHMS_MASK"
  have m: "ALL_ALGORITHMS_MASK = (mask 3 :: ee_u32)"
    by (simp add: ALL_ALGORITHMS_MASK_def ID_LIST_def ID_MATRIX_def ID_STATE_def mask_eq_exp_minus_1)
  have "executes i w \<longleftrightarrow> bit (mask 3 :: ee_u32) i"
    by (simp add: executes_def e m bit_iff_and_push_bit_not_eq_0 and.commute)
  then show ?thesis by (auto simp: bit_mask_iff)
qed

lemma divide_size_all:
  "r_execs w = ALL_ALGORITHMS_MASK \<Longrightarrow> divide_size w = Some (w\<lparr>r_size := r_size w div 3\<rparr>)"
  by (simp add: divide_size_def num_algorithms_def executes_all NUM_ALGORITHMS_def upt_rec)

lemma assign_pointers_all:
  assumes "r_execs w = ALL_ALGORITHMS_MASK" "r_memblock w = [a, b, c, d]"
  shows "assign_pointers w = Some (w\<lparr>r_memblock := [a, a, a + r_size w, a + r_size w * 2]\<rparr>)"
  using assms by (simp add: assign_pointers_def executes_all NUM_ALGORITHMS_def eval_nat_numeral)

lemma static_memory_result:
  assumes "1 \<le> unat (r_size w)" "unat (r_size w) \<le> 2 ^ 31"
  shows "\<exists>n. static_memory w = Some (w\<lparr>heads := replicate (unat (r_size w) div 20 - 2) \<lparr>lh_next = None, lh_info = 0\<rparr>,
         datas := replicate (unat (r_size w) div 20 - 2) \<lparr>ld_data16 = 0, ld_idx = 0\<rparr>,
         mats := \<lparr>mat_A = replicate (n * n) 0, mat_B = replicate (n * n) 0, mat_C = replicate (n * n) 0\<rparr>,
         state_mem := replicate (unat (r_size w)) 0\<rparr>)
    \<and> dim_loop (r_size w) 0 0 = Some (of_nat (Suc n)) \<and> n \<le> 16384"
proof -
  obtain n where n: "dim_loop (r_size w) 0 0 = Some (of_nat (Suc n))" "n \<le> 16384"
    using dimension[OF assms] by auto
  have "unat (of_nat n :: ee_u32) = n" using n(2) by (intro unat_of_nat_32) simp
  then show ?thesis using n by (intro exI[of _ n]) (simp add: static_memory_def Let_def)
qed

lemma core_init_matrix_static:
  assumes "dim_loop blksize 0 0 = Some (of_nat (Suc n))" "n \<le> 16384"
    "length (mat_A m) = n * n" "length (mat_B m) = n * n" "length (mat_C m) = n * n"
  shows "\<exists>p m'. core_init_matrix blksize memblk seed m = Some (of_nat n, p, m')
    \<and> grid (p_N p) n \<and> fits n m'"
proof -
  have g: "grid (of_nat n) n" using dimension_grid[OF assms(2)] by simp
  show ?thesis
    using assms g init_fill[OF g, of "mat_A m" "mat_B m" "if seed = 0 then 1 else seed"]
    by (simp add: core_init_matrix_def Let_def fits_def del: of_nat_Suc add: of_nat_Suc [of n])
qed

lemma list_ready_blocks [simp]:
  "list_ready (w\<lparr>r_mat := p\<rparr>) xs = list_ready w xs" "list_ready (w\<lparr>mats := m\<rparr>) xs = list_ready w xs"
  "list_ready (w\<lparr>state_mem := b\<rparr>) xs = list_ready w xs"
  by (simp_all add: list_ready_def item_def items_in_def)

lemma all_algorithms_bits:
  "ALL_ALGORITHMS_MASK AND ID_LIST \<noteq> 0" "ALL_ALGORITHMS_MASK AND ID_MATRIX \<noteq> 0" "ALL_ALGORITHMS_MASK AND ID_STATE \<noteq> 0"
  by (simp_all add: ALL_ALGORITHMS_MASK_def ID_LIST_def ID_MATRIX_def ID_STATE_def)

text \<open>No byte of a state block becomes a comma under the seeds of the known runs.\<close>

lemma seeds_spare_commas:
  assumes "s = 0 \<or> s = 0x3415 \<or> s = (8 :: ee_s16)" "c \<in> set init_bytes" "c XOR ucast s = 44"
  shows "c = 44"
  using assms by (auto simp: init_bytes_def intpat_def floatpat_def scipat_def errpat_def)

lemma call_inits_ready:
  assumes w: "r_execs w = ALL_ALGORITHMS_MASK" "r_memblock w = [a, b, c, d]"
    and size: "120 \<le> unat (r_size w)" "unat (r_size w) \<le> 2 ^ 31"
    and seeds: "r_seed1 w = s" "r_seed2 w = s" "s = 0 \<or> s = 0x3415 \<or> s = 8"
    and idx: "distinct (0 # index_values (r_size w div 20 - 2) s (unat (r_size w) div 20 - 5) @ [0x7fff])"
    and blocks: "length (heads w) = unat (r_size w) div 20 - 2" "length (datas w) = unat (r_size w) div 20 - 2"
      "length (mat_A (mats w)) = n * n" "length (mat_B (mats w)) = n * n" "length (mat_C (mats w)) = n * n"
      "length (state_mem w) = unat (r_size w)"
    and dim: "dim_loop (r_size w) 0 0 = Some (of_nat (Suc n))" "n \<le> 16384"
  shows "\<exists>w' xs. call_inits w = Some w' \<and> list_ready w' xs \<and> bench_ready w' \<and> mset xs = mset [0..<unat (r_size w) div 20 - 3]
    \<and> r_seed1 w' = s \<and> r_seed2 w' = s \<and> r_seed3 w' = r_seed3 w \<and> r_size w' = r_size w \<and> r_execs w' = r_execs w
    \<and> r_iterations w' = r_iterations w \<and> r_err w' = r_err w"
proof -
  define k where "k = unat (r_size w) div 20 - 2"
  have "2 \<le> r_size w div 20" using size(1) by (simp add: word_le_nat_alt unat_div)
  then have k: "k = unat (r_size w div 20 - 2)" by (simp add: k_def unat_sub unat_div)
  have "k < 2 ^ 31" using size(2) by (simp add: k_def)
  moreover have "4 \<le> k" "k - 3 = unat (r_size w) div 20 - 5" "k - 1 = unat (r_size w) div 20 - 3"
    using size(1) by (simp_all add: k_def)
  ultimately obtain l w1 xs where l: "core_list_init (r_size w) (r_seed1 w) w = Some (l, w1)" "same_inputs w w1"
    "list_ready (w1\<lparr>r_list := l\<rparr>) xs" "mset xs = mset [0..<unat (r_size w) div 20 - 3]"
    using core_list_init_ready[OF k, of w s] idx blocks(1,2) seeds(1) k_def by auto
  have same: "r_execs w1 = r_execs w" "r_memblock w1 = r_memblock w" "mats w1 = mats w" "state_mem w1 = state_mem w"
    "r_seed1 w1 = r_seed1 w" "r_seed2 w1 = r_seed2 w" "r_seed3 w1 = r_seed3 w" "r_size w1 = r_size w"
    "r_iterations w1 = r_iterations w" "r_err w1 = r_err w"
    using l(2) by (cases w; cases w1; simp add: same_inputs_def)+
  obtain p m where m: "core_init_matrix (r_size w) c (scast s OR push_bit 16 (scast s)) (mats w) = Some (of_nat n, p, m)"
    "grid (p_N p) n" "fits n m"
    using core_init_matrix_static[OF dim, of "mats w"] blocks(3-5) by fastforce
  obtain mem where mem: "core_init_state (r_size w) s (state_mem w) = Some mem"
    using core_init_layout[of "r_size w" "state_mem w" s] size blocks(6) by auto
  have "terminated (r_size w) mem" "set mem \<subseteq> set init_bytes"
    using core_init_terminated[OF mem blocks(6)] core_init_bytes[OF mem blocks(6)] size by auto
  let ?w' = "w1\<lparr>r_list := l, r_mat := p, mats := m, state_mem := mem\<rparr>"
  have "call_inits w = Some ?w'"
    using l(1) m(1) mem w seeds(1,2) same all_algorithms_bits
    by (simp add: call_inits_def eval_nat_numeral)
  moreover have "bench_ready ?w'"
    using m(2,3) \<open>terminated (r_size w) mem\<close> \<open>set mem \<subseteq> set init_bytes\<close> seeds same seeds_spare_commas[OF seeds(3)]
    by (auto simp: bench_ready_def)
  moreover have "list_ready ?w' xs" using l(3) by simp
  ultimately show ?thesis using l(4) same seeds by (intro exI[of _ ?w'] exI[of _ xs]) simp
qed

lemma data_init_ready:
  assumes w: "r_execs w = ALL_ALGORITHMS_MASK" "r_memblock w = [a, b, c, d]" "r_size w div 3 = sz"
    and size: "120 \<le> unat sz" "unat sz \<le> 2 ^ 31"
    and seeds: "r_seed1 w = s" "r_seed2 w = s" "s = 0 \<or> s = 0x3415 \<or> s = 8"
    and idx: "distinct (0 # index_values (sz div 20 - 2) s (unat sz div 20 - 5) @ [0x7fff])"
  shows "\<exists>w' xs. data_init w = Some w' \<and> list_ready w' xs \<and> bench_ready w' \<and> mset xs = mset [0..<unat sz div 20 - 3]
    \<and> r_seed1 w' = s \<and> r_seed2 w' = s \<and> r_seed3 w' = r_seed3 w \<and> r_size w' = sz \<and> r_execs w' = r_execs w
    \<and> r_iterations w' = r_iterations w \<and> r_err w' = r_err w"
proof -
  let ?w2 = "w\<lparr>r_size := sz, r_memblock := [a, a, a + sz, a + sz * 2]\<rparr>"
  have "1 \<le> unat sz" using size by simp
  then obtain n where n: "static_memory ?w2 = Some (?w2\<lparr>heads := replicate (unat sz div 20 - 2) \<lparr>lh_next = None, lh_info = 0\<rparr>,
         datas := replicate (unat sz div 20 - 2) \<lparr>ld_data16 = 0, ld_idx = 0\<rparr>,
         mats := \<lparr>mat_A = replicate (n * n) 0, mat_B = replicate (n * n) 0, mat_C = replicate (n * n) 0\<rparr>,
         state_mem := replicate (unat sz) 0\<rparr>)" (is "_ = Some ?w3")
    "dim_loop sz 0 0 = Some (of_nat (Suc n))" "n \<le> 16384"
    using static_memory_result[of ?w2] size(2) by auto
  have "data_init w = call_inits ?w3"
    using divide_size_all[OF w(1)] assign_pointers_all[of "w\<lparr>r_size := sz\<rparr>"] w n(1)
    by (simp add: data_init_def)
  moreover have "\<exists>w' xs. call_inits ?w3 = Some w' \<and> list_ready w' xs \<and> bench_ready w' \<and> mset xs = mset [0..<unat (r_size ?w3) div 20 - 3]
    \<and> r_seed1 w' = s \<and> r_seed2 w' = s \<and> r_seed3 w' = r_seed3 ?w3 \<and> r_size w' = r_size ?w3 \<and> r_execs w' = r_execs ?w3
    \<and> r_iterations w' = r_iterations ?w3 \<and> r_err w' = r_err ?w3"
    by (rule call_inits_ready[where n = n and a = a and b = a and c = "a + sz" and d = "a + sz * 2"])
      (use w size seeds idx n in simp_all)
  ultimately show ?thesis by simp
qed

section \<open>The verdict\<close>

lemma check_crc_err: "check_crc what i e c kn err = (out, err') \<Longrightarrow> err' = err \<or> err' = err + 1"
  by (auto simp: check_crc_def split: if_splits)

lemma check_context_result:
  assumes "known_id < 5"
  shows "\<exists>out res'. check_context known_id i res = Some (out, res') \<and> r_err res' \<in> {0, 1, 2, 3}
    \<and> r_size res' = r_size res"
proof -
  obtain o1 e1 where 1: "check_crc ''list'' i (r_execs res AND ID_LIST \<noteq> 0) (r_crclist res) (list_known_crc ! known_id) 0 = (o1, e1)"
    by fastforce
  obtain o2 e2 where 2: "check_crc ''matrix'' i (r_execs res AND ID_MATRIX \<noteq> 0) (r_crcmatrix res) (matrix_known_crc ! known_id) e1 = (o2, e2)"
    by fastforce
  obtain o3 e3 where 3: "check_crc ''state'' i (r_execs res AND ID_STATE \<noteq> 0) (r_crcstate res) (state_known_crc ! known_id) e2 = (o3, e3)"
    by fastforce
  have len: "known_id < length list_known_crc" "known_id < length matrix_known_crc" "known_id < length state_known_crc"
    using assms by (simp_all add: list_known_crc_def matrix_known_crc_def state_known_crc_def)
  have "check_context known_id i res = Some (o1 @ o2 @ o3, res\<lparr>r_err := e3\<rparr>)"
    using len 1 2 3 by (simp add: check_context_def)
  moreover have "e3 \<in> {0, 1, 2, 3}"
    using check_crc_err[OF 1] check_crc_err[OF 2] check_crc_err[OF 3] by auto
  ultimately show ?thesis by simp
qed

lemma report_time_short:
  "report_time (res # results) ticks errs = Some (out, errs') \<Longrightarrow> errs' = errs + 1"
proof -
  have "time_in_secs ticks < 10"
    using time_in_secs_bound[of ticks] by (simp add: word_less_nat_alt)
  then show "report_time (res # results) ticks errs = Some (out, errs') \<Longrightarrow> errs' = errs + 1"
    by (auto simp: report_time_def Let_def)
qed

lemma report_parts:
  "\<exists>out. report_time (res # results) ticks errs = Some (out, errs + 1)"
  "\<exists>out. report_run rcfg (res # results) c = Some out"
proof -
  show "\<exists>out. report_run rcfg (res # results) c = Some out" by (simp add: report_run_def Let_def)
  have "report_time (res # results) ticks errs \<noteq> None"
    by (auto simp: report_time_def Let_def)
  then show "\<exists>out. report_time (res # results) ticks errs = Some (out, errs + 1)"
    using report_time_short by fastforce
qed

lemma known_run_cases:
  "known_run c = (out, k, errs) \<Longrightarrow> (k = - 1 \<and> errs = - 1) \<or> (0 \<le> k \<and> k < 5 \<and> errs = 0)"
  by (auto simp: known_run_def split: if_splits)

lemma check_and_report_known:
  assumes "known_run (seed_crc res) = (o1, k, 0)" "0 \<le> k" "check_data_types z = 0"
  shows "\<exists>out errs results. check_and_report rcfg z [res] ticks = Some (out, errs, results)
    \<and> 0 < sint errs \<and> last out = errors_detected"
proof -
  have "nat k < 5" using known_run_cases[OF assms(1)] by auto
  then obtain o2 res' where c: "check_context (nat k) 0 res = Some (o2, res')" "r_err res' \<in> {0, 1, 2, 3}"
    using check_context_result by blast
  obtain o3 where t: "report_time [res'] ticks (r_err res') = Some (o3, r_err res' + 1)"
    using report_parts(1) by blast
  obtain o4 where r: "report_run rcfg [res'] (seed_crc res) = Some o4" using report_parts(2) by blast
  have "check_and_report rcfg z [res] ticks
      = Some (o1 @ o2 @ o3 @ o4 @ verdict (r_err res' + 1), r_err res' + 1, [res'])"
    using assms c(1) t r by (simp add: check_and_report_def check_results_def Let_def)
  moreover have "0 < sint (r_err res' + 1)" using c(2) by auto
  moreover have "verdict (r_err res' + 1) = [errors_detected]"
    using c(2) by (auto simp: verdict_def)
  ultimately show ?thesis by simp
qed

section \<open>The known runs\<close>

lemma seed_crc_fields:
  "seed_crc w = crc16 (ucast (r_size w)) (crc16 (r_seed3 w) (crc16 (r_seed2 w) (crc16 (r_seed1 w) 0)))"
  by (simp add: seed_crc_def Let_def)

lemmas crc16_eval = crc16_def crcu16_def crcu8_unrolled lfsr_step_def bit_0

lemma known_crcs_0: "crc16 0 0 = 0" "crc16 0x66 0 = 41003" "crc16 2000 41003 = 0x8a02" "crc16 666 41003 = 0xe9f5"
  by (simp_all add: crc16_eval)

lemma known_crcs_3415:
  "crc16 0x3415 0 = 18191" "crc16 0x3415 18191 = 34122" "crc16 0x66 34122 = 25565"
  "crc16 2000 25565 = 0x7b05" "crc16 666 25565 = 0x18f2"
  by (simp_all add: crc16_eval)

lemma known_crcs_8: "crc16 8 0 = 49159" "crc16 8 49159 = 40965" "crc16 8 40965 = 59396" "crc16 400 59396 = 0x4eaf"
  by (simp_all add: crc16_eval)

lemmas known_crcs = known_crcs_0 known_crcs_3415 known_crcs_8

text \<open>On this port a run with known seeds is never validated: the seconds of the 32-bit timer never
  reach ten, so that even when every check sum is right the last line reports errors.\<close>

theorem known_run_rejected:
  assumes "known_run (seed_crc res) = (o1, known_id, errs0)" "0 \<le> known_id" "check_data_types z = 0"
  shows "\<exists>out errs results. check_and_report rcfg z [res] ticks = Some (out, errs, results)
    \<and> 0 < sint errs \<and> last out = errors_detected"
  using check_and_report_known[of res o1 known_id z rcfg ticks] known_run_cases[OF assms(1)] assms by auto

definition right_sizes :: type_sizes where
  "right_sizes = \<lparr>sz_u8 = 1, sz_u16 = 2, sz_s16 = 2, sz_s32 = 4, sz_u32 = 4, sz_ptr_int = 4, sz_ptr = 4\<rparr>"

lemma right_sizes_check: "check_data_types right_sizes = 0"
  by (simp add: check_data_types_def right_sizes_def Let_def)

theorem known_run_rejected_witness:
  "\<exists>out errs results. check_and_report \<lparr>COMPILER_VERSION = [], COMPILER_FLAGS = [], MEM_LOCATION = [], PARALLEL_METHOD = None\<rparr>
      right_sizes [demo\<lparr>r_seed1 := 0, r_seed2 := 0, r_seed3 := 0x66, r_size := 666\<rparr>] 7 = Some (out, errs, results)
    \<and> 0 < sint errs \<and> last out = errors_detected"
proof -
  have "seed_crc (demo\<lparr>r_seed1 := 0, r_seed2 := 0, r_seed3 := 0x66, r_size := 666\<rparr>) = 0xe9f5"
    by (simp add: seed_crc_fields known_crcs)
  then show ?thesis
    by (intro known_run_rejected[where known_id = 3] right_sizes_check) (auto simp: known_run_def)
qed

text \<open>C10: Seeds that are not known, which should give the message that the operation cannot be
  validated, are reported as validated: the count of errors starts at minus one, and the error of
  the short run brings it to zero.\<close>

theorem unknown_seeds_validated:
  assumes "known_run (seed_crc res) = (o1, - 1, errs0)" "check_data_types z = 0"
  shows "\<exists>out results. check_and_report rcfg z [res] ticks = Some (out, 0, results) \<and> last out = validated"
proof -
  have e: "errs0 = - 1" using known_run_cases[OF assms(1)] by auto
  obtain o3 where t: "report_time [res] ticks (- 1) = Some (o3, - 1 + 1)" using report_parts(1) by blast
  obtain o4 where r: "report_run rcfg [res] (seed_crc res) = Some o4" using report_parts(2) by blast
  have "check_and_report rcfg z [res] ticks = Some (o1 @ [] @ o3 @ o4 @ verdict 0, 0, [res])"
    using assms t r e by (simp add: check_and_report_def check_results_def Let_def)
  then show ?thesis by (simp add: verdict_def)
qed

theorem unknown_seeds_validated_witness:
  "\<exists>out results. check_and_report \<lparr>COMPILER_VERSION = [], COMPILER_FLAGS = [], MEM_LOCATION = [], PARALLEL_METHOD = None\<rparr>
      right_sizes [demo] 7 = Some (out, 0, results) \<and> last out = validated"
proof -
  have "seed_crc demo = 30723" by (simp add: seed_crc_fields demo_def crc16_eval)
  then have "known_run (seed_crc demo) = ([], - 1, - 1)" by (simp add: known_run_def)
  then show ?thesis using unknown_seeds_validated right_sizes_check by blast
qed

text \<open>The switch recognises the five known runs by their seeds and size, and no two of them collide.\<close>

theorem known_seeds_recognised:
  "snd (known_run (seed_crc (w\<lparr>r_seed1 := 0, r_seed2 := 0, r_seed3 := 0x66, r_size := 2000\<rparr>))) = (0, 0)
   \<and> snd (known_run (seed_crc (w\<lparr>r_seed1 := 0x3415, r_seed2 := 0x3415, r_seed3 := 0x66, r_size := 2000\<rparr>))) = (1, 0)
   \<and> snd (known_run (seed_crc (w\<lparr>r_seed1 := 8, r_seed2 := 8, r_seed3 := 8, r_size := 400\<rparr>))) = (2, 0)
   \<and> snd (known_run (seed_crc (w\<lparr>r_seed1 := 0, r_seed2 := 0, r_seed3 := 0x66, r_size := 666\<rparr>))) = (3, 0)
   \<and> snd (known_run (seed_crc (w\<lparr>r_seed1 := 0x3415, r_seed2 := 0x3415, r_seed3 := 0x66, r_size := 666\<rparr>))) = (4, 0)"
  by (simp_all add: seed_crc_fields known_crcs known_run_def)

lemmas index_eval = index_values_def upt_rec item_idx_def Let_def

lemma known_indices_666_0: "distinct (0 # index_values (666 div 20 - 2) 0 28 @ [0x7fff])"
  by (simp add: index_eval)

lemma known_indices_666_3415: "distinct (0 # index_values (666 div 20 - 2) 0x3415 28 @ [0x7fff])"
  by (simp add: index_eval)

lemma known_indices_400: "distinct (0 # index_values (400 div 20 - 2) 8 15 @ [0x7fff])"
  by (simp add: index_eval)

text \<open>The seeds and the size of the known runs that the port is configured for.\<close>

definition port_run :: "run_type \<Rightarrow> ee_u32 \<Rightarrow> bool" where
  "port_run r tsize \<longleftrightarrow> (tsize = 2000 \<and> (r = VALIDATION_RUN \<or> r = PERFORMANCE_RUN)) \<or> (tsize = 1200 \<and> r = PROFILE_RUN)"

lemma init_known:
  assumes "r_execs w0 = ALL_ALGORITHMS_MASK" "r_memblock w0 = [a, b, c, d]" "r_size w0 div 3 = sz"
    "120 \<le> unat sz" "unat sz \<le> 2 ^ 31" "r_seed1 w0 = s" "r_seed2 w0 = s" "s = 0 \<or> s = 0x3415 \<or> s = 8"
    "distinct (0 # index_values (sz div 20 - 2) s (unat sz div 20 - 5) @ [0x7fff])"
    "0 < sint (r_seed3 w0)" "0 \<le> k"
    "snd (known_run (crc16 (ucast sz) (crc16 (r_seed3 w0) (crc16 s (crc16 s 0))))) = (k, 0)"
  shows "\<exists>w xs o1 k. data_init w0 = Some w \<and> list_ready w xs \<and> bench_ready w \<and> 0 < sint (r_seed3 w)
    \<and> r_iterations w = r_iterations w0 \<and> known_run (seed_crc w) = (o1, k, 0) \<and> 0 \<le> k \<and> mset xs = mset [0..<unat (r_size w) div 20 - 3]"
proof -
  obtain w xs where w: "data_init w0 = Some w" "list_ready w xs" "bench_ready w" "r_seed1 w = s" "r_seed2 w = s"
    "r_seed3 w = r_seed3 w0" "r_size w = sz" "r_iterations w = r_iterations w0"
    "mset xs = mset [0..<unat sz div 20 - 3]"
    using data_init_ready[OF assms(1-9)] by blast
  then have "snd (known_run (seed_crc w)) = (k, 0)" using assms(12) by (simp add: seed_crc_fields)
  then obtain o1 where "known_run (seed_crc w) = (o1, k, 0)" by (metis prod.collapse)
  then show ?thesis using w assms(10,11) by (intro exI[of _ w] exI[of _ xs] exI[of _ o1] exI[of _ k]) simp
qed

lemma port_run_init:
  assumes "port_run r tsize"
  shows "\<exists>w xs o1 k. data_init (read_seeds (run_seeds r it) (initial_results base tsize)) = Some w
    \<and> list_ready w xs \<and> bench_ready w \<and> 0 < sint (r_seed3 w) \<and> r_iterations w = it
    \<and> known_run (seed_crc w) = (o1, k, 0) \<and> 0 \<le> k \<and> mset xs = mset [0..<unat (r_size w) div 20 - 3]"
proof -
  define w0 where "w0 = read_seeds (run_seeds r it) (initial_results base tsize)"
  have w0: "r_execs w0 = ALL_ALGORITHMS_MASK" "r_memblock w0 = [base, 0, 0, 0]" "r_size w0 = tsize" "r_iterations w0 = it"
    "r_seed1 w0 = (case r of VALIDATION_RUN \<Rightarrow> 0x3415 | PERFORMANCE_RUN \<Rightarrow> 0 | PROFILE_RUN \<Rightarrow> 8)"
    "r_seed2 w0 = (case r of VALIDATION_RUN \<Rightarrow> 0x3415 | PERFORMANCE_RUN \<Rightarrow> 0 | PROFILE_RUN \<Rightarrow> 8)"
    "r_seed3 w0 = (case r of VALIDATION_RUN \<Rightarrow> 0x66 | PERFORMANCE_RUN \<Rightarrow> 0x66 | PROFILE_RUN \<Rightarrow> 8)"
    by (cases r; simp add: w0_def read_seeds_def run_seeds_def default_seeds_def initial_results_def get_seed_def
        get_seed_32_def Let_def)+
  have "\<exists>w xs o1 k. data_init w0 = Some w \<and> list_ready w xs \<and> bench_ready w \<and> 0 < sint (r_seed3 w)
    \<and> r_iterations w = r_iterations w0 \<and> known_run (seed_crc w) = (o1, k, 0) \<and> 0 \<le> k \<and> mset xs = mset [0..<unat (r_size w) div 20 - 3]"
  proof (cases r)
    case VALIDATION_RUN
    then have "tsize = 2000" using assms by (simp add: port_run_def)
    then show ?thesis
      using w0 VALIDATION_RUN known_indices_666_3415
      by (intro init_known[where sz = 666 and s = "0x3415" and k = 4 and a = base and b = 0 and c = 0 and d = 0])
        (simp_all add: known_crcs known_run_def)
  next
    case PERFORMANCE_RUN
    then have "tsize = 2000" using assms by (simp add: port_run_def)
    then show ?thesis
      using w0 PERFORMANCE_RUN known_indices_666_0
      by (intro init_known[where sz = 666 and s = 0 and k = 3 and a = base and b = 0 and c = 0 and d = 0])
        (simp_all add: known_crcs known_run_def)
  next
    case PROFILE_RUN
    then have "tsize = 1200" using assms by (simp add: port_run_def)
    then show ?thesis
      using w0 PROFILE_RUN known_indices_400
      by (intro init_known[where sz = 400 and s = 8 and k = 2 and a = base and b = 0 and c = 0 and d = 0])
        (simp_all add: known_crcs known_run_def)
  qed
  then show ?thesis using w0(4) by (simp add: w0_def)
qed



text \<open>C2: With the seeds and the size of its run types the whole program returns, for every number of
  iterations that is given and whatever the clock shows: the initialisation of the list, the
  matrices and the state block stays in its memory, every iteration finds the list as the first
  one did, and the verdict is printed, which on this port is that of errors.\<close>

theorem core_main_returns:
  assumes "port_run r tsize" "it \<noteq> 0" "sizes cfg = right_sizes" "MULTITHREAD cfg = 1" "sizeof_list_head \<le> 128"
  shows "\<exists>out results p. core_main cfg rcfg sizeof_list_head cycle (run_seeds r it) base tsize = Some (out, 0, results, p)
    \<and> last out = errors_detected \<and> portable_id p = 0"
proof -
  obtain w xs o1 k where w: "data_init (read_seeds (run_seeds r it) (initial_results base tsize)) = Some w"
    "list_ready w xs" "bench_ready w" "0 < sint (r_seed3 w)" "r_iterations w = it"
    "known_run (seed_crc w) = (o1, k, 0)" "0 \<le> k"
    using port_run_init[OF assms(1)] by blast
  let ?t = "\<lparr>start_time_val = 0, stop_time_val = 0, reads = 0\<rparr>"
  have s: "set_iterations cycle w ?t = Some (w, ?t)" using w(5) assms(2) by (simp add: set_iterations_def)
  obtain w' where w': "iterate w = Some w'" "running w xs w'" using iterate_running[OF w(2-4)] by blast
  have "seed_crc w' = seed_crc w"
    using w'(2) inputs_fields[of w' w] by (simp add: running_def seed_crc_fields)
  then obtain out errs results where c: "check_and_report rcfg right_sizes [w']
      (get_time (stop_time cycle (start_time cycle ?t))) = Some (out, errs, results)" "last out = errors_detected"
    using check_and_report_known[of w' o1 k right_sizes rcfg] w(6,7) right_sizes_check by fastforce
  have "out \<noteq> []"
  proof
    assume "out = []"
    with c(1) show False
      by (auto simp: check_and_report_def report_run_def report_contexts_def Let_def bind_eq_Some_conv split: prod.splits)
  qed
  moreover obtain out0 argc argv where "portable_init cfg 0 [[]] \<lparr>portable_id = 0, default_num_contexts = 1\<rparr>
      = Some (out0, argc, argv, \<lparr>portable_id = 1, default_num_contexts = 1\<rparr>)"
    using assms(4) by (auto simp: portable_init_def Let_def)
  ultimately show ?thesis
    using w(1) s w'(1) c assms(3,5) by (simp add: core_main_def Let_def portable_fini_def)
qed

theorem core_main_returns_witness:
  "\<exists>out results p. core_main \<lparr>PRINT_ARGS = False, MAIN_HAS_NOARGC = True, SEED_METHOD_ARG = False, MULTITHREAD = 1, sizes = right_sizes\<rparr>
      \<lparr>COMPILER_VERSION = [], COMPILER_FLAGS = [], MEM_LOCATION = [], PARALLEL_METHOD = None\<rparr> 8 (\<lambda>n. of_nat n)
      (run_seeds (default_run 2000) 1) 0x1000 2000 = Some (out, 0, results, p)
    \<and> last out = errors_detected \<and> portable_id p = 0"
  by (rule core_main_returns) (simp_all add: port_run_def default_run_def)

section \<open>Selections of algorithms that the program cannot run\<close>

lemma bench_list_null: "r_list w = None \<Longrightarrow> core_bench_list w 1 = None"
proof (cases "nat (sint (r_seed3 w))")
  case 0
  moreover assume "r_list w = None"
  moreover have "core_list_mergesort None cmp_complex w = None"
    by (simp add: core_list_mergesort_def sort_loop.simps pass_loop.simps set_next_def)
  ultimately show ?thesis by (simp add: core_bench_list_def Let_def)
next
  case (Suc n)
  moreover assume l: "r_list w = None"
  moreover have "find_step 0 (\<lparr>fv_idx = 1, fv_data16 = None, fv_list = None, fv_found = 0, fv_missed = 0, fv_retval = 0\<rparr>, w) = None"
    by (simp add: find_step_def core_list_find_def find_idx.simps core_list_reverse_def reverse_loop.simps get_next_def Let_def)
  ultimately show ?thesis by (simp add: core_bench_list_def)
qed

lemma assign_pointers_fields:
  assumes "assign_pointers w = Some w'"
  shows "r_list w' = r_list w \<and> r_iterations w' = r_iterations w \<and> r_execs w' = r_execs w"
proof -
  obtain j where loop: "for_count (\<lambda>i (j, res).
           if executes i res then do {
             base \<leftarrow> rd (r_memblock res) 0;
             blk \<leftarrow> wr (r_memblock res) (i + 1) (base + r_size res * of_nat j);
             Some (j + 1, res\<lparr>r_memblock := blk\<rparr>)
           }
           else Some (j, res)) 0 NUM_ALGORITHMS (0, w) = Some (j, w')"
    using assms by (auto simp: assign_pointers_def bind_eq_Some_conv)
  let ?P = "\<lambda>s. r_list (snd s) = r_list w \<and> r_iterations (snd s) = r_iterations w \<and> r_execs (snd s) = r_execs w"
  have "?P (j, w')"
  proof (rule for_count_preserves[OF loop])
    fix i s s'
    assume step: "(case s of (j, res) \<Rightarrow> if executes i res then do {
             base \<leftarrow> rd (r_memblock res) 0;
             blk \<leftarrow> wr (r_memblock res) (i + 1) (base + r_size res * of_nat j);
             Some (j + 1, res\<lparr>r_memblock := blk\<rparr>)
           }
           else Some (j, res)) = Some s'" and P: "?P s"
    obtain k res where s: "s = (k, res)" by fastforce
    have "s' = s \<or> (\<exists>blk. snd s' = res\<lparr>r_memblock := blk\<rparr>)"
      using step by (cases "executes i res") (auto simp: s bind_eq_Some_conv)
    then show "?P s'" using P by (auto simp: s)
  qed simp
  then show ?thesis by simp
qed

lemma call_inits_without_list:
  assumes "r_execs w AND ID_LIST = 0" "call_inits w = Some w'"
  shows "r_list w' = r_list w \<and> r_iterations w' = r_iterations w"
proof -
  obtain w2 where m: "(if r_execs w AND ID_MATRIX \<noteq> 0 then do {
                  blk \<leftarrow> rd (r_memblock w) 2;
                  (N, p, m) \<leftarrow> core_init_matrix (r_size w) blk
                    (scast (r_seed1 w) OR push_bit 16 (scast (r_seed2 w))) (mats w);
                  Some (w\<lparr>r_mat := p, mats := m\<rparr>)
                } else Some w) = Some w2"
    and s: "(if r_execs w2 AND ID_STATE \<noteq> 0 then do {
          mem \<leftarrow> core_init_state (r_size w2) (r_seed1 w2) (state_mem w2);
          Some (w2\<lparr>state_mem := mem\<rparr>)
        } else Some w2) = Some w'"
    using assms by (simp add: call_inits_def bind_eq_Some_conv[of _ _ w']) blast
  have "r_list w2 = r_list w \<and> r_iterations w2 = r_iterations w"
    using m by (cases "r_execs w AND ID_MATRIX \<noteq> 0") (auto simp: bind_eq_Some_conv)
  moreover have "r_list w' = r_list w2 \<and> r_iterations w' = r_iterations w2"
    using s by (cases "r_execs w2 AND ID_STATE \<noteq> 0") (auto simp: bind_eq_Some_conv)
  ultimately show ?thesis by simp
qed

lemma data_init_without_list:
  assumes "r_execs w AND ID_LIST = 0" "data_init w = Some w'"
  shows "r_list w' = r_list w \<and> r_iterations w' = r_iterations w"
proof -
  obtain w1 w2 w3 where w: "divide_size w = Some w1" "assign_pointers w1 = Some w2" "static_memory w2 = Some w3"
    "call_inits w3 = Some w'"
    using assms(2) by (auto simp: data_init_def bind_eq_Some_conv)
  have "r_list w1 = r_list w \<and> r_iterations w1 = r_iterations w \<and> r_execs w1 = r_execs w"
    using w(1) by (auto simp: divide_size_def split: if_splits)
  moreover have "r_list w3 = r_list w2 \<and> r_iterations w3 = r_iterations w2 \<and> r_execs w3 = r_execs w2"
    using w(3) by (auto simp: static_memory_def Let_def bind_eq_Some_conv)
  moreover have "r_list w' = r_list w3 \<and> r_iterations w' = r_iterations w3" if "r_execs w3 AND ID_LIST = 0"
    using call_inits_without_list[OF that w(4)] .
  ultimately show ?thesis using assign_pointers_fields[OF w(2)] assms(1) by simp
qed

text \<open>C40: A selection of algorithms without any of the three divides the memory by zero, and a selection
  without the list leaves the pointer to the list unset, which the first iteration follows: the
  run is undefined for every selection without the list.\<close>

theorem selection_needs_list:
  assumes "r_execs w AND ID_LIST = 0" "r_list w = None" "r_iterations w \<noteq> 0"
  shows "(if num_algorithms w = 0 then data_init w = None else True) \<and> data_init w \<bind> iterate = None"
proof -
  have "iterate w' = None" if "data_init w = Some w'" for w'
  proof -
    let ?w = "w'\<lparr>r_crc := 0, r_crclist := 0, r_crcmatrix := 0, r_crcstate := 0\<rparr>"
    have w': "r_list w' = None" "r_iterations w' \<noteq> 0"
      using data_init_without_list[OF assms(1) that] assms(2,3) by simp_all
    obtain n where "unat (r_iterations w') = Suc n"
      using w'(2) by (cases "unat (r_iterations w')") (simp_all add: unat_eq_0)
    moreover have "iterate_step 0 ?w = None" using w'(1) bench_list_null[of ?w] by (simp add: iterate_step_def)
    ultimately show ?thesis by (simp add: iterate_def)
  qed
  then show ?thesis by (cases "data_init w") (auto simp: data_init_def divide_size_def)
qed

theorem selection_needs_list_witness:
  "data_init ((initial_results 0x1000 2000)\<lparr>r_execs := ID_MATRIX, r_iterations := 1\<rparr>) \<bind> iterate = None"
  using selection_needs_list[of "(initial_results 0x1000 2000)\<lparr>r_execs := ID_MATRIX, r_iterations := 1\<rparr>"]
  by (simp add: initial_results_def ID_MATRIX_def ID_LIST_def)

end
