(* ===== verification/Core_Contexts.thy ===== *)
theory Core_Contexts
  imports Core_Main_Props
begin

text \<open>
  \<open>core_main.c\<close> in its configurations with several contexts: the blocks of memory from the heap or from
  the stack, the layout for every context, and the run of the contexts in child processes.  The
  contexts are a list of results structures, of which the first holds the seeds and the selection.
  What a fresh block contains is a parameter.
\<close>

section \<open>Blocks of memory\<close>

text \<open>The members that every context takes from the first one.\<close>

definition copy_seeds :: "core_results \<Rightarrow> core_results \<Rightarrow> core_results" where
  "copy_seeds r0 r = r\<lparr>r_seed1 := r_seed1 r0, r_seed2 := r_seed2 r0, r_seed3 := r_seed3 r0, r_err := 0, r_execs := r_execs r0\<rparr>"

text \<open>\<open>malloc i\<close> is what the \<open>i\<close>-th call of the allocator does, \<open>seed7\<close> the seventh seed, which the macro
  \<open>get_seed\<close> narrows.\<close>

definition malloc_context :: "ee_s32 \<Rightarrow> (nat \<Rightarrow> (ee_u32 \<Rightarrow> nat option) option) \<Rightarrow> ee_u32 \<Rightarrow> core_results
    \<Rightarrow> nat \<Rightarrow> core_results \<Rightarrow> core_results option" where
  "malloc_context seed7 malloc total_data_size r0 i r =
     do {
       let malloc_override = (scast (ucast seed7 :: ee_s16) :: ee_s32);
       let sz = (if malloc_override \<noteq> 0 then malloc_override else total_data_size);
       let p = (case portable_malloc (malloc i) sz of Some a \<Rightarrow> of_nat a | None \<Rightarrow> 0);
       blk \<leftarrow> wr (r_memblock r) 0 p;
       Some (copy_seeds r0 (r\<lparr>r_size := sz, r_memblock := blk\<rparr>))
     }"

definition stack_context :: "ee_u32 \<Rightarrow> ee_u32 \<Rightarrow> core_results \<Rightarrow> nat \<Rightarrow> core_results \<Rightarrow> core_results option" where
  "stack_context stack_memblock total_data_size r0 i r =
     do {
       blk \<leftarrow> wr (r_memblock r) 0 (stack_memblock + of_nat i * total_data_size);
       Some (copy_seeds r0 (r\<lparr>r_size := total_data_size, r_memblock := blk\<rparr>))
     }"

text \<open>A step for every context, with its number.\<close>

definition for_contexts :: "(nat \<Rightarrow> core_results \<Rightarrow> core_results option) \<Rightarrow> core_results list \<Rightarrow> core_results list option" where
  "for_contexts f results = those (map (\<lambda>(i, r). f i r) (enumerate 0 results))"

section \<open>Layout\<close>

definition divide_sizes :: "core_results list \<Rightarrow> core_results list option" where
  "divide_sizes results =
     do {
       r0 \<leftarrow> rd results 0;
       if num_algorithms r0 = 0 then None
       else Some (map (\<lambda>r. r\<lparr>r_size := r_size r div of_nat (num_algorithms r0)\<rparr>) results)
     }"

definition assign_all_pointers :: "core_results list \<Rightarrow> core_results list option" where
  "assign_all_pointers results =
     do {
       (j, results') \<leftarrow> for_count (\<lambda>i (j, results). do {
           r0 \<leftarrow> rd results 0;
           if executes i r0 then do {
             results' \<leftarrow> for_contexts (\<lambda>ctx r. do {
                 base \<leftarrow> rd (r_memblock r) 0;
                 blk \<leftarrow> wr (r_memblock r) (i + 1) (base + r_size r0 * of_nat j);
                 Some (r\<lparr>r_memblock := blk\<rparr>)
               }) results;
             Some (j + 1, results')
           }
           else Some (j, results)
         }) 0 NUM_ALGORITHMS (0, results);
       Some results'
     }"

section \<open>Running\<close>

text \<open>
  The two loops of the parallel run: every context takes the number of iterations and the selection
  of the first and is started, then every context is stopped.  \<open>os i\<close> are the results of the system
  calls for context \<open>i\<close>.
\<close>

definition prepare_context :: "core_results \<Rightarrow> core_results \<Rightarrow> core_results" where
  "prepare_context r0 r = r\<lparr>r_iterations := r_iterations r0, r_execs := r_execs r0\<rparr>"

primrec start_contexts :: "(nat \<Rightarrow> os_calls) \<Rightarrow> core_results \<Rightarrow> nat \<Rightarrow> core_results list
    \<Rightarrow> (print_call list \<times> (core_results \<times> ee_u16 list) list) option" where
  "start_contexts os r0 i [] = Some ([], [])"
| "start_contexts os r0 i (r # rs) =
     do {
       let r' = prepare_context r0 r;
       (b, out1, shm) \<leftarrow> core_start_parallel_fork (os i) iterate r';
       (out2, started) \<leftarrow> start_contexts os r0 (i + 1) rs;
       Some (out1 @ out2, (r', shm) # started)
     }"

primrec stop_contexts :: "(nat \<Rightarrow> os_calls) \<Rightarrow> nat \<Rightarrow> (core_results \<times> ee_u16 list) list
    \<Rightarrow> (print_call list \<times> core_results list) option" where
  "stop_contexts os i [] = Some ([], [])"
| "stop_contexts os i (s # started) =
     do {
       (b, out1, r') \<leftarrow> core_stop_parallel_fork (os i) (snd s) (fst s);
       (out2, rs) \<leftarrow> stop_contexts os (i + 1) started;
       Some (out1 @ out2, r' # rs)
     }"

definition run_contexts :: "(nat \<Rightarrow> os_calls) \<Rightarrow> nat \<Rightarrow> nat \<Rightarrow> core_results list
    \<Rightarrow> (print_call list \<times> core_results list) option" where
  "run_contexts os multithread contexts results =
     do {
       let n = (if contexts > multithread then multithread else contexts);
       r0 \<leftarrow> rd results 0;
       if length results < n then None
       else do {
         (out1, started) \<leftarrow> start_contexts os r0 0 (take n results);
         (out2, stopped) \<leftarrow> stop_contexts os 0 started;
         Some (out1 @ out2, stopped @ drop n results)
       }
     }"

text \<open>For one context the layout is the one of \<open>Core_Main\<close>.\<close>

lemma for_contexts_one: "for_contexts f [r] = map_option (\<lambda>r'. [r']) (f 0 r)"
  by (cases "f 0 r") (simp_all add: for_contexts_def)

lemma one_context:
  "divide_sizes [r] = map_option (\<lambda>r'. [r']) (divide_size r)"
  "assign_all_pointers [r] = map_option (\<lambda>r'. [r']) (assign_pointers r)"
proof -
  show "divide_sizes [r] = map_option (\<lambda>r'. [r']) (divide_size r)"
    by (simp add: divide_sizes_def divide_size_def)
  have "for_count (\<lambda>i (j, results). do {
           r0 \<leftarrow> rd results 0;
           if executes i r0 then do {
             results' \<leftarrow> for_contexts (\<lambda>ctx r. do {
                 base \<leftarrow> rd (r_memblock r) 0;
                 blk \<leftarrow> wr (r_memblock r) (i + 1) (base + r_size r0 * of_nat j);
                 Some (r\<lparr>r_memblock := blk\<rparr>)
               }) results;
             Some (j + 1, results')
           }
           else Some (j, results)
         }) i n (j, [r])
      = map_option (\<lambda>(j, r). (j, [r])) (for_count (\<lambda>i (j, res).
           if executes i res then do {
             base \<leftarrow> rd (r_memblock res) 0;
             blk \<leftarrow> wr (r_memblock res) (i + 1) (base + r_size res * of_nat j);
             Some (j + 1, res\<lparr>r_memblock := blk\<rparr>)
           }
           else Some (j, res)) i n (j, r))" for i n j
    by (induction n arbitrary: i j r) (auto simp: for_contexts_one split: bind_split)
  then show "assign_all_pointers [r] = map_option (\<lambda>r'. [r']) (assign_pointers r)"
    by (auto simp: assign_all_pointers_def assign_pointers_def split: bind_split)
qed

section \<open>The parallel run\<close>

definition calls_succeed :: "os_calls \<Rightarrow> bool" where
  "calls_succeed os \<longleftrightarrow> 0 < os_fork os \<and> 0 \<le> os_shmget os \<and> os_child_shmat os \<and> os_waitpid os = os_fork os \<and> os_parent_shmat os"

lemma start_stop_contexts:
  assumes "\<And>k. k < length rs \<Longrightarrow> calls_succeed (os (i + k)) \<and> iterate (prepare_context r0 (rs ! k)) = Some (w k)"
  shows "\<exists>started. start_contexts os r0 i rs = Some ([], started)
    \<and> stop_contexts os i started = Some ([], map (\<lambda>k. with_sums (prepare_context r0 (rs ! k)) (w k)) [0..<length rs])"
  using assms
proof (induction rs arbitrary: i w)
  case Nil
  then show ?case by simp
next
  case (Cons r rs)
  have "calls_succeed (os i)" "iterate (prepare_context r0 r) = Some (w 0)" using Cons.prems[of 0] by simp_all
  then have first: "core_start_parallel_fork (os i) iterate (prepare_context r0 r) = Some (1, [], crc_bytes (w 0))"
    "core_stop_parallel_fork (os i) (crc_bytes (w 0)) (prepare_context r0 r) = Some (1, [], with_sums (prepare_context r0 r) (w 0))"
    by (simp_all add: calls_succeed_def core_start_parallel_fork_def core_stop_parallel_fork_def Let_def)
  obtain started where "start_contexts os r0 (Suc i) rs = Some ([], started)"
    "stop_contexts os (Suc i) started = Some ([], map (\<lambda>k. with_sums (prepare_context r0 (rs ! k)) (w (Suc k))) [0..<length rs])"
    using Cons.IH[of "Suc i" "\<lambda>k. w (Suc k)"] Cons.prems[of "Suc _"] by auto
  moreover have "[0..<length (r # rs)] = 0 # map Suc [0..<length rs]" by (simp add: map_Suc_upt upt_conv_Cons del: upt_Suc)
  ultimately show ?case using first by (simp add: Let_def comp_def del: upt_Suc)
qed

lemma prepare_context_same: "r_execs r = r_execs r0 \<Longrightarrow> prepare_context r0 r = r\<lparr>r_iterations := r_iterations r0\<rparr>"
  by (cases r) (simp add: prepare_context_def)

lemma run_contexts_ready:
  assumes "results \<noteq> []" "n = min contexts multithread" "n \<le> length results" "\<forall>k<n. calls_succeed (os k)"
    and "\<forall>k<n. list_ready (results ! k) (xs k) \<and> bench_ready (results ! k) \<and> 0 < sint (r_seed3 (results ! k))
      \<and> r_execs (results ! k) = r_execs (results ! 0)"
  shows "\<exists>w. (\<forall>k<n. iterate ((results ! k)\<lparr>r_iterations := r_iterations (results ! 0)\<rparr>) = Some (w k)
      \<and> list_ready (w k) (xs k))
    \<and> run_contexts os multithread contexts results = Some ([],
        map (\<lambda>k. with_sums ((results ! k)\<lparr>r_iterations := r_iterations (results ! 0)\<rparr>) (w k)) [0..<n] @ drop n results)"
proof -
  define it where "it = r_iterations (results ! 0)"
  define P where "P k w' \<longleftrightarrow> iterate ((results ! k)\<lparr>r_iterations := it\<rparr>) = Some w' \<and> list_ready w' (xs k)" for k w'
  have "\<exists>w'. P k w'" if "k < n" for k
    unfolding P_def using iterate_running[of "(results ! k)\<lparr>r_iterations := it\<rparr>" "xs k"] assms(5) that
    by (auto simp: running_def)
  then have "\<forall>k. \<exists>w'. k < n \<longrightarrow> P k w'" by blast
  then obtain w where "\<forall>k. k < n \<longrightarrow> P k (w k)" by metis
  then have w: "iterate ((results ! k)\<lparr>r_iterations := it\<rparr>) = Some (w k)" "list_ready (w k) (xs k)" if "k < n" for k
    using that by (simp_all add: P_def)
  have prepared: "prepare_context (results ! 0) (results ! k) = (results ! k)\<lparr>r_iterations := it\<rparr>" if "k < n" for k
    unfolding it_def by (rule prepare_context_same) (use assms(5) that in blast)
  have len: "length (take n results) = n" using assms(3) by simp
  have each: "calls_succeed (os (0 + k)) \<and> iterate (prepare_context (results ! 0) (take n results ! k)) = Some (w k)"
    if "k < length (take n results)" for k
  proof -
    have "k < n" using that len by simp
    moreover from this have "take n results ! k = results ! k" by simp
    ultimately show ?thesis using assms(4) w(1)[of k] prepared[of k] by (simp only: add_0 simp_thms)
  qed
  obtain started where run: "start_contexts os (results ! 0) 0 (take n results) = Some ([], started)"
    "stop_contexts os 0 started = Some ([], map (\<lambda>k. with_sums (prepare_context (results ! 0) (take n results ! k)) (w k)) [0..<n])"
    using start_stop_contexts[of "take n results" os 0 "results ! 0" w, OF each] unfolding len by blast
  have count: "(if contexts > multithread then multithread else contexts) = n" using assms(2) by simp
  have "map (\<lambda>k. with_sums (prepare_context (results ! 0) (take n results ! k)) (w k)) [0..<n]
      = map (\<lambda>k. with_sums ((results ! k)\<lparr>r_iterations := it\<rparr>) (w k)) [0..<n]"
    by (rule map_cong) (simp_all only: prepared nth_take set_upt atLeastLessThan_iff)
  then have "run_contexts os multithread contexts results
      = Some ([], map (\<lambda>k. with_sums ((results ! k)\<lparr>r_iterations := it\<rparr>) (w k)) [0..<n] @ drop n results)"
    unfolding run_contexts_def count Let_def using assms(1,3) run by simp
  then show ?thesis using w unfolding it_def by (intro exI[of _ w] conjI) simp_all
qed



end
