(* ===== verification/Cvt.thy ===== *)
theory Cvt
  imports Core_Util
begin

text \<open>
  \<open>barebones/cvt.c\<close>: the decimal digits of a double.  The arithmetic of doubles is a parameter, a
  record of the operations that the C code uses; the digits are written to a buffer of 80 bytes,
  whose pointers are indices.  A loop on doubles that does not end, a conversion to \<open>int\<close> out of
  range and an access outside the buffer are undefined (\<^term>\<open>None\<close>).
\<close>

section \<open>Doubles\<close>

text \<open>
  \<open>modf\<close> returns the fraction and the integral part; \<open>c03\<close> is the literal \<open>.03\<close>; \<open>local80\<close> is what a
  local array of 80 characters holds before it is written.
\<close>

record 'd float_ops =
  dless :: "'d \<Rightarrow> 'd \<Rightarrow> bool"
  deq :: "'d \<Rightarrow> 'd \<Rightarrow> bool"
  dneg :: "'d \<Rightarrow> 'd"
  dadd :: "'d \<Rightarrow> 'd \<Rightarrow> 'd"
  dmul :: "'d \<Rightarrow> 'd \<Rightarrow> 'd"
  ddiv :: "'d \<Rightarrow> 'd \<Rightarrow> 'd"
  modf :: "'d \<Rightarrow> 'd \<times> 'd"
  trunc :: "'d \<Rightarrow> int"
  zero :: 'd
  one :: 'd
  ten :: 'd
  c03 :: 'd
  local80 :: "ee_u8 list"

definition CVTBUFSIZE :: int where "CVTBUFSIZE = 80"

section \<open>Digits\<close>

text \<open>The digit \<open>(int) x + '0'\<close> as a character.\<close>

definition cvt_char :: "int \<Rightarrow> ee_u8 option" where
  "cvt_char x = do { n \<leftarrow> int32 x; s \<leftarrow> int32 (n + 48); Some (word_of_int s) }"

text \<open>The integral part, last digit first, from the end of the buffer downwards.\<close>

partial_function (option) int_digits ::
  "'d float_ops \<Rightarrow> 'd \<Rightarrow> nat \<Rightarrow> int \<Rightarrow> ee_u8 list \<Rightarrow> (nat \<times> int \<times> ee_u8 list) option" where
  "int_digits F fi p1 r2 buf =
     (if deq F fi (zero F) then Some (p1, r2, buf)
      else if p1 = 0 then None
      else do {
        let (fj, fi') = modf F (ddiv F fi (ten F));
        d \<leftarrow> cvt_char (trunc F (dmul F (dadd F fj (c03 F)) (ten F)));
        buf' \<leftarrow> wr buf (p1 - 1) d;
        r2' \<leftarrow> int32 (r2 + 1);
        int_digits F fi' (p1 - 1) r2' buf'
      })"

text \<open>The zeros after the point of a number below one.\<close>

partial_function (option) scale_up :: "'d float_ops \<Rightarrow> 'd \<Rightarrow> int \<Rightarrow> ('d \<times> int) option" where
  "scale_up F arg r2 =
     (let fj = dmul F arg (ten F) in
      if dless F fj (one F) then do { r2' \<leftarrow> int32 (r2 - 1); scale_up F fj r2' } else Some (arg, r2))"

text \<open>\<open>while (p <= p1 && p < &buf[CVTBUFSIZE])\<close>: \<open>n\<close> more digits from \<open>p\<close> on.\<close>

primrec frac_digits :: "'d float_ops \<Rightarrow> nat \<Rightarrow> 'd \<Rightarrow> nat \<Rightarrow> ee_u8 list \<Rightarrow> ee_u8 list option" where
  "frac_digits F 0 arg p buf = Some buf"
| "frac_digits F (Suc n) arg p buf =
     do {
       let (arg', fj) = modf F (dmul F arg (ten F));
       d \<leftarrow> cvt_char (trunc F fj);
       buf' \<leftarrow> wr buf p d;
       frac_digits F n arg' (Suc p) buf'
     }"

text \<open>\<open>while (*p1 > '9')\<close>: the carry of the rounding, with the end of the digits and the point.\<close>

fun carry :: "bool \<Rightarrow> nat \<Rightarrow> nat \<Rightarrow> int \<Rightarrow> ee_u8 list \<Rightarrow> (nat \<times> int \<times> ee_u8 list) option" where
  "carry eflag p1 p decpt buf =
     do {
       c \<leftarrow> rd buf p1;
       if c > 57 then do {
         buf1 \<leftarrow> wr buf p1 48;
         (case p1 of
            Suc q \<Rightarrow> do { c' \<leftarrow> rd buf1 q; buf2 \<leftarrow> wr buf1 q (c' + 1); carry eflag q p decpt buf2 }
          | 0 \<Rightarrow> do {
              buf2 \<leftarrow> wr buf1 0 49;
              decpt' \<leftarrow> int32 (decpt + 1);
              if \<not> eflag then do {
                buf3 \<leftarrow> (if p > 0 then wr buf2 p 48 else Some buf2);
                Some (Suc p, decpt', buf3)
              }
              else Some (p, decpt', buf2)
            })
       }
       else Some (p, decpt, buf)
     }"

declare carry.simps [simp del, loop_simps]

section \<open>The conversions\<close>

text \<open>The results are the position of the point, the sign and the buffer.\<close>

definition cvt :: "'d float_ops \<Rightarrow> 'd \<Rightarrow> int \<Rightarrow> ee_u8 list \<Rightarrow> bool \<Rightarrow> (int \<times> bool \<times> ee_u8 list) option" where
  "cvt F arg ndigits buf eflag =
     do {
       let ndigits = (if ndigits < 0 then 0 else ndigits);
       let ndigits = (if ndigits \<ge> CVTBUFSIZE - 1 then CVTBUFSIZE - 2 else ndigits);
       let sign = dless F arg (zero F);
       let arg = (if sign then dneg F arg else arg);
       let (arg, fi) = modf F arg;
       (arg, p, r2, buf) \<leftarrow>
         (if \<not> deq F fi (zero F) then do {
            (p1, r2, buf) \<leftarrow> int_digits F fi (nat CVTBUFSIZE) 0 buf;
            buf \<leftarrow> for_count (\<lambda>j buf. do { c \<leftarrow> rd buf (p1 + j); wr buf j c }) 0 (nat CVTBUFSIZE - p1) buf;
            Some (arg, nat CVTBUFSIZE - p1, r2, buf)
          }
          else if dless F (zero F) arg then do { (arg, r2) \<leftarrow> scale_up F arg 0; Some (arg, 0, r2, buf) }
          else Some (arg, 0, 0, buf));
       let p1 = (if eflag then ndigits else ndigits + r2);
       if p1 < 0 then do { buf \<leftarrow> wr buf 0 0; Some (r2, sign, buf) }
       else do {
         buf \<leftarrow> frac_digits F (min (nat p1 + 1) (nat CVTBUFSIZE) - p) arg p buf;
         if p1 \<ge> CVTBUFSIZE then do { buf \<leftarrow> wr buf (nat (CVTBUFSIZE - 1)) 0; Some (r2, sign, buf) }
         else do {
           c \<leftarrow> rd buf (nat p1);
           buf \<leftarrow> wr buf (nat p1) (c + 5);
           (p, decpt, buf) \<leftarrow> carry eflag (nat p1) (nat p1) r2 buf;
           buf \<leftarrow> wr buf p 0;
           Some (decpt, sign, buf)
         }
       }
     }"

definition ecvtbuf :: "'d float_ops \<Rightarrow> 'd \<Rightarrow> int \<Rightarrow> ee_u8 list \<Rightarrow> (int \<times> bool \<times> ee_u8 list) option" where
  "ecvtbuf F arg ndigits buf = cvt F arg ndigits buf True"

definition fcvtbuf :: "'d float_ops \<Rightarrow> 'd \<Rightarrow> int \<Rightarrow> ee_u8 list \<Rightarrow> (int \<times> bool \<times> ee_u8 list) option" where
  "fcvtbuf F arg ndigits buf = cvt F arg ndigits buf False"

text \<open>\<open>ecvt\<close> and \<open>fcvt\<close> do the same in the static buffer \<open>CVTBUF\<close>.\<close>

definition ecvt :: "'d float_ops \<Rightarrow> 'd \<Rightarrow> int \<Rightarrow> ee_u8 list \<Rightarrow> (int \<times> bool \<times> ee_u8 list) option" where
  "ecvt F arg ndigits CVTBUF = cvt F arg ndigits CVTBUF True"

definition fcvt :: "'d float_ops \<Rightarrow> 'd \<Rightarrow> int \<Rightarrow> ee_u8 list \<Rightarrow> (int \<times> bool \<times> ee_u8 list) option" where
  "fcvt F arg ndigits CVTBUF = cvt F arg ndigits CVTBUF False"

end
