(* ===== verification/Ee_Printf.thy ===== *)
theory Ee_Printf
  imports Cvt
begin

text \<open>
  \<open>barebones/ee_printf.c\<close>: formatted output without a C library.  Characters are bytes, named by
  their ASCII codes; a function that writes at \<open>str\<close> and returns the new \<open>str\<close> returns the bytes
  that it appends.  A C string is the memory from its pointer on; reading outside it, a signed
  overflow, an overflow of a local buffer and an argument of the wrong type are undefined
  (\<^term>\<open>None\<close>).  The arithmetic of doubles is the parameter of \<open>Cvt\<close>.
\<close>

section \<open>Flags and strings\<close>

definition ZEROPAD :: ee_u32 where "ZEROPAD = push_bit 0 1"
definition SIGN :: ee_u32 where "SIGN = push_bit 1 1"
definition PLUS :: ee_u32 where "PLUS = push_bit 2 1"
definition SPACE :: ee_u32 where "SPACE = push_bit 3 1"
definition LEFT :: ee_u32 where "LEFT = push_bit 4 1"
definition HEX_PREP :: ee_u32 where "HEX_PREP = push_bit 5 1"
definition UPPERCASE :: ee_u32 where "UPPERCASE = push_bit 6 1"

definition flag :: "ee_u32 \<Rightarrow> ee_u32 \<Rightarrow> bool" where
  "flag type f \<longleftrightarrow> type AND f \<noteq> 0"

definition is_digit :: "ee_u8 \<Rightarrow> bool" where
  "is_digit c \<longleftrightarrow> c \<ge> 48 \<and> c \<le> 57"

definition digits :: "ee_u8 list" where
  "digits = [48, 49, 50, 51, 52, 53, 54, 55, 56, 57, 97, 98, 99, 100, 101, 102, 103, 104, 105, 106, 107, 108,
     109, 110, 111, 112, 113, 114, 115, 116, 117, 118, 119, 120, 121, 122]"

definition upper_digits :: "ee_u8 list" where
  "upper_digits = [48, 49, 50, 51, 52, 53, 54, 55, 56, 57, 65, 66, 67, 68, 69, 70, 71, 72, 73, 74, 75, 76,
     77, 78, 79, 80, 81, 82, 83, 84, 85, 86, 87, 88, 89, 90]"

text \<open>\<open>*sc != '\0' && count--\<close>: the character is read before the count is tested.\<close>

fun strnlen :: "ee_u8 list \<Rightarrow> ee_u32 \<Rightarrow> nat option" where
  "strnlen [] n = None"
| "strnlen (c # s) n =
     (if c \<noteq> 0 then (if n \<noteq> 0 then map_option Suc (strnlen s (n - 1)) else Some 0) else Some 0)"

fun skip_atoi :: "ee_u8 list \<Rightarrow> int \<Rightarrow> (int \<times> ee_u8 list) option" where
  "skip_atoi [] i = Some (i, [])"
| "skip_atoi (c # s) i =
     (if is_digit c then do {
        a \<leftarrow> int32 (i * 10);
        b \<leftarrow> int32 (a + uint c);
        skip_atoi s (b - 48)
      }
      else Some (i, c # s))"

text \<open>\<open>while (size-- > 0) *str++ = c\<close>: what is written, and \<open>size\<close> after the loop.\<close>

definition pad_loop :: "ee_u8 \<Rightarrow> int \<Rightarrow> (ee_u8 list \<times> int) option" where
  "pad_loop c width = do { left \<leftarrow> int32 (if width > 0 then - 1 else width - 1); Some (replicate (nat width) c, left) }"

text \<open>\<open>while (len < size--) *str++ = ' '\<close>.\<close>

definition fill_loop :: "int \<Rightarrow> int \<Rightarrow> (ee_u8 list \<times> int) option" where
  "fill_loop len width =
     do { left \<leftarrow> int32 (if len < width then len - 1 else width - 1); Some (replicate (nat (width - len)) 32, left) }"

section \<open>Integers\<close>

lemma div_base_less: "num \<noteq> 0 \<Longrightarrow> \<not> base < 2 \<Longrightarrow> unat (num div base) < unat (num :: ee_u32)"
proof -
  assume "num \<noteq> 0" "\<not> base < 2"
  then have "0 < unat num" "1 < unat base" by (simp_all add: unat_gt_0 word_less_nat_alt)
  then show ?thesis by (simp add: unat_div)
qed

text \<open>The digits, last one first, in \<open>tmp[66]\<close>; the base is at least two where the loop is entered.\<close>

function digit_loop :: "ee_u8 list \<Rightarrow> ee_u32 \<Rightarrow> ee_u32 \<Rightarrow> ee_u8 list \<Rightarrow> ee_u8 list option" where
  "digit_loop dig base num tmp =
     (if num = 0 then Some tmp
      else if base < 2 then None
      else do {
        d \<leftarrow> rd dig (unat (num mod base));
        tmp' \<leftarrow> (if length tmp < 66 then Some (tmp @ [d]) else None);
        digit_loop dig base (num div base) tmp'
      })"
  by pat_completeness auto

termination
  by (relation "measure (\<lambda>(dig, base, num, tmp). unat num)") (auto dest: div_base_less)

declare digit_loop.simps [simp del, loop_simps]

text \<open>The sign character, if any, the magnitude and the width that is left.\<close>

definition sign_of :: "int \<Rightarrow> int \<Rightarrow> ee_u32 \<Rightarrow> (ee_u8 list \<times> int \<times> int) option" where
  "sign_of num width type =
     (if flag type SIGN then
        (if num < 0 then do { num' \<leftarrow> int32 (- num); left \<leftarrow> int32 (width - 1); Some ([45], num', left) }
         else if flag type PLUS then do { left \<leftarrow> int32 (width - 1); Some ([43], num, left) }
         else if flag type SPACE then do { left \<leftarrow> int32 (width - 1); Some ([32], num, left) }
         else Some ([], num, width))
      else Some ([], num, width))"

definition number :: "int \<Rightarrow> int \<Rightarrow> int \<Rightarrow> int \<Rightarrow> ee_u32 \<Rightarrow> ee_u8 list option" where
  "number num base width precision type0 =
     (let dig = (if flag type0 UPPERCASE then upper_digits else digits);
          type = (if flag type0 LEFT then type0 AND NOT ZEROPAD else type0)
      in if base < 2 \<or> base > 36 then None
      else do {
        let c = (if flag type ZEROPAD then 48 else 32);
        (sign, num, width) \<leftarrow> sign_of num width type;
        width \<leftarrow> int32 (if flag type HEX_PREP then (if base = 16 then width - 2 else if base = 8 then width - 1 else width)
          else width);
        tmp \<leftarrow> (if num = 0 then Some [48]
          else digit_loop dig (word_of_int base) (word_of_int num) []);
        let i = int (length tmp);
        let precision = (if i > precision then i else precision);
        width \<leftarrow> int32 (width - precision);
        (pad1, width) \<leftarrow> (if \<not> flag type (ZEROPAD OR LEFT) then pad_loop 32 width else Some ([], width));
        let prefix = (if flag type HEX_PREP then (if base = 8 then [48] else if base = 16 then [48, digits ! 33] else [])
          else []);
        (pad2, width) \<leftarrow> (if \<not> flag type LEFT then pad_loop c width else Some ([], width));
        (pad3, width) \<leftarrow> pad_loop 32 width;
        Some (pad1 @ sign @ prefix @ pad2 @ replicate (nat (precision - i)) 48 @ rev tmp @ pad3)
      })"

section \<open>Addresses\<close>

definition put_address :: "ee_u8 list \<Rightarrow> int \<Rightarrow> ee_u32 \<Rightarrow> ee_u8 list option" where
  "put_address tmp width type =
     do {
       let len = int (length tmp);
       (pad1, width) \<leftarrow> (if \<not> flag type LEFT then fill_loop len width else Some ([], width));
       (pad2, width) \<leftarrow> fill_loop len width;
       Some (pad1 @ tmp @ pad2)
     }"

definition eaddr :: "ee_u8 list \<Rightarrow> int \<Rightarrow> ee_u32 \<Rightarrow> ee_u8 list option" where
  "eaddr addr width type =
     do {
       let dig = (if flag type UPPERCASE then upper_digits else digits);
       tmp \<leftarrow> for_count (\<lambda>i tmp. do {
           a \<leftarrow> rd addr i;
           h \<leftarrow> rd dig (unat (drop_bit 4 a));
           l \<leftarrow> rd dig (unat (a AND 0x0F));
           Some (tmp @ (if i \<noteq> 0 then [58] else []) @ [h, l])
         }) 0 6 [];
       put_address tmp width type
     }"

text \<open>One byte in decimal, as \<open>iaddr\<close> writes it.\<close>

definition iaddr_byte :: "ee_u8 \<Rightarrow> ee_u8 list option" where
  "iaddr_byte a =
     (let n = unat a in
      if n = 0 then do { d \<leftarrow> rd digits 0; Some [d] }
      else if n \<ge> 100 then do {
        d1 \<leftarrow> rd digits (n div 100);
        let n1 = n mod 100;
        d2 \<leftarrow> rd digits (n1 div 10);
        d3 \<leftarrow> rd digits (n1 mod 10);
        Some [d1, d2, d3]
      }
      else if n \<ge> 10 then do {
        d2 \<leftarrow> rd digits (n div 10);
        d3 \<leftarrow> rd digits (n mod 10);
        Some [d2, d3]
      }
      else do { d3 \<leftarrow> rd digits n; Some [d3] })"

definition iaddr :: "ee_u8 list \<Rightarrow> int \<Rightarrow> ee_u32 \<Rightarrow> ee_u8 list option" where
  "iaddr addr width type =
     do {
       tmp \<leftarrow> for_count (\<lambda>i tmp. do {
           a \<leftarrow> rd addr i;
           b \<leftarrow> iaddr_byte a;
           Some (tmp @ (if i \<noteq> 0 then [46] else []) @ b)
         }) 0 4 [];
       put_address tmp width type
     }"

section \<open>Floating-point numbers\<close>

definition ee_bufcpy :: "ee_u8 list \<Rightarrow> nat \<Rightarrow> int \<Rightarrow> ee_u8 list option" where
  "ee_bufcpy s from cnt =
     (if cnt < 0 then None
      else for_count (\<lambda>i out. do { c \<leftarrow> rd s (from + i); Some (out @ [c]) }) 0 (nat cnt) [])"

text \<open>\<open>while (*digits) ...\<close>: the characters up to the terminator, which must be there.\<close>

fun c_text :: "ee_u8 list \<Rightarrow> ee_u8 list option" where
  "c_text [] = None"
| "c_text (c # s) = (if c = 0 then Some [] else map_option (Cons c) (c_text s))"

definition put_exponent :: "int \<Rightarrow> ee_u8 list" where
  "put_exponent exp0 =
     (let neg = exp0 < 0; e = \<bar>exp0\<bar>;
          d2 = word_of_int (e mod 10 + 48); e1 = e div 10;
          d1 = word_of_int (e1 mod 10 + 48); e2 = e1 div 10;
          d0 = word_of_int (e2 mod 10 + 48)
      in [if neg then 45 else 43, d0, d1, d2])"

text \<open>\<open>if (pos++ == decpt) *buffer++ = '.'\<close> before each digit.\<close>

definition point_at :: "int \<Rightarrow> ee_u8 list \<Rightarrow> ee_u8 list" where
  "point_at decpt ds = concat (map (\<lambda>(pos, d). if int pos = decpt then [46, d] else [d]) (enumerate 0 ds))"

definition parse_fixed :: "int \<Rightarrow> int \<Rightarrow> ee_u8 list \<Rightarrow> ee_u8 list" where
  "parse_fixed decpt precision ds =
     (if ds \<noteq> [] then
        (if decpt \<le> 0 then [48, 46] @ replicate (nat (- decpt)) 48 @ ds
         else point_at decpt ds)
      else [48] @ (if precision > 0 then [46] @ replicate (nat precision) 48 else []))"

definition parse_float :: "'d float_ops \<Rightarrow> 'd \<Rightarrow> ee_u8 list \<Rightarrow> ee_u8 \<Rightarrow> int \<Rightarrow> ee_u8 list option" where
  "parse_float F value buffer fmt precision =
     do {
       let capexp = (fmt = 71 \<or> fmt = 69);
       let fmt = (if capexp then fmt + 32 else fmt);
       (fmt, precision) \<leftarrow> (if fmt = 103 then do {
           (decpt, sign, digs) \<leftarrow> ecvtbuf F value precision (local80 F);
           magnitude \<leftarrow> int32 (decpt - 1);
           if magnitude < - 4 \<or> magnitude > precision - 1 then do { p \<leftarrow> int32 (precision - 1); Some (101, p) }
           else do { p \<leftarrow> int32 (precision - decpt); Some (102, p) }
         } else Some (fmt, precision));
       text \<leftarrow> (if fmt = 101 then do {
           p1 \<leftarrow> int32 (precision + 1);
           (decpt, sign, digs) \<leftarrow> ecvtbuf F value p1 (local80 F);
           d \<leftarrow> rd digs 0;
           fraction \<leftarrow> ee_bufcpy digs 1 precision;
           exp \<leftarrow> (if decpt = 0 then Some (if deq F value (zero F) then 0 else - 1) else int32 (decpt - 1));
           Some ((if sign then [45] else []) @ [d] @ (if precision > 0 then [46] else []) @ fraction @
             [if capexp then 69 else 101] @ put_exponent exp)
         }
         else if fmt = 102 then do {
           (decpt, sign, digs) \<leftarrow> fcvtbuf F value precision (local80 F);
           ds \<leftarrow> c_text digs;
           Some ((if sign then [45] else []) @ parse_fixed decpt precision ds)
         }
         else Some []);
       if length text < length buffer then Some (text @ [0] @ drop (Suc (length text)) buffer) else None
     }"

text \<open>The first position from \<open>i\<close> on with a character in \<open>S\<close> or the terminator.\<close>

function stop_at :: "ee_u8 set \<Rightarrow> ee_u8 list \<Rightarrow> nat \<Rightarrow> nat option" where
  "stop_at S m i = (if i \<ge> length m then None else if m ! i = 0 \<or> m ! i \<in> S then Some i else stop_at S m (Suc i))"
  by pat_completeness auto
termination by (relation "measure (\<lambda>(S, m, i). length m - i)") auto

declare stop_at.simps [simp del, loop_simps]

text \<open>\<open>buffer[n + 1] = buffer[n]\<close> from the end down to \<open>n = 1\<close>.\<close>

primrec shift_right :: "nat \<Rightarrow> nat \<Rightarrow> ee_u8 list \<Rightarrow> ee_u8 list option" where
  "shift_right b 0 m = Some m"
| "shift_right b (Suc n) m = do { c \<leftarrow> rd m (b + Suc n); m' \<leftarrow> wr m (b + Suc n + 1) c; shift_right b n m' }"

definition decimal_point :: "ee_u8 list \<Rightarrow> ee_u8 list option" where
  "decimal_point m =
     do {
       b \<leftarrow> stop_at {46, 101, 69} m 0;
       c \<leftarrow> rd m b;
       if c = 46 then Some m
       else if c \<noteq> 0 then do {
         n \<leftarrow> strnlen (drop b m) 256;
         m' \<leftarrow> shift_right b n m;
         wr m' b 46
       }
       else do { m' \<leftarrow> wr m b 46; wr m' (Suc b) 0 }
     }"

text \<open>\<open>while (*buffer == '0') buffer--\<close>.\<close>

fun back_zeros :: "ee_u8 list \<Rightarrow> nat \<Rightarrow> nat option" where
  "back_zeros m i =
     do { c \<leftarrow> rd m i; if c = 48 then (if i = 0 then None else back_zeros m (i - 1)) else Some i }"

declare back_zeros.simps [simp del, loop_simps]

definition cropzeros :: "ee_u8 list \<Rightarrow> ee_u8 list option" where
  "cropzeros m =
     do {
       b \<leftarrow> stop_at {46} m 0;
       c \<leftarrow> rd m b;
       if c = 0 then Some m
       else do {
         stop \<leftarrow> stop_at {101, 69} m (Suc b);
         z \<leftarrow> back_zeros m (stop - 1);
         c \<leftarrow> rd m z;
         z \<leftarrow> (if c = 46 then (if z = 0 then None else Some (z - 1)) else Some z);
         for_count (\<lambda>i m. wr m i 0) (Suc z) (stop - z) m
       }
     }"

text \<open>The sign of a double.\<close>

definition flt_sign :: "'d float_ops \<Rightarrow> 'd \<Rightarrow> int \<Rightarrow> ee_u32 \<Rightarrow> (ee_u8 list \<times> 'd \<times> int) option" where
  "flt_sign F num width type =
     (if flag type SIGN then
        (if dless F num (zero F) then do { left \<leftarrow> int32 (width - 1); Some ([45], dneg F num, left) }
         else if flag type PLUS then do { left \<leftarrow> int32 (width - 1); Some ([43], num, left) }
         else if flag type SPACE then do { left \<leftarrow> int32 (width - 1); Some ([32], num, left) }
         else Some ([], num, width))
      else Some ([], num, width))"

definition flt :: "'d float_ops \<Rightarrow> 'd \<Rightarrow> int \<Rightarrow> int \<Rightarrow> ee_u8 \<Rightarrow> ee_u32 \<Rightarrow> ee_u8 list option" where
  "flt F num width precision fmt type0 =
     do {
       let type = (if flag type0 LEFT then type0 AND NOT ZEROPAD else type0);
       let c = (if flag type ZEROPAD then 48 else 32);
       (sign, num, width) \<leftarrow> flt_sign F num width type;
       let precision = (if precision < 0 then 6 else precision);
       tmp \<leftarrow> parse_float F num (local80 F) fmt precision;
       tmp \<leftarrow> (if flag type HEX_PREP \<and> precision = 0 then decimal_point tmp else Some tmp);
       tmp \<leftarrow> (if fmt = 103 \<and> \<not> flag type HEX_PREP then cropzeros tmp else Some tmp);
       n \<leftarrow> strnlen tmp 256;
       width \<leftarrow> int32 (width - int n);
       (pad1, width) \<leftarrow> (if \<not> flag type (ZEROPAD OR LEFT) then pad_loop 32 width else Some ([], width));
       (pad2, width) \<leftarrow> (if \<not> flag type LEFT then pad_loop c width else Some ([], width));
       (pad3, width) \<leftarrow> pad_loop 32 width;
       Some (pad1 @ sign @ pad2 @ take n tmp @ pad3)
     }"

section \<open>The format\<close>

text \<open>What the caller passes: on this target an \<open>int\<close>, a \<open>long\<close> and a pointer are one word each.\<close>

datatype 'd va_arg =
    VInt ee_u32
  | VStr "ee_u8 list option"
  | VPtr ee_u32
  | VAddr "ee_u8 list"
  | VDouble 'd

fun va_int :: "'d va_arg list \<Rightarrow> (ee_u32 \<times> 'd va_arg list) option" where
  "va_int (VInt w # args) = Some (w, args)"
| "va_int _ = None"

fun va_str :: "'d va_arg list \<Rightarrow> (ee_u8 list option \<times> 'd va_arg list) option" where
  "va_str (VStr s # args) = Some (s, args)"
| "va_str _ = None"

fun va_ptr :: "'d va_arg list \<Rightarrow> (ee_u32 \<times> 'd va_arg list) option" where
  "va_ptr (VPtr w # args) = Some (w, args)"
| "va_ptr _ = None"

fun va_addr :: "'d va_arg list \<Rightarrow> (ee_u8 list \<times> 'd va_arg list) option" where
  "va_addr (VAddr a # args) = Some (a, args)"
| "va_addr _ = None"

fun va_double :: "'d va_arg list \<Rightarrow> ('d \<times> 'd va_arg list) option" where
  "va_double (VDouble x # args) = Some (x, args)"
| "va_double _ = None"

definition flag_of :: "ee_u8 \<Rightarrow> ee_u32 option" where
  "flag_of c = (if c = 45 then Some LEFT else if c = 43 then Some PLUS else if c = 32 then Some SPACE
     else if c = 35 then Some HEX_PREP else if c = 48 then Some ZEROPAD else None)"

fun parse_flags :: "ee_u8 list \<Rightarrow> ee_u32 \<Rightarrow> ee_u32 \<times> ee_u8 list" where
  "parse_flags [] flags = (flags, [])"
| "parse_flags (c # fmt) flags =
     (case flag_of c of Some f \<Rightarrow> parse_flags fmt (flags OR f) | None \<Rightarrow> (flags, c # fmt))"

text \<open>The field width, with the flags.\<close>

definition parse_width :: "ee_u8 list \<Rightarrow> ee_u32 \<Rightarrow> 'd va_arg list \<Rightarrow> (int \<times> ee_u32 \<times> ee_u8 list \<times> 'd va_arg list) option" where
  "parse_width fmt flags args =
     do {
       c \<leftarrow> rd fmt 0;
       if is_digit c then do { (w, fmt) \<leftarrow> skip_atoi fmt 0; Some (w, flags, fmt, args) }
       else if c = 42 then do {
         (w, args) \<leftarrow> va_int args;
         let field_width = sint w;
         if field_width < 0 then do { w' \<leftarrow> int32 (- field_width); Some (w', flags OR LEFT, tl fmt, args) }
         else Some (field_width, flags, tl fmt, args)
       }
       else Some (- 1, flags, fmt, args)
     }"

definition parse_precision :: "ee_u8 list \<Rightarrow> 'd va_arg list \<Rightarrow> (int \<times> ee_u8 list \<times> 'd va_arg list) option" where
  "parse_precision fmt args =
     do {
       c \<leftarrow> rd fmt 0;
       if c = 46 then do {
         let fmt = tl fmt;
         c \<leftarrow> rd fmt 0;
         (precision, fmt, args) \<leftarrow>
           (if is_digit c then do { (p, fmt) \<leftarrow> skip_atoi fmt 0; Some (p, fmt, args) }
            else if c = 42 then do { (w, args) \<leftarrow> va_int args; Some (sint w, tl fmt, args) }
            else Some (- 1, fmt, args));
         Some (if precision < 0 then 0 else precision, fmt, args)
       }
       else Some (- 1, fmt, args)
     }"

definition parse_qualifier :: "ee_u8 list \<Rightarrow> (int \<times> ee_u8 list) option" where
  "parse_qualifier fmt = do { c \<leftarrow> rd fmt 0; Some (if c = 108 \<or> c = 76 then (uint c, tl fmt) else (- 1, fmt)) }"

section \<open>Conversions\<close>

definition put_char :: "int \<Rightarrow> ee_u32 \<Rightarrow> ee_u8 \<Rightarrow> ee_u8 list" where
  "put_char field_width flags c =
     (if \<not> flag flags LEFT then replicate (nat (field_width - 1)) 32 @ [c]
      else [c] @ replicate (nat (field_width - 1)) 32)"

definition null_text :: "ee_u8 list" where
  "null_text = [60, 78, 85, 76, 76, 62, 0]"

definition put_string :: "int \<Rightarrow> int \<Rightarrow> ee_u32 \<Rightarrow> ee_u8 list option \<Rightarrow> ee_u8 list option" where
  "put_string field_width precision flags s0 =
     do {
       let s = (case s0 of None \<Rightarrow> null_text | Some s \<Rightarrow> s);
       n \<leftarrow> strnlen s (word_of_int precision);
       let len = int n;
       (pad1, field_width) \<leftarrow> (if \<not> flag flags LEFT then fill_loop len field_width else Some ([], field_width));
       (pad2, field_width) \<leftarrow> fill_loop len field_width;
       Some (pad1 @ take n s @ pad2)
     }"

text \<open>
  The formats that end in \<open>number\<close>: base and flags.
\<close>

definition number_format :: "ee_u8 \<Rightarrow> ee_u32 \<Rightarrow> (int \<times> ee_u32) option" where
  "number_format c flags =
     (if c = 111 then Some (8, flags)
      else if c = 88 then Some (16, flags OR UPPERCASE)
      else if c = 120 then Some (16, flags)
      else if c = 100 \<or> c = 105 then Some (10, flags OR SIGN)
      else if c = 117 then Some (10, flags)
      else None)"

text \<open>
  The switch on the conversion character at the head of \<open>fmt\<close>: the output, the format after the
  character and the arguments that are left.
\<close>

definition convert :: "'d float_ops \<Rightarrow> int \<Rightarrow> int \<Rightarrow> int \<Rightarrow> ee_u32 \<Rightarrow> ee_u8 list \<Rightarrow> 'd va_arg list \<Rightarrow>
    (ee_u8 list \<times> ee_u8 list \<times> 'd va_arg list) option" where
  "convert F field_width precision qualifier flags fmt args =
     do {
       c \<leftarrow> rd fmt 0;
       let fmt' = tl fmt;
       if c = 99 then do { (w, args) \<leftarrow> va_int args; Some (put_char field_width flags (ucast w), fmt', args) }
       else if c = 115 then do {
         (s, args) \<leftarrow> va_str args;
         out \<leftarrow> put_string field_width precision flags s;
         Some (out, fmt', args)
       }
       else if c = 112 then do {
         let (field_width, flags) = (if field_width = - 1 then (8, flags OR ZEROPAD) else (field_width, flags));
         (w, args) \<leftarrow> va_ptr args;
         out \<leftarrow> number (sint w) 16 field_width precision flags;
         Some (out, fmt', args)
       }
       else if c = 65 \<or> c = 97 then do {
         let flags = (if c = 65 then flags OR UPPERCASE else flags);
         (a, args) \<leftarrow> va_addr args;
         out \<leftarrow> (if qualifier = 108 then eaddr a field_width flags else iaddr a field_width flags);
         Some (out, fmt', args)
       }
       else if c = 102 then do {
         (x, args) \<leftarrow> va_double args;
         out \<leftarrow> flt F x field_width precision c (flags OR SIGN);
         Some (out, fmt', args)
       }
       else (case number_format c flags of
           Some (base, flags) \<Rightarrow> do {
             (w, args) \<leftarrow> va_int args;
             out \<leftarrow> number (sint w) base field_width precision flags;
             Some (out, fmt', args)
           }
         | None \<Rightarrow>
             Some ((if c \<noteq> 37 then [37] else []) @ (if c \<noteq> 0 then [c] else []), if c \<noteq> 0 then fmt' else fmt, args))
     }"

text \<open>One directive, after its percent sign.\<close>

definition directive :: "'d float_ops \<Rightarrow> ee_u8 list \<Rightarrow> 'd va_arg list \<Rightarrow>
    (ee_u8 list \<times> ee_u8 list \<times> 'd va_arg list) option" where
  "directive F fmt args =
     do {
       let (flags, fmt) = parse_flags fmt 0;
       (field_width, flags, fmt, args) \<leftarrow> parse_width fmt flags args;
       (precision, fmt, args) \<leftarrow> parse_precision fmt args;
       (qualifier, fmt) \<leftarrow> parse_qualifier fmt;
       convert F field_width precision qualifier flags fmt args
     }"

lemma skip_atoi_length: "skip_atoi s i = Some (j, s') \<Longrightarrow> length s' \<le> length s"
  by (induction s i rule: skip_atoi.induct) (auto split: if_splits bind_splits dest: le_SucI)

lemma parse_flags_length: "parse_flags s f = (f', s') \<Longrightarrow> length s' \<le> length s"
  by (induction s f rule: parse_flags.induct) (auto split: option.splits dest: le_SucI)

lemma parse_width_length: "parse_width fmt f args = Some (w, f', fmt', args') \<Longrightarrow> length fmt' \<le> length fmt"
  by (auto simp: parse_width_def Let_def split: if_splits bind_splits dest: skip_atoi_length)

lemma parse_precision_length: "parse_precision fmt args = Some (p, fmt', args') \<Longrightarrow> length fmt' \<le> length fmt"
  by (auto simp: parse_precision_def Let_def split: if_splits bind_splits dest!: skip_atoi_length)

lemma parse_qualifier_length: "parse_qualifier fmt = Some (q, fmt') \<Longrightarrow> length fmt' \<le> length fmt"
  by (auto simp: parse_qualifier_def split: if_splits bind_splits)

lemma convert_length: "convert F w p q f fmt args = Some (out, fmt', args') \<Longrightarrow> length fmt' \<le> length fmt"
  by (auto simp: convert_def Let_def split: if_splits bind_splits option.splits prod.splits)

lemmas directive_lengths =
  parse_width_length parse_precision_length parse_qualifier_length convert_length

lemma directive_length: "directive F fmt args = Some (out, fmt', args') \<Longrightarrow> length fmt' \<le> length fmt"
  by (cases "parse_flags fmt 0")
    (fastforce simp: directive_def split: bind_splits dest: parse_flags_length directive_lengths)

function ee_vsprintf :: "'d float_ops \<Rightarrow> ee_u8 list \<Rightarrow> 'd va_arg list \<Rightarrow> ee_u8 list option" where
  "ee_vsprintf F [] args = None"
| "ee_vsprintf F (c # fmt) args =
     (if c = 0 then Some []
      else if c \<noteq> 37 then map_option (Cons c) (ee_vsprintf F fmt args)
      else do {
        (out, fmt', args') \<leftarrow> directive F fmt args;
        rest \<leftarrow> ee_vsprintf F fmt' args';
        Some (out @ rest)
      })"
  by pat_completeness auto

termination
  by (relation "measure (\<lambda>(F, fmt, args). length fmt)") (auto dest: directive_length)

text \<open>
  \<open>char buf[256]\<close> holds the text and its terminator; what is sent ends at the first terminator.  The
  result is the number of characters and what the UART receives.
\<close>

definition ee_printf :: "'d float_ops \<Rightarrow> ee_u8 list \<Rightarrow> 'd va_arg list \<Rightarrow> (ee_u32 \<times> ee_u8 list) option" where
  "ee_printf F fmt args =
     do {
       text \<leftarrow> ee_vsprintf F fmt args;
       if length text < 256 then
         let sent = takeWhile (\<lambda>c. c \<noteq> 0) text in Some (of_nat (length sent), sent)
       else None
     }"

end
