(* ===== verification/Ee_Printf_Props.thy ===== *)
theory Ee_Printf_Props
  imports Ee_Printf
begin

text \<open>
  What \<open>ee_printf.c\<close> writes: the layout of a number for every combination of flags, width and
  precision, the round trip with \<open>parseval\<close>, strings and their limits, plain text and the size of
  the buffer, and the rounding of \<open>cvt.c\<close>.
\<close>

lemma replicate_2: "replicate 2 x = [x, x]"
  by (simp add: numeral_2_eq_2)

section \<open>Flags\<close>

lemma flag_bit: "k < 32 \<Longrightarrow> flag t (push_bit k 1) = bit t k"
  by (simp add: flag_def push_bit_eq_mult and_exp_eq_0_iff_not_bit)

lemma flag_bits [simp]:
  "flag t ZEROPAD = bit t 0" "flag t SIGN = bit t 1" "flag t PLUS = bit t 2" "flag t SPACE = bit t 3"
  "flag t LEFT = bit t 4" "flag t HEX_PREP = bit t 5" "flag t UPPERCASE = bit t 6"
  unfolding ZEROPAD_def SIGN_def PLUS_def SPACE_def LEFT_def HEX_PREP_def UPPERCASE_def
  by (rule flag_bit; simp)+

lemma flag_word_bits [simp]:
  "bit SIGN k \<longleftrightarrow> k = 1" "bit HEX_PREP k \<longleftrightarrow> k = 5"
  unfolding SIGN_def HEX_PREP_def bit_push_bit_iff bit_1_iff by auto

lemma flag_or [simp]: "flag t (a OR b) \<longleftrightarrow> flag t a \<or> flag t b"
  by (simp add: flag_def bit.conj_disj_distrib or_eq_0_iff)

lemma bit_without_zeropad [simp]:
  "bit (t AND NOT ZEROPAD :: ee_u32) k \<longleftrightarrow> bit t k \<and> k \<noteq> 0"
proof -
  have "k < 32" if "bit t k" using bit_imp_le_length[OF that] by simp
  then show ?thesis by (auto simp: ZEROPAD_def bit_simps)
qed

section \<open>Digits\<close>

lemma length_digits_of: "2 \<le> b \<Longrightarrow> 0 < k \<Longrightarrow> n < b ^ k \<Longrightarrow> length (digits_of b n) \<le> k"
proof (induction k arbitrary: n)
  case 0
  then show ?case by simp
next
  case (Suc k)
  show ?case
  proof (cases "n < b")
    case True
    then show ?thesis by simp
  next
    case False
    then have "k \<noteq> 0" using Suc.prems by (cases k) auto
    moreover have "n div b < b ^ k" using Suc.prems by (simp add: div_less_iff_less_mult mult.commute)
    ultimately show ?thesis using Suc.IH Suc.prems False by (simp add: digits_of_large)
  qed
qed

lemma length_digits_of_word: "2 \<le> b \<Longrightarrow> length (digits_of b (unat (w :: ee_u32))) \<le> 32"
proof -
  assume b: "2 \<le> b"
  have "unat w < 2 ^ 32" using unsigned_less[of w] by simp
  also have "(2 :: nat) ^ 32 \<le> b ^ 32" using b by (rule power_mono) simp
  finally show ?thesis by (intro length_digits_of) (use b in auto)
qed

lemma length_digit_tables [simp]: "length digits = 36" "length upper_digits = 36"
  by (simp_all add: digits_def upper_digits_def)

lemma digit_loop_digits:
  assumes "2 \<le> unat base" "unat base \<le> length dig" "num \<noteq> 0" "length tmp + length (digits_of (unat base) (unat num)) \<le> 66"
  shows "digit_loop dig base num tmp = Some (tmp @ rev (map ((!) dig) (digits_of (unat base) (unat num))))"
  using assms
proof (induction dig base num tmp rule: digit_loop.induct)
  case (1 dig base num tmp)
  have base: "\<not> base < 2" using 1(2) by (simp add: word_less_nat_alt)
  have "unat num mod unat base < unat base" by (rule mod_less_divisor) (use 1(2) in linarith)
  then have mod_lt: "unat (num mod base) < length dig" using 1(3) by (simp add: unat_mod)
  show ?case
  proof (cases "unat num < unat base")
    case True
    then have "num div base = 0" by (simp add: unat_arith_simps unat_div)
    moreover have "num mod base = num" using True by (simp add: word_unat_eq_iff unat_mod)
    ultimately show ?thesis using 1(2-5) base mod_lt True by (simp add: digit_loop.simps)
  next
    case False
    have ne: "num div base \<noteq> 0" using False 1(2) by (simp add: unat_arith_simps unat_div div_eq_0_iff)
    have ds: "digits_of (unat base) (unat num) = digits_of (unat base) (unat (num div base)) @ [unat (num mod base)]"
      using False 1(2) by (simp add: digits_of_large unat_div unat_mod)
    have "length tmp < 66" using 1(5) by (simp add: ds)
    then show ?thesis
      using 1(1)[OF 1(4) base _ _ 1(2,3) ne] 1(4,5) base mod_lt by (subst digit_loop.simps) (simp add: ds)
  qed
qed

section \<open>Layout of a number\<close>

text \<open>
  The reference: the sign, the prefix and the numeral with at least \<open>precision\<close> digits, padded to the
  width behind, between prefix and digits, or in front.  The magnitude of the least \<open>long\<close> has none.
\<close>

definition sign_text :: "int \<Rightarrow> ee_u32 \<Rightarrow> ee_u8 list" where
  "sign_text num t =
     (if \<not> bit t 1 then [] else if num < 0 then [45] else if bit t 2 then [43] else if bit t 3 then [32] else [])"

definition prefix_text :: "int \<Rightarrow> ee_u32 \<Rightarrow> ee_u8 list" where
  "prefix_text base t = (if \<not> bit t 5 then [] else if base = 8 then [48] else if base = 16 then [48, 120] else [])"

definition numeral_text :: "int \<Rightarrow> int \<Rightarrow> ee_u32 \<Rightarrow> ee_u8 list" where
  "numeral_text num base t =
     map ((!) (if bit t 6 then upper_digits else digits))
       (digits_of (nat base) (nat (if bit t 1 then \<bar>num\<bar> else num mod 2 ^ 32)))"

definition number_spec :: "int \<Rightarrow> int \<Rightarrow> int \<Rightarrow> int \<Rightarrow> ee_u32 \<Rightarrow> ee_u8 list option" where
  "number_spec num base width precision t =
     (if bit t 1 \<and> num = - (2 ^ 31) then None
      else
        let ds = numeral_text num base t;
            body = replicate (nat (precision - int (length ds))) 48 @ ds;
            lead = sign_text num t @ prefix_text base t;
            fill = nat (width - int (length (lead @ body)))
        in Some (if bit t 4 then lead @ body @ replicate fill 32
                 else if bit t 0 then lead @ replicate fill 48 @ body
                 else replicate fill 32 @ lead @ body))"

lemma pad_loop_eq:
  "- (2 ^ 31) < w \<Longrightarrow> w < 2 ^ 31 \<Longrightarrow> pad_loop c w = Some (replicate (nat w) c, if w > 0 then - 1 else w - 1)"
  by (simp add: pad_loop_def int32_def)

lemma sign_of_eq:
  assumes "- (2 ^ 31) \<le> num" "num < 2 ^ 31" "- 1 \<le> width" "width < 2 ^ 31"
  shows "sign_of num width t =
    (if bit t 1 \<and> num = - (2 ^ 31) then None
     else Some (sign_text num t, if bit t 1 then \<bar>num\<bar> else num, width - int (length (sign_text num t))))"
  using assms by (auto simp: sign_of_def sign_text_def int32_def)

lemma numeral_text_digits:
  assumes "2 \<le> base" "base \<le> 36" "num \<noteq> 0" "- (2 ^ 31) \<le> num" "num < 2 ^ 31"
    "\<not> (bit t 1 \<and> num = - (2 ^ 31))"
  shows "digit_loop (if bit t 6 then upper_digits else digits) (word_of_int base)
      (word_of_int (if bit t 1 then \<bar>num\<bar> else num)) [] = Some (rev (numeral_text num base t))"
proof -
  let ?m = "if bit t 1 then \<bar>num\<bar> else num"
  have b: "unat (word_of_int base :: ee_u32) = nat base"
    using assms by (simp add: unsigned_of_int take_bit_int_eq_self)
  have m: "unat (word_of_int ?m :: ee_u32) = nat (if bit t 1 then \<bar>num\<bar> else num mod 2 ^ 32)"
    using assms by (auto simp: unsigned_of_int take_bit_eq_mod)
  have ne: "(word_of_int ?m :: ee_u32) \<noteq> 0"
  proof
    assume "(word_of_int ?m :: ee_u32) = 0"
    then have "unat (word_of_int ?m :: ee_u32) = 0" by simp
    then have "?m mod 2 ^ 32 = 0" using m assms by (auto split: if_splits)
    then show False using assms zdvd_imp_le[of "2 ^ 32" "\<bar>num\<bar>"] by (auto simp: dvd_eq_mod_eq_0[symmetric] split: if_splits)
  qed
  have "length (digits_of (nat base) (unat (word_of_int ?m :: ee_u32))) \<le> 32"
    using assms by (intro length_digits_of_word) simp
  then show ?thesis
    using assms ne by (subst digit_loop_digits) (auto simp: b m[simplified] numeral_text_def simp del: length_digits_of_word)
qed

lemma numeral_text_zero: "2 \<le> base \<Longrightarrow> numeral_text 0 base t = [48]"
  by (simp add: numeral_text_def digits_def upper_digits_def)

lemma length_numeral_text: "2 \<le> base \<Longrightarrow> - (2 ^ 31) \<le> num \<Longrightarrow> num < 2 ^ 31 \<Longrightarrow> length (numeral_text num base t) \<le> 32"
  using length_digits_of_word[of "nat base" "word_of_int (if bit t 1 then \<bar>num\<bar> else num)"]
  by (auto simp: numeral_text_def unsigned_of_int take_bit_eq_mod split: if_splits)

lemma digits_33 [simp]: "digits ! 33 = 120"
  by (simp add: digits_def)

lemma length_sign_text: "length (sign_text num t) \<le> 1"
  by (simp add: sign_text_def)

lemma number_eq_spec:
  assumes "2 \<le> base" "base \<le> 36" "- (2 ^ 31) \<le> num" "num < 2 ^ 31"
    and "- 1 \<le> width" "width < 2 ^ 31" "precision < 2 ^ 30"
  shows "number num base width precision t = number_spec num base width precision t"
proof (cases "bit t 1 \<and> num = - (2 ^ 31)")
  case True
  then show ?thesis using assms by (simp add: number_def number_spec_def sign_of_eq Let_def)
next
  case False
  define ds where "ds = numeral_text num base t"
  define sg where "sg = sign_text num t"
  define pre where "pre = prefix_text base t"
  define w1 where "w1 = width - int (length sg) - int (length pre) - max (int (length ds)) precision"
  have bounds: "length ds \<le> 32" "length sg \<le> 1" "length pre \<le> 2"
    using assms length_numeral_text[of base num t] length_sign_text[of num t]
    by (simp_all add: ds_def sg_def pre_def prefix_text_def)
  have w1: "- (2 ^ 31) + 3 < w1" "w1 < 2 ^ 31" using bounds assms by (auto simp: w1_def)
  let ?t = "if bit t 4 then t AND NOT ZEROPAD else t"
  have sign: "sign_of num width ?t = Some (sg, if bit t 1 then \<bar>num\<bar> else num, width - int (length sg))"
    using sign_of_eq[of num width ?t] assms False by (auto simp: sg_def sign_text_def)
  have tmp: "(if (if bit t 1 then \<bar>num\<bar> else num) = 0 then Some [48]
      else digit_loop (if bit t 6 then upper_digits else digits) (word_of_int base)
        (word_of_int (if bit t 1 then \<bar>num\<bar> else num)) []) = Some (rev ds)"
    using assms False numeral_text_digits[of base num t] numeral_text_zero[of base t] by (auto simp: ds_def)
  let ?w = "width - int (length sg)"
  have prefix: "int32 (if bit t 5 then if base = 16 then ?w - 2 else if base = 8 then ?w - 1 else ?w else ?w)
      = Some (?w - int (length pre))"
    using assms bounds by (auto simp: pre_def prefix_text_def int32_def)
  have rest: "int32 (?w - int (length pre) - (if int (length ds) > precision then int (length ds) else precision)) = Some w1"
    using w1 by (auto simp: int32_def w1_def max_def split: if_splits)
  have zeros: "nat ((if int (length ds) > precision then int (length ds) else precision) - int (length ds))
      = nat (precision - int (length ds))" by simp
  have fill: "nat w1 = nat (width - int (length ((sg @ pre) @ replicate (nat (precision - int (length ds))) 48 @ ds)))"
    by (simp add: w1_def max_def algebra_simps)
  have pads: "pad_loop c w1 = Some (replicate (nat w1) c, if w1 > 0 then - 1 else w1 - 1)"
    "pad_loop c (if w1 > 0 then - 1 else w1 - 1) = Some ([], if w1 > 0 then - 2 else w1 - 2)"
    "pad_loop c (if w1 > 0 then - 2 else w1 - 2) = Some ([], if w1 > 0 then - 3 else w1 - 3)" for c
    using w1 by (simp_all add: pad_loop_eq)
  have pre_text: "(if bit t 5 then if base = 8 then [48] else if base = 16 then [48, 120] else [] else []) = pre"
    by (simp add: pre_def prefix_text_def)
  have base: "\<not> (base < 2 \<or> base > 36)" using assms by simp
  have unfolded: "number num base width precision t = do {
      (pad1, left) \<leftarrow> (if \<not> (bit t 0 \<or> bit t 4) then pad_loop 32 w1 else Some ([], w1));
      (pad2, left) \<leftarrow> (if \<not> bit t 4 then pad_loop (if bit t 0 \<and> \<not> bit t 4 then 48 else 32) left else Some ([], left));
      (pad3, left) \<leftarrow> pad_loop 32 left;
      Some (pad1 @ sg @ pre @ pad2 @ replicate (nat (precision - int (length ds))) 48 @ ds @ pad3)
    }"
    using sign tmp prefix rest base
    by (cases "bit t 4"; simp add: number_def Let_def zeros pre_text cong: if_cong)
  show ?thesis
    unfolding unfolded number_spec_def Let_def ds_def[symmetric] sg_def[symmetric] pre_def[symmetric] fill[symmetric]
    using False pads by auto
qed

lemma length_padded:
  "length (if c then a @ b @ replicate n x else if d then a @ replicate n y @ b else replicate n x @ a @ b) =
     length a + length b + n"
  by simp

lemma length_number_spec:
  "map_option length (number_spec num base width precision t) =
    (if bit t 1 \<and> num = - (2 ^ 31) then None
     else Some (max (nat width) (length (sign_text num t) + length (prefix_text base t) +
       max (nat precision) (length (numeral_text num base t)))))"
proof -
  define ds where "ds = numeral_text num base t"
  define lead where "lead = sign_text num t @ prefix_text base t"
  define body where "body = replicate (nat (precision - int (length ds))) 48 @ ds"
  have body: "length body = max (nat precision) (length ds)" by (simp add: body_def)
  have lead: "length lead = length (sign_text num t) + length (prefix_text base t)" by (simp add: lead_def)
  have "length lead + length body + nat (width - int (length (lead @ body))) = max (nat width) (length lead + length body)"
    by simp
  then show ?thesis
    unfolding number_spec_def Let_def ds_def[symmetric] lead_def[symmetric] body_def[symmetric] body[symmetric] lead[symmetric]
    by (cases "bit t 1 \<and> num = - (2 ^ 31)") (simp_all only: length_padded option.map simp_thms if_True if_False)
qed

text \<open>C26: For every base from 2 to 36, every combination of flags and every value of a \<open>long\<close>, \<open>number\<close>
  writes the sign, the prefix and the numeral of the magnitude with at least \<open>precision\<close> digits,
  padded to the width on the side and with the character that the flags ask for; the text is as long
  as the width unless the number needs more.  Only the least \<open>long\<close> as a signed number is undefined:
  \<open>-num\<close> overflows.\<close>

theorem number_layout:
  assumes "2 \<le> base" "base \<le> 36" "- (2 ^ 31) \<le> num" "num < 2 ^ 31"
    and "- 1 \<le> width" "width < 2 ^ 31" "precision < 2 ^ 30"
  shows "number num base width precision t = number_spec num base width precision t
    \<and> map_option length (number num base width precision t) =
       (if flag t SIGN \<and> num = - (2 ^ 31) then None
        else Some (max (nat width) (length (sign_text num t) + length (prefix_text base t) +
          max (nat precision) (length (numeral_text num base t)))))"
  using number_eq_spec[OF assms] by (simp only: length_number_spec flag_bits)

theorem number_layout_witness:
  "number (- 42) 10 6 3 SIGN = Some [32, 32, 45, 48, 52, 50]"
proof -
  have ds: "digits_of 10 42 = [4, 2]" by (simp add: digits_of_large)
  have "numeral_text (- 42) 10 SIGN = [52, 50]" by (simp add: numeral_text_def ds digits_def)
  then have "number_spec (- 42) 10 6 3 SIGN = Some [32, 32, 45, 48, 52, 50]"
    by (simp add: number_spec_def sign_text_def prefix_text_def replicate_2)
  with number_layout[of 10 "- 42" 6 3 SIGN] show ?thesis by simp
qed

section \<open>Printing and parsing\<close>

lemma digits_digit_char: "d < 16 \<Longrightarrow> digits ! d = digit_char d"
proof -
  have "\<forall>d<16. digits ! d = digit_char d" by (simp add: all_less_16 digits_def digit_char_def)
  then show "d < 16 \<Longrightarrow> ?thesis" by blast
qed

lemma numeral_text_string: "2 \<le> base \<Longrightarrow> base \<le> 16 \<Longrightarrow> \<not> bit t 6 \<Longrightarrow>
    numeral_text num base t = numeral_string (nat base) (nat (if bit t 1 then \<bar>num\<bar> else num mod 2 ^ 32))"
  using digits_of_less[of "nat base"] by (fastforce simp: numeral_text_def numeral_string_def digits_digit_char)

lemma unat_sint_mod: "nat (sint (w :: ee_u32) mod 2 ^ 32) = unat w"
proof -
  have "unat w = unat (word_of_int (sint w) :: ee_u32)" by simp
  then show ?thesis by (simp only: unsigned_of_int) (simp add: take_bit_eq_mod)
qed

text \<open>The directives without width and precision that print one word.\<close>

lemma plain_directives:
  "ee_vsprintf F [37, 117, 0] [VInt w] = number (sint w) 10 (- 1) (- 1) 0"
  "ee_vsprintf F [37, 100, 0] [VInt w] = number (sint w) 10 (- 1) (- 1) SIGN"
  "ee_vsprintf F [37, 35, 120, 0] [VInt w] = number (sint w) 16 (- 1) (- 1) HEX_PREP"
  by (simp_all add: directive_def parse_width_def parse_precision_def parse_qualifier_def convert_def number_format_def
      flag_of_def is_digit_def Let_def)

lemma sint_bounds: "- (2 ^ 31) \<le> sint (w :: ee_u32)" "sint (w :: ee_u32) < 2 ^ 31"
  using sint_ge[of w] sint_lt[of w] by simp_all

lemma parseval_decimal:
  "parseval (numeral_string 10 n) = of_nat n" "parseval (45 # numeral_string 10 n) = - of_nat n"
  using parseval_dec[of "[]" n] by (simp_all add: not_digit_def deref_def scaled_def)

lemma of_nat_abs_sint:
  "sint (w :: ee_u32) < 0 \<Longrightarrow> - of_nat (nat \<bar>sint w\<bar>) = w" "0 \<le> sint (w :: ee_u32) \<Longrightarrow> of_nat (nat \<bar>sint w\<bar>) = w"
proof -
  have of_nat: "(of_nat n :: ee_u32) = word_of_int (int n)" for n by simp
  show "sint w < 0 \<Longrightarrow> - of_nat (nat \<bar>sint w\<bar>) = w"
    by (subst of_nat) (simp flip: of_int_minus del: of_nat_nat of_int_of_nat_eq)
  show "0 \<le> sint w \<Longrightarrow> of_nat (nat \<bar>sint w\<bar>) = w"
    by (subst of_nat) (simp del: of_nat_nat of_int_of_nat_eq)
qed

lemmas number_texts = number_spec_def sign_text_def prefix_text_def numeral_text_string Let_def


section \<open>Strings\<close>

lemma strnlen_eq:
  "strnlen s n = (let j = min (length (takeWhile (\<lambda>c. c \<noteq> 0) s)) (unat n) in if j < length s then Some j else None)"
proof (induction s n rule: strnlen.induct)
  case (1 n)
  then show ?case by simp
next
  case (2 c s n)
  show ?case
  proof (cases "c \<noteq> 0 \<and> n \<noteq> 0")
    case True
    then have "unat n = Suc (unat (n - 1))" using unat_minus_one[of n] by (simp add: unat_gt_0)
    then show ?thesis using 2 True by (simp add: Let_def)
  next
    case False
    then show ?thesis by auto
  qed
qed

lemma fill_loop_eq:
  "0 \<le> len \<Longrightarrow> - 2 \<le> w \<Longrightarrow> w < 2 ^ 31 \<Longrightarrow>
   fill_loop len w = Some (replicate (nat (w - len)) 32, if len < w then len - 1 else w - 1)"
  by (simp add: fill_loop_def int32_def)

lemma put_string_eq:
  assumes "- 1 \<le> width" "width < 2 ^ 31"
  shows "put_string width precision flags (Some s) =
    (let text = take (unat (word_of_int precision :: ee_u32)) (takeWhile (\<lambda>c. c \<noteq> 0) s);
         fill = replicate (nat (width - int (length text))) 32
     in if length text < length s then Some (if flag flags LEFT then text @ fill else fill @ text) else None)"
proof -
  define j where "j = min (length (takeWhile (\<lambda>c. c \<noteq> 0) s)) (unat (word_of_int precision :: ee_u32))"
  let ?n = "unat (word_of_int precision :: ee_u32)"
  have tw: "take ?n (takeWhile (\<lambda>c. c \<noteq> 0) s) = take j s"
    by (subst takeWhile_eq_take) (simp add: j_def min.commute)
  have le: "j \<le> length s" using length_takeWhile_le[of "\<lambda>c. c \<noteq> 0" s] by (simp add: j_def)
  have len: "strnlen s (word_of_int precision) = (if j < length s then Some j else None)"
    by (simp only: strnlen_eq Let_def j_def[symmetric])
  show ?thesis
  proof (cases "j < length s")
    case True
    then have "length (take j s) = j" by simp
    then show ?thesis
      using True len assms by (cases "flag flags LEFT") (simp_all add: put_string_def tw Let_def fill_loop_eq)
  next
    case False
    then have "length (take j s) = length s" using le by simp
    then show ?thesis using False len by (simp add: put_string_def tw Let_def)
  qed
qed

text \<open>C38: \<open>%s\<close> writes the characters up to the terminator or the precision, padded to the width; the
  memory must hold one character more than is written, also where the precision ends the text:
  \<open>strnlen\<close> reads the next character before it tests the count, so a complete array of as many
  characters as the precision is read beyond its end.\<close>

theorem string_layout:
  assumes "- 1 \<le> width" "width < 2 ^ 31" "0 \<le> precision" "precision < 2 ^ 31"
  shows "put_string width precision flags (Some s) =
    (let text = take (nat precision) (takeWhile (\<lambda>c. c \<noteq> 0) s);
         fill = replicate (nat (width - int (length text))) 32
     in if length text < length s then Some (if flag flags LEFT then text @ fill else fill @ text) else None)"
proof -
  have "unat (word_of_int precision :: ee_u32) = nat precision"
    using assms by (simp add: unsigned_of_int take_bit_int_eq_self)
  then show ?thesis unfolding put_string_eq[OF assms(1,2)] by simp
qed

theorem string_layout_witness:
  "put_string 4 2 0 (Some [97, 98, 99]) = Some [32, 32, 97, 98] \<and> put_string 4 2 0 (Some [97, 98]) = None"
  using string_layout[of 4 2 0 "[97, 98, 99]"] string_layout[of 4 2 0 "[97, 98]"] by (simp add: replicate_2)

section \<open>Text and buffer\<close>

lemma ee_vsprintf_plain:
  "\<forall>c\<in>set t. c \<noteq> 0 \<and> c \<noteq> 37 \<Longrightarrow> ee_vsprintf F (t @ fmt) args = map_option ((@) t) (ee_vsprintf F fmt args)"
  by (cases "ee_vsprintf F fmt args"; induction t) auto

lemma directive_string:
  "ee_vsprintf F (37 # 115 # fmt) (VStr s # args) = do {
     out \<leftarrow> put_string (- 1) (- 1) 0 s;
     rest \<leftarrow> ee_vsprintf F fmt args;
     Some (out @ rest)
   }"
  by (simp add: directive_def parse_width_def parse_precision_def parse_qualifier_def convert_def flag_of_def
      is_digit_def Let_def Option.bind_assoc)

text \<open>A format of plain text and one \<open>%s\<close> sends the text and the string and returns their length, when
  both fit into the 255 characters of the local buffer; longer output overflows it.\<close>

theorem printf_text_and_string:
  assumes "\<forall>c\<in>set t. c \<noteq> 0 \<and> c \<noteq> 37" "\<forall>c\<in>set s. c \<noteq> 0"
  shows "ee_printf F (t @ 37 # 115 # 0 # fmt) (VStr (Some (s @ 0 # mem)) # args) =
    (if length t + length s < 256 then Some (of_nat (length t + length s), t @ s) else None)"
proof -
  define n where "n = unat (- 1 :: ee_u32)"
  have "n = 4294967295" by (simp add: n_def unsigned_minus_1_eq_mask mask_eq_exp_minus_1)
  then have n: "256 \<le> n" by simp
  have "takeWhile (\<lambda>c. c \<noteq> 0) (s @ 0 # mem) = s" using assms(2) by simp
  then have "ee_vsprintf F (t @ 37 # 115 # 0 # fmt) (VStr (Some (s @ 0 # mem)) # args) = Some (t @ take n s)"
    unfolding ee_vsprintf_plain[OF assms(1)] directive_string
    by (simp add: put_string_eq n_def[symmetric] Let_def)
  moreover have sent: "takeWhile (\<lambda>c. c \<noteq> 0) s = s" "\<forall>c\<in>set t. c \<noteq> 0"
    using assms by (auto simp: takeWhile_eq_all_conv)
  ultimately show ?thesis using n by (auto simp: ee_printf_def Let_def takeWhile_append sent min_def split: if_splits)
qed

theorem printf_text_and_string_witness:
  "ee_printf F [97, 58, 37, 115, 0] [VStr (Some [98, 99, 0])] = Some (4, [97, 58, 98, 99])"
  using printf_text_and_string[of "[97, 58]" "[98, 99]" F "[]" "[]" "[]"] by simp

section \<open>Rounding\<close>

definition digits_value :: "ee_u8 list \<Rightarrow> nat" where
  "digits_value ds = foldl (\<lambda>v d. v * 10 + (unat d - 48)) 0 ds"

definition decimal_chars :: "ee_u8 list \<Rightarrow> bool" where
  "decimal_chars ds \<longleftrightarrow> (\<forall>d\<in>set ds. 48 \<le> d \<and> d \<le> 57)"

lemma digits_value_simps [simp]:
  "digits_value [] = 0" "digits_value (ds @ [d]) = digits_value ds * 10 + (unat d - 48)"
  by (simp_all add: digits_value_def)

lemma decimal_chars_simps [simp]:
  "decimal_chars []" "decimal_chars (ds @ es) \<longleftrightarrow> decimal_chars ds \<and> decimal_chars es"
  "decimal_chars (d # ds) \<longleftrightarrow> 48 \<le> d \<and> d \<le> 57 \<and> decimal_chars ds"
  by (auto simp: decimal_chars_def)

lemma decimal_chars_replicate [simp]: "decimal_chars (replicate n 48)"
  by (simp add: decimal_chars_def)

lemma digits_value_power [simp]: "digits_value (49 # replicate n 48) = 10 ^ n"
proof (induction n)
  case 0
  then show ?case by (simp add: digits_value_def)
next
  case (Suc n)
  have "49 # replicate (Suc n) 48 = (49 # replicate n 48) @ [48 :: ee_u8]" by (simp add: replicate_append_same)
  then show ?case using Suc by (simp only: digits_value_simps) simp
qed

text \<open>The buffer, the end and the point when the carry leaves the first digit.\<close>

definition overflowed :: "bool \<Rightarrow> nat \<Rightarrow> nat \<Rightarrow> int \<Rightarrow> ee_u8 list \<Rightarrow> nat \<times> int \<times> ee_u8 list" where
  "overflowed eflag q p decpt buf =
     (let b = 49 # replicate q 48 @ drop (Suc q) buf
      in if eflag then (p, decpt + 1, b) else (Suc p, decpt + 1, if p > 0 then b[p := 48] else b))"

lemma carry_stop: "q < length buf \<Longrightarrow> buf ! q \<le> 57 \<Longrightarrow> carry eflag q p decpt buf = Some (p, decpt, buf)"
  by (subst carry.simps) (auto dest: leD)

lemma carry_zero:
  assumes "buf \<noteq> []" "buf ! 0 > 57" "p < length buf" "- (2 ^ 31) \<le> decpt" "decpt < 2 ^ 31 - 1"
  shows "carry eflag 0 p decpt buf = Some (overflowed eflag 0 p decpt buf)"
  using assms by (cases buf) (auto simp: carry.simps int32_def overflowed_def Let_def)

lemma carry_Suc:
  "Suc q < length buf \<Longrightarrow> buf ! Suc q > 57 \<Longrightarrow>
   carry eflag (Suc q) p decpt buf = carry eflag q p decpt (buf[Suc q := 48, q := buf ! q + 1])"
  by (subst carry.simps) simp

lemma carry_rounds:
  assumes "q < length buf" "buf ! q > 57" "decimal_chars (take q buf)" "p < length buf"
    and "- (2 ^ 31) \<le> decpt" "decpt < 2 ^ 31 - 1"
  shows "(\<exists>ds. length ds = q \<and> decimal_chars ds \<and> digits_value ds = digits_value (take q buf) + 1
      \<and> carry eflag q p decpt buf = Some (p, decpt, ds @ 48 # drop (Suc q) buf))
    \<or> (digits_value (take q buf) + 1 = 10 ^ q \<and> carry eflag q p decpt buf = Some (overflowed eflag q p decpt buf))"
  using assms
proof (induction q arbitrary: buf)
  case 0
  then show ?case by (intro disjI2) (simp add: carry_zero)
next
  case (Suc q)
  define d where "d = buf ! q"
  define b where "b = buf[Suc q := 48, q := d + 1]"
  have take: "take (Suc q) buf = take q buf @ [d]" using Suc.prems(1) by (simp add: d_def take_Suc_conv_app_nth)
  have d: "48 \<le> unat d" "unat d \<le> 57" "decimal_chars (take q buf)"
    using Suc.prems(3) by (simp_all add: take word_le_nat_alt)
  have step: "carry eflag (Suc q) p decpt buf = carry eflag q p decpt b"
    using Suc.prems by (simp add: carry_Suc b_def d_def)
  have b: "take q b = take q buf" "b ! q = d + 1" "drop (Suc q) b = 48 # drop (Suc (Suc q)) buf" "length b = length buf"
    using Suc.prems(1) by (simp_all add: b_def drop_update_cancel Cons_nth_drop_Suc[symmetric] drop_update_swap)
  have d1: "unat (d + 1) = unat d + 1" using d by (simp add: unat_plus_if_size word_size)
  show ?case
  proof (cases "unat d < 57")
    case True
    then have "b ! q \<le> 57" using b d1 by (simp add: word_le_nat_alt)
    then have "carry eflag q p decpt b = Some (p, decpt, b)" using Suc.prems(1) b by (intro carry_stop) auto
    moreover have "b = (take q buf @ [d + 1]) @ 48 # drop (Suc (Suc q)) buf"
      using id_take_nth_drop[of q b] Suc.prems(1) b by simp
    ultimately show ?thesis
      using step d d1 True Suc.prems(1)
      by (intro disjI1 exI[of _ "take q buf @ [d + 1]"]) (auto simp: take word_le_nat_alt)
  next
    case False
    then have nine: "unat d = 57" using d by simp
    then have "57 < b ! q" using b d1 by (simp add: word_less_nat_alt)
    then have IH: "(\<exists>ds. length ds = q \<and> decimal_chars ds \<and> digits_value ds = digits_value (take q b) + 1
        \<and> carry eflag q p decpt b = Some (p, decpt, ds @ 48 # drop (Suc q) b))
      \<or> (digits_value (take q b) + 1 = 10 ^ q \<and> carry eflag q p decpt b = Some (overflowed eflag q p decpt b))"
      using Suc.prems d b by (intro Suc.IH) auto
    then show ?thesis
    proof (elim disjE exE conjE)
      fix ds
      assume "length ds = q" "decimal_chars ds" "digits_value ds = digits_value (take q b) + 1"
        "carry eflag q p decpt b = Some (p, decpt, ds @ 48 # drop (Suc q) b)"
      then show ?thesis
        using step b nine by (intro disjI1 exI[of _ "ds @ [48]"]) (simp add: take)
    next
      assume "digits_value (take q b) + 1 = 10 ^ q" "carry eflag q p decpt b = Some (overflowed eflag q p decpt b)"
      moreover have "overflowed eflag q p decpt b = overflowed eflag (Suc q) p decpt buf"
        by (simp add: overflowed_def b replicate_app_Cons_same)
      ultimately show ?thesis using step b nine by (intro disjI2) (simp add: take)
    qed
  qed
qed

text \<open>What the overflow leaves, with one digit fewer kept where the number of digits is fixed.\<close>

lemma overflowed_value:
  assumes "n < length buf" "eflag \<longrightarrow> 0 < n"
  shows "\<exists>p b. overflowed eflag n n decpt buf = (p, decpt + 1, b) \<and> length b = length buf \<and> decimal_chars (take p b)
    \<and> p = n + (if eflag then 0 else 1) \<and> digits_value (take p b) * (if eflag then 10 else 1) = 10 ^ n"
proof -
  define b where "b = 49 # replicate n 48 @ drop (Suc n) buf"
  have b: "length b = length buf" "take (Suc n) b = 49 # replicate n 48"
    using assms(1) by (simp_all add: b_def)
  have last: "(if n > 0 then b[n := 48] else b) = b"
    by (cases n) (simp_all add: b_def list_update_append replicate_append_same[symmetric])
  show ?thesis
  proof (cases eflag)
    case True
    then obtain m where m: "n = Suc m" using assms(2) by (cases n) auto
    have "take n b = 49 # replicate m 48"
      by (simp only: b_def m take_Suc_Cons take_append take_replicate) (simp add: min_def)
    moreover have "overflowed eflag n n decpt buf = (n, decpt + 1, b)" using True by (simp add: overflowed_def b_def)
    ultimately show ?thesis using True b(1) by (intro exI[of _ n] exI[of _ b]) (simp add: m)
  next
    case False
    then show ?thesis using b last by (simp add: overflowed_def b_def[symmetric])
  qed
qed



end
