(* ===== verification/Report_Print.thy ===== *)
theory Report_Print
  imports Core_Main_Props Ee_Printf_Props
begin

text \<open>
  The report of \<open>core_main.c\<close> through \<open>ee_printf\<close> of \<open>ee_printf.c\<close>, on a port that uses it: every line has
  arguments of the types of its directives and fits into the buffer.
\<close>

section \<open>Lines\<close>

definition bytes :: "string \<Rightarrow> ee_u8 list" where
  "bytes s = map of_char s"

fun to_arg :: "print_arg \<Rightarrow> 'd va_arg" where
  "to_arg (PNum x) = VInt (word_of_int x)"
| "to_arg (PStr s) = VStr (Some (bytes s @ [0]))"

definition print_line :: "'d float_ops \<Rightarrow> print_call \<Rightarrow> (ee_u32 \<times> ee_u8 list) option" where
  "print_line F c = ee_printf F (bytes (fst c) @ [0]) (map to_arg (snd c))"

text \<open>The output of a format is defined and has at most \<open>n\<close> characters.\<close>

definition fits :: "'d float_ops \<Rightarrow> ee_u8 list \<Rightarrow> 'd va_arg list \<Rightarrow> nat \<Rightarrow> bool" where
  "fits F fmt args n \<longleftrightarrow> (\<exists>out. ee_vsprintf F fmt args = Some out \<and> length out \<le> n)"

lemma fits_line: "fits F fmt args n \<Longrightarrow> n < 256 \<Longrightarrow> ee_printf F fmt args \<noteq> None"
  by (auto simp: fits_def ee_printf_def Let_def)

lemma fits_end: "fits F (0 # fmt) args n"
  by (simp add: fits_def)

lemma fits_char: "c \<noteq> 0 \<Longrightarrow> c \<noteq> 37 \<Longrightarrow> fits F fmt args n \<Longrightarrow> fits F (c # fmt) args (Suc n)"
  by (auto simp: fits_def)

lemma fits_text: "\<forall>c\<in>set t. c \<noteq> 0 \<and> c \<noteq> 37 \<Longrightarrow> fits F fmt args n \<Longrightarrow> fits F (t @ fmt) args (length t + n)"
  by (auto simp: fits_def ee_vsprintf_plain)

lemma number_length:
  assumes "base = 10 \<or> base = 16" "- 1 \<le> width" "width \<le> 32" "precision \<le> 32" "\<not> (bit t 1 \<and> sint w = - (2 ^ 31))"
  shows "\<exists>out. number (sint (w :: ee_u32)) base width precision t = Some out \<and> length out \<le> 35"
proof -
  have "length (numeral_text (sint w) base t) \<le> 32"
    using assms(1) sint_bounds[of w] by (intro length_numeral_text) auto
  moreover have "length (prefix_text base t) \<le> 2" by (simp add: prefix_text_def)
  moreover have "number (sint w) base width precision t = number_spec (sint w) base width precision t"
    using assms sint_bounds[of w] by (intro number_eq_spec) auto
  ultimately show ?thesis
    using assms length_number_spec[of "sint w" base width precision t] length_sign_text[of "sint w" t]
    by (cases "number_spec (sint w) base width precision t") (auto split: if_splits)
qed

lemma fits_number:
  assumes "directive F fmt (VInt w # args) = do { out \<leftarrow> number (sint w) base width precision t; Some (out, fmt', args) }"
    and "base = 10 \<or> base = 16" "- 1 \<le> width" "width \<le> 32" "precision \<le> 32" "\<not> (bit t 1 \<and> sint w = - (2 ^ 31))"
    and "fits F fmt' args n"
  shows "fits F (37 # fmt) (VInt w # args) (n + 35)"
proof -
  obtain out where "number (sint w) base width precision t = Some out" "length out \<le> 35"
    using number_length[OF assms(2-6)] by blast
  then show ?thesis using assms(1,7) by (auto simp: fits_def)
qed

lemmas directive_defs = directive_def parse_width_def parse_precision_def parse_qualifier_def convert_def
  number_format_def flag_of_def is_digit_def Let_def

lemma fits_u: "fits F fmt args n \<Longrightarrow> fits F (37 # 117 # fmt) (VInt w # args) (n + 35)"
  by (rule fits_number[where t = 0 and base = 10 and width = "- 1" and precision = "- 1"]) (simp_all add: directive_defs)

lemma fits_lu: "fits F fmt args n \<Longrightarrow> fits F (37 # 108 # 117 # fmt) (VInt w # args) (n + 35)"
  by (rule fits_number[where t = 0 and base = 10 and width = "- 1" and precision = "- 1"]) (simp_all add: directive_defs)

lemma fits_d: "sint w \<noteq> - (2 ^ 31) \<Longrightarrow> fits F fmt args n \<Longrightarrow> fits F (37 # 100 # fmt) (VInt w # args) (n + 35)"
  by (rule fits_number[where t = SIGN and base = 10 and width = "- 1" and precision = "- 1"]) (simp_all add: directive_defs)

lemma fits_04x: "fits F fmt args n \<Longrightarrow> fits F (37 # 48 # 52 # 120 # fmt) (VInt w # args) (n + 35)"
  by (rule fits_number[where t = ZEROPAD and base = 16 and width = 4 and precision = "- 1"])
    (simp_all add: directive_defs ZEROPAD_def)

lemma fits_s:
  assumes "\<forall>c\<in>set s. c \<noteq> 0" "fits F fmt args n"
  shows "fits F (37 # 115 # fmt) (VStr (Some (s @ [0])) # args) (length s + n)"
proof -
  have "takeWhile (\<lambda>c. c \<noteq> 0) (s @ [0]) = s" using assms(1) by simp
  then have "put_string (- 1) (- 1) 0 (Some (s @ [0])) = Some (take (unat (word_of_int (- 1) :: ee_u32)) s)"
    by (simp add: put_string_eq Let_def)
  moreover obtain out where "ee_vsprintf F fmt args = Some out" "length out \<le> n" using assms(2) by (auto simp: fits_def)
  ultimately show ?thesis unfolding fits_def directive_string by simp
qed

text \<open>A bound for the output of a format and its arguments, where they fit together.\<close>

fun num_arg :: "print_arg list \<Rightarrow> int option" where
  "num_arg (PNum x # args) = Some x"
| "num_arg _ = None"

fun str_arg :: "print_arg list \<Rightarrow> string option" where
  "str_arg (PStr s # args) = Some s"
| "str_arg _ = None"

function line_bound :: "ee_u8 list \<Rightarrow> print_arg list \<Rightarrow> nat option" where
  "line_bound [] args = Some 0"
| "line_bound (c # fmt) args =
     (if c = 0 then None
      else if c \<noteq> 37 then map_option Suc (line_bound fmt args)
      else if take 1 fmt = [117] then do { x \<leftarrow> num_arg args; n \<leftarrow> line_bound (drop 1 fmt) (tl args); Some (n + 35) }
      else if take 2 fmt = [108, 117] then do { x \<leftarrow> num_arg args; n \<leftarrow> line_bound (drop 2 fmt) (tl args); Some (n + 35) }
      else if take 3 fmt = [48, 52, 120] then do { x \<leftarrow> num_arg args; n \<leftarrow> line_bound (drop 3 fmt) (tl args); Some (n + 35) }
      else if take 1 fmt = [100] then do {
        x \<leftarrow> num_arg args;
        n \<leftarrow> line_bound (drop 1 fmt) (tl args);
        if sint (word_of_int x :: ee_u32) = - (2 ^ 31) then None else Some (n + 35)
      }
      else if take 1 fmt = [115] then do {
        s \<leftarrow> str_arg args;
        n \<leftarrow> line_bound (drop 1 fmt) (tl args);
        if 0 \<in> set (bytes s) then None else Some (length s + n)
      }
      else None)"
  by pat_completeness auto
termination by (relation "measure (\<lambda>(fmt, args). length fmt)") auto

fun_cases num_argE: "num_arg args = Some x"
fun_cases str_argE: "str_arg args = Some s"

lemma num_arg_Some: "num_arg args = Some x \<longleftrightarrow> (\<exists>as. args = PNum x # as)"
  by (auto elim: num_argE)

lemma str_arg_Some: "str_arg args = Some s \<longleftrightarrow> (\<exists>as. args = PStr s # as)"
  by (auto elim: str_argE)

lemma take_drop_eq: "take k fmt = d \<Longrightarrow> fmt = d @ drop k fmt"
  by (metis append_take_drop_id)

lemma length_bytes [simp]: "length (bytes s) = length s"
  by (simp add: bytes_def)

declare line_bound.simps [simp del]

lemma fits_str: "0 \<notin> set (bytes s) \<Longrightarrow> fits F fmt args n \<Longrightarrow> fits F (37 # 115 # fmt) (VStr (Some (bytes s @ [0])) # args) (length s + n)"
  using fits_s[of "bytes s" F fmt args n] by auto

lemma line_bound_char: "c \<noteq> 37 \<Longrightarrow> line_bound (c # fmt) args = (if c = 0 then None else map_option Suc (line_bound fmt args))"
  by (simp add: line_bound.simps)

lemma line_bound_num:
  "line_bound (37 # 117 # fmt) args = do { x \<leftarrow> num_arg args; n \<leftarrow> line_bound fmt (tl args); Some (n + 35) }"
  "line_bound (37 # 108 # 117 # fmt) args = do { x \<leftarrow> num_arg args; n \<leftarrow> line_bound fmt (tl args); Some (n + 35) }"
  "line_bound (37 # 48 # 52 # 120 # fmt) args = do { x \<leftarrow> num_arg args; n \<leftarrow> line_bound fmt (tl args); Some (n + 35) }"
  "line_bound (37 # 100 # fmt) args = do {
     x \<leftarrow> num_arg args;
     n \<leftarrow> line_bound fmt (tl args);
     if sint (word_of_int x :: ee_u32) = - (2 ^ 31) then None else Some (n + 35)
   }"
  "line_bound (37 # 115 # fmt) args = do {
     s \<leftarrow> str_arg args;
     n \<leftarrow> line_bound fmt (tl args);
     if 0 \<in> set (bytes s) then None else Some (length s + n)
   }"
  by (subst line_bound.simps; simp)+

lemmas line_bound_rules = line_bound.simps(1) line_bound_char line_bound_num

lemma take_cases: "take (Suc n) fmt = x # d \<longleftrightarrow> (\<exists>f. fmt = x # f \<and> take n f = d)"
  by (cases fmt) auto

lemma directive_cases:
  assumes "line_bound (37 # fmt) args = Some n"
  obtains f where "fmt = 117 # f" | f where "fmt = 108 # 117 # f" | f where "fmt = 48 # 52 # 120 # f"
    | f where "fmt = 100 # f" | f where "fmt = 115 # f"
  using assms by (subst (asm) line_bound.simps) (auto simp: take_cases numeral_eq_Suc split: if_splits)

lemma line_bound_fits: "line_bound fmt args = Some n \<Longrightarrow> fits F (fmt @ [0]) (map to_arg args) n"
proof (induction "length fmt" arbitrary: fmt args n rule: less_induct)
  case less
  show ?case
  proof (cases fmt)
    case Nil
    then show ?thesis by (simp add: fits_end)
  next
    case (Cons c g)
    show ?thesis
    proof (cases "c = 37")
      case False
      then obtain m where m: "c \<noteq> 0" "line_bound g args = Some m" "n = Suc m"
        using less.prems Cons by (auto simp: line_bound_char split: if_splits)
      have "fits F (g @ [0]) (map to_arg args) m" by (rule less.hyps) (use Cons m in simp_all)
      then show ?thesis using Cons m False by (simp add: fits_char)
    next
      case True
      have IH: "line_bound f as = Some m \<Longrightarrow> length f \<le> length g \<Longrightarrow> fits F (f @ [0]) (map to_arg as) m" for f as m
        by (rule less.hyps) (use Cons in simp_all)
      have "line_bound (37 # g) args = Some n" using less.prems Cons True by simp
      from directive_cases[OF this] show ?thesis
        unfolding Cons True
        by cases
          (use less.prems Cons True IH in \<open>auto simp: line_bound_num num_arg_Some str_arg_Some split: bind_splits if_splits
            intro!: fits_u fits_lu fits_d fits_04x fits_str\<close>)
    qed
  qed
qed

text \<open>A line is printed when its format fits.\<close>

definition printed :: "'d float_ops \<Rightarrow> print_call \<Rightarrow> bool" where
  "printed F c \<longleftrightarrow> print_line F c \<noteq> None"

definition short_line :: "print_call \<Rightarrow> bool" where
  "short_line c \<longleftrightarrow> (case line_bound (bytes (fst c)) (snd c) of Some n \<Rightarrow> n < 256 | None \<Rightarrow> False)"

lemma short_line_printed: "short_line c \<Longrightarrow> printed F c"
  using fits_line[OF line_bound_fits] by (auto simp: short_line_def printed_def print_line_def split: option.splits)

definition short_text :: "string \<Rightarrow> bool" where
  "short_text s \<longleftrightarrow> length s \<le> 180 \<and> 0 \<notin> set (bytes s)"

lemmas short_line_eval = short_line_def line_bound_rules bytes_def nl_def

lemma known_run_short: "c \<in> set (fst (known_run crc)) \<Longrightarrow> short_line c"
  by (auto simp: known_run_def short_line_eval split: if_splits)

lemma verdict_short: "c \<in> set (verdict e) \<Longrightarrow> short_line c"
  by (auto simp: verdict_def validated_def errors_detected_def cannot_validate_def short_line_eval split: if_splits)

lemma check_crc_short:
  "what = ''list'' \<or> what = ''matrix'' \<or> what = ''state'' \<Longrightarrow> c \<in> set (fst (check_crc what i e crc k err)) \<Longrightarrow> short_line c"
  by (auto simp: check_crc_def short_line_eval split: if_splits)

lemmas check_crc_shorts =
  check_crc_short[OF disjI1, OF refl] check_crc_short[OF disjI2, OF disjI1, OF refl] check_crc_short[OF disjI2, OF disjI2, OF refl]

lemma check_context_short:
  "check_context k i res = Some (out, res') \<Longrightarrow> c \<in> set out \<Longrightarrow> short_line c"
  by (auto simp: check_context_def Let_def split_beta simp del: rd_in split: bind_splits dest: check_crc_shorts)

lemma check_context_iterations: "check_context k i res = Some (out, res') \<Longrightarrow> r_iterations res' = r_iterations res"
  by (auto simp: check_context_def Let_def split_beta split: bind_splits)

lemma sint_min: "sint (x :: ee_u32) = - (2 ^ 31) \<Longrightarrow> unat x = 2 ^ 31"
proof -
  assume "sint x = - (2 ^ 31)"
  then have "x = 0x80000000" by (intro signed_word_eqI) simp
  then show ?thesis by simp
qed

lemma small_word: "unat (x :: ee_u32) < 2 ^ 31 \<Longrightarrow> sint x \<noteq> - (2 ^ 31)"
  using sint_min by fastforce

lemma report_time_short_lines:
  assumes "report_time [res] ticks e = Some (out, e')" "unat (r_iterations res) < 2 ^ 31" "c \<in> set out"
  shows "short_line c"
proof -
  have secs: "unat (time_in_secs ticks) < 2 ^ 31" using time_in_secs_bound[of ticks] by simp
  have "unat (r_iterations res div time_in_secs ticks) < 2 ^ 31"
    unfolding unat_div by (rule le_less_trans[OF div_le_dividend assms(2)])
  then show ?thesis
    using assms(1,3) small_word[OF secs] small_word
    by (auto simp: report_time_def Let_def short_line_eval split: if_splits)
qed

lemma report_crcs_short:
  "what \<in> {''crclist      '', ''crcmatrix    '', ''crcstate     '', ''crcfinal     ''} \<Longrightarrow> c \<in> set (report_crcs what f [res]) \<Longrightarrow> short_line c"
  by (auto simp: report_crcs_def short_line_eval)

definition short_config :: "report_config \<Rightarrow> bool" where
  "short_config rcfg \<longleftrightarrow> short_text (COMPILER_VERSION rcfg) \<and> short_text (COMPILER_FLAGS rcfg)
     \<and> short_text (MEM_LOCATION rcfg) \<and> (\<forall>m. PARALLEL_METHOD rcfg = Some m \<longrightarrow> short_text m)"

lemma short_text_lines:
  assumes "short_text s"
  shows "short_line (''Compiler version : %s'' @ nl, [PStr s])" "short_line (''Compiler flags   : %s'' @ nl, [PStr s])"
    "short_line (''Memory location  : %s'' @ nl, [PStr s])" "short_line (''Parallel %s : %d'' @ nl, [PStr s, PNum 1])"
  using assms by (simp_all add: short_line_def line_bound_rules nl_def short_text_def bytes_def)

lemma report_run_short:
  assumes "report_run rcfg [res] crc = Some out" "short_config rcfg" "c \<in> set out"
  shows "short_line c"
proof -
  have iterations: "short_line (''Iterations       : %lu'' @ nl, [PNum x])" for x by (simp add: short_line_eval)
  have seedcrc: "short_line (''seedcrc          : 0x%04x'' @ nl, [PNum x])" for x by (simp add: short_line_eval)
  have crcs: "list_all short_line (report_crcs ''crclist      '' f [res])" "list_all short_line (report_crcs ''crcmatrix    '' f [res])"
    "list_all short_line (report_crcs ''crcstate     '' f [res])" "list_all short_line (report_crcs ''crcfinal     '' f [res])" for f
    unfolding list_all_iff by (intro ballI, rule report_crcs_short, simp_all)+
  have config: "short_text (COMPILER_VERSION rcfg)" "short_text (COMPILER_FLAGS rcfg)" "short_text (MEM_LOCATION rcfg)"
    "PARALLEL_METHOD rcfg = Some m \<Longrightarrow> short_text m" for m
    using assms(2) by (simp_all add: short_config_def)
  have lists: "list_all short_line (if b then xs else [])" if "list_all short_line xs" for b xs using that by simp
  have par: "list_all short_line (case PARALLEL_METHOD rcfg of
      Some m \<Rightarrow> [(''Parallel %s : %d'' @ nl, [PStr m, PNum 1])] | None \<Rightarrow> [])"
    using config(4) short_text_lines(4) by (cases "PARALLEL_METHOD rcfg") (simp_all only: option.case list.pred_inject simp_thms)
  have "rd [res] 0 = Some res" "uint (of_nat (length [res]) :: ee_u32) = 1" by simp_all
  then have "list_all short_line out"
    using assms(1) iterations seedcrc crcs lists par config(1-3)[THEN short_text_lines(1)] config(1-3)[THEN short_text_lines(2)]
      config(1-3)[THEN short_text_lines(3)]
    by (simp only: report_run_def report_contexts_def Let_def Option.bind.simps option.inject) (elim subst, simp only: list_all_append list.pred_inject simp_thms)
  then show ?thesis using assms(3) by (simp only: list_all_iff)
qed



end
