(* ===== verification/Encoding.thy ===== *)
theory Encoding
  imports Util
begin

text \<open>
  \<open>encoding.h\<close> of the bare-metal port: the fields of the control registers and of a page table
  entry, the instructions with their match and mask words, the numbers of the control registers and
  the causes of exceptions.  A block of constants is a table of names and values in the order of the
  source; the lists that the macros \<open>DECLARE_INSN\<close>, \<open>DECLARE_CSR\<close> and \<open>DECLARE_CAUSE\<close> go through are
  these tables, the macro being a parameter.
\<close>

section \<open>Fields of registers\<close>

definition mstatus_fields :: "(string \<times> 64 word) list" where
  "mstatus_fields = [
     (''MSTATUS_UIE'', 0x1),
     (''MSTATUS_SIE'', 0x2),
     (''MSTATUS_HIE'', 0x4),
     (''MSTATUS_MIE'', 0x8),
     (''MSTATUS_UPIE'', 0x10),
     (''MSTATUS_SPIE'', 0x20),
     (''MSTATUS_HPIE'', 0x40),
     (''MSTATUS_MPIE'', 0x80),
     (''MSTATUS_SPP'', 0x100),
     (''MSTATUS_HPP'', 0x600),
     (''MSTATUS_MPP'', 0x1800),
     (''MSTATUS_FS'', 0x6000),
     (''MSTATUS_XS'', 0x18000),
     (''MSTATUS_MPRV'', 0x20000),
     (''MSTATUS_SUM'', 0x40000),
     (''MSTATUS_MXR'', 0x80000),
     (''MSTATUS_TVM'', 0x100000),
     (''MSTATUS_TW'', 0x200000),
     (''MSTATUS_TSR'', 0x400000),
     (''MSTATUS32_SD'', 0x80000000),
     (''MSTATUS_UXL'', 0x300000000),
     (''MSTATUS_SXL'', 0xc00000000),
     (''MSTATUS64_SD'', 0x8000000000000000)]"

definition sstatus_fields :: "(string \<times> 64 word) list" where
  "sstatus_fields = [
     (''SSTATUS_UIE'', 0x1),
     (''SSTATUS_SIE'', 0x2),
     (''SSTATUS_UPIE'', 0x10),
     (''SSTATUS_SPIE'', 0x20),
     (''SSTATUS_SPP'', 0x100),
     (''SSTATUS_FS'', 0x6000),
     (''SSTATUS_XS'', 0x18000),
     (''SSTATUS_SUM'', 0x40000),
     (''SSTATUS_MXR'', 0x80000),
     (''SSTATUS32_SD'', 0x80000000),
     (''SSTATUS_UXL'', 0x300000000),
     (''SSTATUS64_SD'', 0x8000000000000000)]"

definition dcsr_fields :: "(string \<times> 32 word) list" where
  "dcsr_fields = [
     (''DCSR_XDEBUGVER'', 0xc0000000),
     (''DCSR_NDRESET'', 0x20000000),
     (''DCSR_FULLRESET'', 0x10000000),
     (''DCSR_EBREAKM'', 0x8000),
     (''DCSR_EBREAKH'', 0x4000),
     (''DCSR_EBREAKS'', 0x2000),
     (''DCSR_EBREAKU'', 0x1000),
     (''DCSR_STOPCYCLE'', 0x400),
     (''DCSR_STOPTIME'', 0x200),
     (''DCSR_CAUSE'', 0x1c0),
     (''DCSR_DEBUGINT'', 0x20),
     (''DCSR_HALT'', 0x8),
     (''DCSR_STEP'', 0x4),
     (''DCSR_PRV'', 0x3)]"

text \<open>The first three depend on the width of the registers.\<close>

definition mcontrol_fields :: "nat \<Rightarrow> (string \<times> 64 word) list" where
  "mcontrol_fields xlen = [
     (''MCONTROL_TYPE'', push_bit (xlen - 4) 0xf),
     (''MCONTROL_DMODE'', push_bit (xlen - 5) 1),
     (''MCONTROL_MASKMAX'', push_bit (xlen - 11) 0x3f),
     (''MCONTROL_SELECT'', 0x80000),
     (''MCONTROL_TIMING'', 0x40000),
     (''MCONTROL_ACTION'', 0x3f000),
     (''MCONTROL_CHAIN'', 0x800),
     (''MCONTROL_MATCH'', 0x780),
     (''MCONTROL_M'', 0x40),
     (''MCONTROL_H'', 0x20),
     (''MCONTROL_S'', 0x10),
     (''MCONTROL_U'', 0x8),
     (''MCONTROL_EXECUTE'', 0x4),
     (''MCONTROL_STORE'', 0x2),
     (''MCONTROL_LOAD'', 0x1)]"

definition irq_numbers :: "(string \<times> nat) list" where
  "irq_numbers = [
     (''IRQ_S_SOFT'', 1),
     (''IRQ_H_SOFT'', 2),
     (''IRQ_M_SOFT'', 3),
     (''IRQ_S_TIMER'', 5),
     (''IRQ_H_TIMER'', 6),
     (''IRQ_M_TIMER'', 7),
     (''IRQ_S_EXT'', 9),
     (''IRQ_H_EXT'', 10),
     (''IRQ_M_EXT'', 11),
     (''IRQ_COP'', 12),
     (''IRQ_HOST'', 13)]"

definition mip_fields :: "(string \<times> 32 word) list" where
  "mip_fields = [
     (''MIP_SSIP'', push_bit (the (map_of irq_numbers ''IRQ_S_SOFT'')) 1),
     (''MIP_HSIP'', push_bit (the (map_of irq_numbers ''IRQ_H_SOFT'')) 1),
     (''MIP_MSIP'', push_bit (the (map_of irq_numbers ''IRQ_M_SOFT'')) 1),
     (''MIP_STIP'', push_bit (the (map_of irq_numbers ''IRQ_S_TIMER'')) 1),
     (''MIP_HTIP'', push_bit (the (map_of irq_numbers ''IRQ_H_TIMER'')) 1),
     (''MIP_MTIP'', push_bit (the (map_of irq_numbers ''IRQ_M_TIMER'')) 1),
     (''MIP_SEIP'', push_bit (the (map_of irq_numbers ''IRQ_S_EXT'')) 1),
     (''MIP_HEIP'', push_bit (the (map_of irq_numbers ''IRQ_H_EXT'')) 1),
     (''MIP_MEIP'', push_bit (the (map_of irq_numbers ''IRQ_M_EXT'')) 1)]"

definition satp32_fields :: "(string \<times> 32 word) list" where
  "satp32_fields = [
     (''SATP32_MODE'', 0x80000000),
     (''SATP32_ASID'', 0x7fc00000),
     (''SATP32_PPN'', 0x3fffff)]"

definition satp64_fields :: "(string \<times> 64 word) list" where
  "satp64_fields = [
     (''SATP64_MODE'', 0xf000000000000000),
     (''SATP64_ASID'', 0xffff00000000000),
     (''SATP64_PPN'', 0xfffffffffff)]"

definition pte_fields :: "(string \<times> 32 word) list" where
  "pte_fields = [
     (''PTE_V'', 0x1),
     (''PTE_R'', 0x2),
     (''PTE_W'', 0x4),
     (''PTE_X'', 0x8),
     (''PTE_U'', 0x10),
     (''PTE_G'', 0x20),
     (''PTE_A'', 0x40),
     (''PTE_D'', 0x80),
     (''PTE_SOFT'', 0x300)]"

definition pte_field :: "string \<Rightarrow> 32 word" where
  "pte_field f = the (map_of pte_fields f)"

text \<open>An entry points to the next table when it is valid and allows no access itself.\<close>

definition PTE_TABLE :: "32 word \<Rightarrow> bool" where
  "PTE_TABLE pte \<longleftrightarrow>
     pte AND (pte_field ''PTE_V'' OR pte_field ''PTE_R'' OR pte_field ''PTE_W'' OR pte_field ''PTE_X'') = pte_field ''PTE_V''"

section \<open>Instructions\<close>

type_synonym insn_row = "string \<times> 32 word \<times> 32 word"

definition insn_rows_1 :: "insn_row list" where
  "insn_rows_1 = [
     (''beq'', 0x63, 0x707f),
     (''bne'', 0x1063, 0x707f),
     (''blt'', 0x4063, 0x707f),
     (''bge'', 0x5063, 0x707f),
     (''bltu'', 0x6063, 0x707f),
     (''bgeu'', 0x7063, 0x707f),
     (''jalr'', 0x67, 0x707f),
     (''jal'', 0x6f, 0x7f),
     (''lui'', 0x37, 0x7f),
     (''auipc'', 0x17, 0x7f),
     (''addi'', 0x13, 0x707f),
     (''slli'', 0x1013, 0xfc00707f),
     (''slti'', 0x2013, 0x707f),
     (''sltiu'', 0x3013, 0x707f),
     (''xori'', 0x4013, 0x707f),
     (''srli'', 0x5013, 0xfc00707f),
     (''srai'', 0x40005013, 0xfc00707f),
     (''ori'', 0x6013, 0x707f),
     (''andi'', 0x7013, 0x707f),
     (''add'', 0x33, 0xfe00707f),
     (''sub'', 0x40000033, 0xfe00707f),
     (''sll'', 0x1033, 0xfe00707f),
     (''slt'', 0x2033, 0xfe00707f),
     (''sltu'', 0x3033, 0xfe00707f),
     (''xor'', 0x4033, 0xfe00707f),
     (''srl'', 0x5033, 0xfe00707f),
     (''sra'', 0x40005033, 0xfe00707f),
     (''or'', 0x6033, 0xfe00707f),
     (''and'', 0x7033, 0xfe00707f),
     (''addiw'', 0x1b, 0x707f),
     (''slliw'', 0x101b, 0xfe00707f),
     (''srliw'', 0x501b, 0xfe00707f),
     (''sraiw'', 0x4000501b, 0xfe00707f),
     (''addw'', 0x3b, 0xfe00707f),
     (''subw'', 0x4000003b, 0xfe00707f),
     (''sllw'', 0x103b, 0xfe00707f),
     (''srlw'', 0x503b, 0xfe00707f),
     (''sraw'', 0x4000503b, 0xfe00707f),
     (''lb'', 0x3, 0x707f),
     (''lh'', 0x1003, 0x707f),
     (''lw'', 0x2003, 0x707f),
     (''ld'', 0x3003, 0x707f),
     (''lbu'', 0x4003, 0x707f),
     (''lhu'', 0x5003, 0x707f),
     (''lwu'', 0x6003, 0x707f),
     (''sb'', 0x23, 0x707f),
     (''sh'', 0x1023, 0x707f),
     (''sw'', 0x2023, 0x707f),
     (''sd'', 0x3023, 0x707f),
     (''fence'', 0xf, 0x707f),
     (''fence_i'', 0x100f, 0x707f),
     (''mul'', 0x2000033, 0xfe00707f),
     (''mulh'', 0x2001033, 0xfe00707f),
     (''mulhsu'', 0x2002033, 0xfe00707f),
     (''mulhu'', 0x2003033, 0xfe00707f),
     (''div'', 0x2004033, 0xfe00707f),
     (''divu'', 0x2005033, 0xfe00707f),
     (''rem'', 0x2006033, 0xfe00707f),
     (''remu'', 0x2007033, 0xfe00707f),
     (''mulw'', 0x200003b, 0xfe00707f),
     (''divw'', 0x200403b, 0xfe00707f),
     (''divuw'', 0x200503b, 0xfe00707f),
     (''remw'', 0x200603b, 0xfe00707f),
     (''remuw'', 0x200703b, 0xfe00707f),
     (''amoadd_w'', 0x202f, 0xf800707f),
     (''amoxor_w'', 0x2000202f, 0xf800707f)]"

definition insn_rows_2 :: "insn_row list" where
  "insn_rows_2 = [
     (''amoor_w'', 0x4000202f, 0xf800707f),
     (''amoand_w'', 0x6000202f, 0xf800707f),
     (''amomin_w'', 0x8000202f, 0xf800707f),
     (''amomax_w'', 0xa000202f, 0xf800707f),
     (''amominu_w'', 0xc000202f, 0xf800707f),
     (''amomaxu_w'', 0xe000202f, 0xf800707f),
     (''amoswap_w'', 0x800202f, 0xf800707f),
     (''lr_w'', 0x1000202f, 0xf9f0707f),
     (''sc_w'', 0x1800202f, 0xf800707f),
     (''amoadd_d'', 0x302f, 0xf800707f),
     (''amoxor_d'', 0x2000302f, 0xf800707f),
     (''amoor_d'', 0x4000302f, 0xf800707f),
     (''amoand_d'', 0x6000302f, 0xf800707f),
     (''amomin_d'', 0x8000302f, 0xf800707f),
     (''amomax_d'', 0xa000302f, 0xf800707f),
     (''amominu_d'', 0xc000302f, 0xf800707f),
     (''amomaxu_d'', 0xe000302f, 0xf800707f),
     (''amoswap_d'', 0x800302f, 0xf800707f),
     (''lr_d'', 0x1000302f, 0xf9f0707f),
     (''sc_d'', 0x1800302f, 0xf800707f),
     (''ecall'', 0x73, 0xffffffff),
     (''ebreak'', 0x100073, 0xffffffff),
     (''uret'', 0x200073, 0xffffffff),
     (''sret'', 0x10200073, 0xffffffff),
     (''mret'', 0x30200073, 0xffffffff),
     (''dret'', 0x7b200073, 0xffffffff),
     (''sfence_vma'', 0x12000073, 0xfe007fff),
     (''wfi'', 0x10500073, 0xffffffff),
     (''csrrw'', 0x1073, 0x707f),
     (''csrrs'', 0x2073, 0x707f),
     (''csrrc'', 0x3073, 0x707f),
     (''csrrwi'', 0x5073, 0x707f),
     (''csrrsi'', 0x6073, 0x707f),
     (''csrrci'', 0x7073, 0x707f),
     (''fadd_s'', 0x53, 0xfe00007f),
     (''fsub_s'', 0x8000053, 0xfe00007f),
     (''fmul_s'', 0x10000053, 0xfe00007f),
     (''fdiv_s'', 0x18000053, 0xfe00007f),
     (''fsgnj_s'', 0x20000053, 0xfe00707f),
     (''fsgnjn_s'', 0x20001053, 0xfe00707f),
     (''fsgnjx_s'', 0x20002053, 0xfe00707f),
     (''fmin_s'', 0x28000053, 0xfe00707f),
     (''fmax_s'', 0x28001053, 0xfe00707f),
     (''fsqrt_s'', 0x58000053, 0xfff0007f),
     (''fadd_d'', 0x2000053, 0xfe00007f),
     (''fsub_d'', 0xa000053, 0xfe00007f),
     (''fmul_d'', 0x12000053, 0xfe00007f),
     (''fdiv_d'', 0x1a000053, 0xfe00007f),
     (''fsgnj_d'', 0x22000053, 0xfe00707f),
     (''fsgnjn_d'', 0x22001053, 0xfe00707f),
     (''fsgnjx_d'', 0x22002053, 0xfe00707f),
     (''fmin_d'', 0x2a000053, 0xfe00707f),
     (''fmax_d'', 0x2a001053, 0xfe00707f),
     (''fcvt_s_d'', 0x40100053, 0xfff0007f),
     (''fcvt_d_s'', 0x42000053, 0xfff0007f),
     (''fsqrt_d'', 0x5a000053, 0xfff0007f),
     (''fadd_q'', 0x6000053, 0xfe00007f),
     (''fsub_q'', 0xe000053, 0xfe00007f),
     (''fmul_q'', 0x16000053, 0xfe00007f),
     (''fdiv_q'', 0x1e000053, 0xfe00007f),
     (''fsgnj_q'', 0x26000053, 0xfe00707f),
     (''fsgnjn_q'', 0x26001053, 0xfe00707f),
     (''fsgnjx_q'', 0x26002053, 0xfe00707f),
     (''fmin_q'', 0x2e000053, 0xfe00707f),
     (''fmax_q'', 0x2e001053, 0xfe00707f),
     (''fcvt_s_q'', 0x40300053, 0xfff0007f)]"

definition insn_rows_3 :: "insn_row list" where
  "insn_rows_3 = [
     (''fcvt_q_s'', 0x46000053, 0xfff0007f),
     (''fcvt_d_q'', 0x42300053, 0xfff0007f),
     (''fcvt_q_d'', 0x46100053, 0xfff0007f),
     (''fsqrt_q'', 0x5e000053, 0xfff0007f),
     (''fle_s'', 0xa0000053, 0xfe00707f),
     (''flt_s'', 0xa0001053, 0xfe00707f),
     (''feq_s'', 0xa0002053, 0xfe00707f),
     (''fle_d'', 0xa2000053, 0xfe00707f),
     (''flt_d'', 0xa2001053, 0xfe00707f),
     (''feq_d'', 0xa2002053, 0xfe00707f),
     (''fle_q'', 0xa6000053, 0xfe00707f),
     (''flt_q'', 0xa6001053, 0xfe00707f),
     (''feq_q'', 0xa6002053, 0xfe00707f),
     (''fcvt_w_s'', 0xc0000053, 0xfff0007f),
     (''fcvt_wu_s'', 0xc0100053, 0xfff0007f),
     (''fcvt_l_s'', 0xc0200053, 0xfff0007f),
     (''fcvt_lu_s'', 0xc0300053, 0xfff0007f),
     (''fmv_x_w'', 0xe0000053, 0xfff0707f),
     (''fclass_s'', 0xe0001053, 0xfff0707f),
     (''fcvt_w_d'', 0xc2000053, 0xfff0007f),
     (''fcvt_wu_d'', 0xc2100053, 0xfff0007f),
     (''fcvt_l_d'', 0xc2200053, 0xfff0007f),
     (''fcvt_lu_d'', 0xc2300053, 0xfff0007f),
     (''fmv_x_d'', 0xe2000053, 0xfff0707f),
     (''fclass_d'', 0xe2001053, 0xfff0707f),
     (''fcvt_w_q'', 0xc6000053, 0xfff0007f),
     (''fcvt_wu_q'', 0xc6100053, 0xfff0007f),
     (''fcvt_l_q'', 0xc6200053, 0xfff0007f),
     (''fcvt_lu_q'', 0xc6300053, 0xfff0007f),
     (''fmv_x_q'', 0xe6000053, 0xfff0707f),
     (''fclass_q'', 0xe6001053, 0xfff0707f),
     (''fcvt_s_w'', 0xd0000053, 0xfff0007f),
     (''fcvt_s_wu'', 0xd0100053, 0xfff0007f),
     (''fcvt_s_l'', 0xd0200053, 0xfff0007f),
     (''fcvt_s_lu'', 0xd0300053, 0xfff0007f),
     (''fmv_w_x'', 0xf0000053, 0xfff0707f),
     (''fcvt_d_w'', 0xd2000053, 0xfff0007f),
     (''fcvt_d_wu'', 0xd2100053, 0xfff0007f),
     (''fcvt_d_l'', 0xd2200053, 0xfff0007f),
     (''fcvt_d_lu'', 0xd2300053, 0xfff0007f),
     (''fmv_d_x'', 0xf2000053, 0xfff0707f),
     (''fcvt_q_w'', 0xd6000053, 0xfff0007f),
     (''fcvt_q_wu'', 0xd6100053, 0xfff0007f),
     (''fcvt_q_l'', 0xd6200053, 0xfff0007f),
     (''fcvt_q_lu'', 0xd6300053, 0xfff0007f),
     (''fmv_q_x'', 0xf6000053, 0xfff0707f),
     (''flw'', 0x2007, 0x707f),
     (''fld'', 0x3007, 0x707f),
     (''flq'', 0x4007, 0x707f),
     (''fsw'', 0x2027, 0x707f),
     (''fsd'', 0x3027, 0x707f),
     (''fsq'', 0x4027, 0x707f),
     (''fmadd_s'', 0x43, 0x600007f),
     (''fmsub_s'', 0x47, 0x600007f),
     (''fnmsub_s'', 0x4b, 0x600007f),
     (''fnmadd_s'', 0x4f, 0x600007f),
     (''fmadd_d'', 0x2000043, 0x600007f),
     (''fmsub_d'', 0x2000047, 0x600007f),
     (''fnmsub_d'', 0x200004b, 0x600007f),
     (''fnmadd_d'', 0x200004f, 0x600007f),
     (''fmadd_q'', 0x6000043, 0x600007f),
     (''fmsub_q'', 0x6000047, 0x600007f),
     (''fnmsub_q'', 0x600004b, 0x600007f),
     (''fnmadd_q'', 0x600004f, 0x600007f),
     (''c_nop'', 0x1, 0xffff),
     (''c_addi16sp'', 0x6101, 0xef83)]"

definition insn_rows_4 :: "insn_row list" where
  "insn_rows_4 = [
     (''c_jr'', 0x8002, 0xf07f),
     (''c_jalr'', 0x9002, 0xf07f),
     (''c_ebreak'', 0x9002, 0xffff),
     (''c_ld'', 0x6000, 0xe003),
     (''c_sd'', 0xe000, 0xe003),
     (''c_addiw'', 0x2001, 0xe003),
     (''c_ldsp'', 0x6002, 0xe003),
     (''c_sdsp'', 0xe002, 0xe003),
     (''c_addi4spn'', 0x0, 0xe003),
     (''c_fld'', 0x2000, 0xe003),
     (''c_lw'', 0x4000, 0xe003),
     (''c_flw'', 0x6000, 0xe003),
     (''c_fsd'', 0xa000, 0xe003),
     (''c_sw'', 0xc000, 0xe003),
     (''c_fsw'', 0xe000, 0xe003),
     (''c_addi'', 0x1, 0xe003),
     (''c_jal'', 0x2001, 0xe003),
     (''c_li'', 0x4001, 0xe003),
     (''c_lui'', 0x6001, 0xe003),
     (''c_srli'', 0x8001, 0xec03),
     (''c_srai'', 0x8401, 0xec03),
     (''c_andi'', 0x8801, 0xec03),
     (''c_sub'', 0x8c01, 0xfc63),
     (''c_xor'', 0x8c21, 0xfc63),
     (''c_or'', 0x8c41, 0xfc63),
     (''c_and'', 0x8c61, 0xfc63),
     (''c_subw'', 0x9c01, 0xfc63),
     (''c_addw'', 0x9c21, 0xfc63),
     (''c_j'', 0xa001, 0xe003),
     (''c_beqz'', 0xc001, 0xe003),
     (''c_bnez'', 0xe001, 0xe003),
     (''c_slli'', 0x2, 0xe003),
     (''c_fldsp'', 0x2002, 0xe003),
     (''c_lwsp'', 0x4002, 0xe003),
     (''c_flwsp'', 0x6002, 0xe003),
     (''c_mv'', 0x8002, 0xf003),
     (''c_add'', 0x9002, 0xf003),
     (''c_fsdsp'', 0xa002, 0xe003),
     (''c_swsp'', 0xc002, 0xe003),
     (''c_fswsp'', 0xe002, 0xe003),
     (''custom0'', 0xb, 0x707f),
     (''custom0_rs1'', 0x200b, 0x707f),
     (''custom0_rs1_rs2'', 0x300b, 0x707f),
     (''custom0_rd'', 0x400b, 0x707f),
     (''custom0_rd_rs1'', 0x600b, 0x707f),
     (''custom0_rd_rs1_rs2'', 0x700b, 0x707f),
     (''custom1'', 0x2b, 0x707f),
     (''custom1_rs1'', 0x202b, 0x707f),
     (''custom1_rs1_rs2'', 0x302b, 0x707f),
     (''custom1_rd'', 0x402b, 0x707f),
     (''custom1_rd_rs1'', 0x602b, 0x707f),
     (''custom1_rd_rs1_rs2'', 0x702b, 0x707f),
     (''custom2'', 0x5b, 0x707f),
     (''custom2_rs1'', 0x205b, 0x707f),
     (''custom2_rs1_rs2'', 0x305b, 0x707f),
     (''custom2_rd'', 0x405b, 0x707f),
     (''custom2_rd_rs1'', 0x605b, 0x707f),
     (''custom2_rd_rs1_rs2'', 0x705b, 0x707f),
     (''custom3'', 0x7b, 0x707f),
     (''custom3_rs1'', 0x207b, 0x707f),
     (''custom3_rs1_rs2'', 0x307b, 0x707f),
     (''custom3_rd'', 0x407b, 0x707f),
     (''custom3_rd_rs1'', 0x607b, 0x707f),
     (''custom3_rd_rs1_rs2'', 0x707b, 0x707f)]"

definition insn_table :: "insn_row list" where
  "insn_table = insn_rows_1 @ insn_rows_2 @ insn_rows_3 @ insn_rows_4"

definition declare_insns :: "(string \<Rightarrow> 32 word \<Rightarrow> 32 word \<Rightarrow> 'a) \<Rightarrow> 'a list" where
  "declare_insns f = map (\<lambda>(n, ma, mk). f n ma mk) insn_table"

section \<open>Control registers and causes\<close>

definition csr_rows_1 :: "(string \<times> 12 word) list" where
  "csr_rows_1 = [
     (''fflags'', 0x1),
     (''frm'', 0x2),
     (''fcsr'', 0x3),
     (''cycle'', 0xc00),
     (''time'', 0xc01),
     (''instret'', 0xc02),
     (''hpmcounter3'', 0xc03),
     (''hpmcounter4'', 0xc04),
     (''hpmcounter5'', 0xc05),
     (''hpmcounter6'', 0xc06),
     (''hpmcounter7'', 0xc07),
     (''hpmcounter8'', 0xc08),
     (''hpmcounter9'', 0xc09),
     (''hpmcounter10'', 0xc0a),
     (''hpmcounter11'', 0xc0b),
     (''hpmcounter12'', 0xc0c),
     (''hpmcounter13'', 0xc0d),
     (''hpmcounter14'', 0xc0e),
     (''hpmcounter15'', 0xc0f),
     (''hpmcounter16'', 0xc10),
     (''hpmcounter17'', 0xc11),
     (''hpmcounter18'', 0xc12),
     (''hpmcounter19'', 0xc13),
     (''hpmcounter20'', 0xc14),
     (''hpmcounter21'', 0xc15),
     (''hpmcounter22'', 0xc16),
     (''hpmcounter23'', 0xc17),
     (''hpmcounter24'', 0xc18),
     (''hpmcounter25'', 0xc19),
     (''hpmcounter26'', 0xc1a),
     (''hpmcounter27'', 0xc1b),
     (''hpmcounter28'', 0xc1c),
     (''hpmcounter29'', 0xc1d),
     (''hpmcounter30'', 0xc1e),
     (''hpmcounter31'', 0xc1f),
     (''sstatus'', 0x100),
     (''sie'', 0x104),
     (''stvec'', 0x105),
     (''scounteren'', 0x106),
     (''sscratch'', 0x140),
     (''sepc'', 0x141),
     (''scause'', 0x142),
     (''stval'', 0x143),
     (''sip'', 0x144),
     (''satp'', 0x180),
     (''mstatus'', 0x300),
     (''misa'', 0x301),
     (''medeleg'', 0x302),
     (''mideleg'', 0x303),
     (''mie'', 0x304),
     (''mtvec'', 0x305),
     (''mcounteren'', 0x306),
     (''mscratch'', 0x340),
     (''mepc'', 0x341),
     (''mcause'', 0x342),
     (''mtval'', 0x343),
     (''mip'', 0x344),
     (''pmpcfg0'', 0x3a0),
     (''pmpcfg1'', 0x3a1),
     (''pmpcfg2'', 0x3a2),
     (''pmpcfg3'', 0x3a3),
     (''pmpaddr0'', 0x3b0),
     (''pmpaddr1'', 0x3b1),
     (''pmpaddr2'', 0x3b2),
     (''pmpaddr3'', 0x3b3),
     (''pmpaddr4'', 0x3b4),
     (''pmpaddr5'', 0x3b5),
     (''pmpaddr6'', 0x3b6),
     (''pmpaddr7'', 0x3b7),
     (''pmpaddr8'', 0x3b8),
     (''pmpaddr9'', 0x3b9),
     (''pmpaddr10'', 0x3ba),
     (''pmpaddr11'', 0x3bb),
     (''pmpaddr12'', 0x3bc),
     (''pmpaddr13'', 0x3bd),
     (''pmpaddr14'', 0x3be),
     (''pmpaddr15'', 0x3bf),
     (''tselect'', 0x7a0),
     (''tdata1'', 0x7a1),
     (''tdata2'', 0x7a2),
     (''tdata3'', 0x7a3),
     (''dcsr'', 0x7b0),
     (''dpc'', 0x7b1),
     (''dscratch'', 0x7b2),
     (''mcycle'', 0xb00),
     (''minstret'', 0xb02),
     (''mhpmcounter3'', 0xb03),
     (''mhpmcounter4'', 0xb04),
     (''mhpmcounter5'', 0xb05),
     (''mhpmcounter6'', 0xb06),
     (''mhpmcounter7'', 0xb07),
     (''mhpmcounter8'', 0xb08),
     (''mhpmcounter9'', 0xb09),
     (''mhpmcounter10'', 0xb0a),
     (''mhpmcounter11'', 0xb0b),
     (''mhpmcounter12'', 0xb0c),
     (''mhpmcounter13'', 0xb0d),
     (''mhpmcounter14'', 0xb0e),
     (''mhpmcounter15'', 0xb0f),
     (''mhpmcounter16'', 0xb10),
     (''mhpmcounter17'', 0xb11),
     (''mhpmcounter18'', 0xb12),
     (''mhpmcounter19'', 0xb13),
     (''mhpmcounter20'', 0xb14),
     (''mhpmcounter21'', 0xb15),
     (''mhpmcounter22'', 0xb16)]"

definition csr_rows_2 :: "(string \<times> 12 word) list" where
  "csr_rows_2 = [
     (''mhpmcounter23'', 0xb17),
     (''mhpmcounter24'', 0xb18),
     (''mhpmcounter25'', 0xb19),
     (''mhpmcounter26'', 0xb1a),
     (''mhpmcounter27'', 0xb1b),
     (''mhpmcounter28'', 0xb1c),
     (''mhpmcounter29'', 0xb1d),
     (''mhpmcounter30'', 0xb1e),
     (''mhpmcounter31'', 0xb1f),
     (''mhpmevent3'', 0x323),
     (''mhpmevent4'', 0x324),
     (''mhpmevent5'', 0x325),
     (''mhpmevent6'', 0x326),
     (''mhpmevent7'', 0x327),
     (''mhpmevent8'', 0x328),
     (''mhpmevent9'', 0x329),
     (''mhpmevent10'', 0x32a),
     (''mhpmevent11'', 0x32b),
     (''mhpmevent12'', 0x32c),
     (''mhpmevent13'', 0x32d),
     (''mhpmevent14'', 0x32e),
     (''mhpmevent15'', 0x32f),
     (''mhpmevent16'', 0x330),
     (''mhpmevent17'', 0x331),
     (''mhpmevent18'', 0x332),
     (''mhpmevent19'', 0x333),
     (''mhpmevent20'', 0x334),
     (''mhpmevent21'', 0x335),
     (''mhpmevent22'', 0x336),
     (''mhpmevent23'', 0x337),
     (''mhpmevent24'', 0x338),
     (''mhpmevent25'', 0x339),
     (''mhpmevent26'', 0x33a),
     (''mhpmevent27'', 0x33b),
     (''mhpmevent28'', 0x33c),
     (''mhpmevent29'', 0x33d),
     (''mhpmevent30'', 0x33e),
     (''mhpmevent31'', 0x33f),
     (''mvendorid'', 0xf11),
     (''marchid'', 0xf12),
     (''mimpid'', 0xf13),
     (''mhartid'', 0xf14),
     (''cycleh'', 0xc80),
     (''timeh'', 0xc81),
     (''instreth'', 0xc82),
     (''hpmcounter3h'', 0xc83),
     (''hpmcounter4h'', 0xc84),
     (''hpmcounter5h'', 0xc85),
     (''hpmcounter6h'', 0xc86),
     (''hpmcounter7h'', 0xc87),
     (''hpmcounter8h'', 0xc88),
     (''hpmcounter9h'', 0xc89),
     (''hpmcounter10h'', 0xc8a),
     (''hpmcounter11h'', 0xc8b),
     (''hpmcounter12h'', 0xc8c),
     (''hpmcounter13h'', 0xc8d),
     (''hpmcounter14h'', 0xc8e),
     (''hpmcounter15h'', 0xc8f),
     (''hpmcounter16h'', 0xc90),
     (''hpmcounter17h'', 0xc91),
     (''hpmcounter18h'', 0xc92),
     (''hpmcounter19h'', 0xc93),
     (''hpmcounter20h'', 0xc94),
     (''hpmcounter21h'', 0xc95),
     (''hpmcounter22h'', 0xc96),
     (''hpmcounter23h'', 0xc97),
     (''hpmcounter24h'', 0xc98),
     (''hpmcounter25h'', 0xc99),
     (''hpmcounter26h'', 0xc9a),
     (''hpmcounter27h'', 0xc9b),
     (''hpmcounter28h'', 0xc9c),
     (''hpmcounter29h'', 0xc9d),
     (''hpmcounter30h'', 0xc9e),
     (''hpmcounter31h'', 0xc9f),
     (''mcycleh'', 0xb80),
     (''minstreth'', 0xb82),
     (''mhpmcounter3h'', 0xb83),
     (''mhpmcounter4h'', 0xb84),
     (''mhpmcounter5h'', 0xb85),
     (''mhpmcounter6h'', 0xb86),
     (''mhpmcounter7h'', 0xb87),
     (''mhpmcounter8h'', 0xb88),
     (''mhpmcounter9h'', 0xb89),
     (''mhpmcounter10h'', 0xb8a),
     (''mhpmcounter11h'', 0xb8b),
     (''mhpmcounter12h'', 0xb8c),
     (''mhpmcounter13h'', 0xb8d),
     (''mhpmcounter14h'', 0xb8e),
     (''mhpmcounter15h'', 0xb8f),
     (''mhpmcounter16h'', 0xb90),
     (''mhpmcounter17h'', 0xb91),
     (''mhpmcounter18h'', 0xb92),
     (''mhpmcounter19h'', 0xb93),
     (''mhpmcounter20h'', 0xb94),
     (''mhpmcounter21h'', 0xb95),
     (''mhpmcounter22h'', 0xb96),
     (''mhpmcounter23h'', 0xb97),
     (''mhpmcounter24h'', 0xb98),
     (''mhpmcounter25h'', 0xb99),
     (''mhpmcounter26h'', 0xb9a),
     (''mhpmcounter27h'', 0xb9b),
     (''mhpmcounter28h'', 0xb9c),
     (''mhpmcounter29h'', 0xb9d),
     (''mhpmcounter30h'', 0xb9e),
     (''mhpmcounter31h'', 0xb9f)]"

definition csr_table :: "(string \<times> 12 word) list" where
  "csr_table = csr_rows_1 @ csr_rows_2"

definition declare_csrs :: "(string \<Rightarrow> 12 word \<Rightarrow> 'a) \<Rightarrow> 'a list" where
  "declare_csrs f = map (\<lambda>(n, c). f n c) csr_table"

definition cause_table :: "(string \<times> 32 word) list" where
  "cause_table = [
     (''misaligned fetch'', 0x0),
     (''fetch access'', 0x1),
     (''illegal instruction'', 0x2),
     (''breakpoint'', 0x3),
     (''misaligned load'', 0x4),
     (''load access'', 0x5),
     (''misaligned store'', 0x6),
     (''store access'', 0x7),
     (''user_ecall'', 0x8),
     (''supervisor_ecall'', 0x9),
     (''hypervisor_ecall'', 0xa),
     (''machine_ecall'', 0xb),
     (''fetch page fault'', 0xc),
     (''load page fault'', 0xd),
     (''store page fault'', 0xf)]"

definition declare_causes :: "(string \<Rightarrow> 32 word \<Rightarrow> 'a) \<Rightarrow> 'a list" where
  "declare_causes f = map (\<lambda>(m, c). f m c) cause_table"

end
