(* ===== verification/Encoding_Props.thy ===== *)
theory Encoding_Props
  imports Encoding Util_Props
begin

text \<open>
  What the tables of \<open>encoding.h\<close> promise a decoder: a word has at most one instruction but for the
  encodings that the compressed set shares, the length of an instruction is the one of \<open>util.h\<close>,
  and the fields of a register do not overlap.
\<close>

section \<open>Decoding\<close>

definition matches :: "32 word \<Rightarrow> insn_row \<Rightarrow> bool" where
  "matches w r \<longleftrightarrow> w AND snd (snd r) = fst (snd r)"

definition decode :: "32 word \<Rightarrow> string list" where
  "decode w = map fst (filter (matches w) insn_table)"

text \<open>
  The compressed instructions that take a part of the encodings of another one (\<open>c.nop\<close> of \<open>c.addi\<close>,
  \<open>c.addi16sp\<close> of \<open>c.lui\<close>, \<open>c.jr\<close> of \<open>c.mv\<close>, \<open>c.jalr\<close> and \<open>c.ebreak\<close> of \<open>c.add\<close>) or the place that the 32-bit
  machine gives to another one.
\<close>

definition overlaid :: "string list" where
  "overlaid = [''c_nop'', ''c_addi16sp'', ''c_jr'', ''c_jalr'', ''c_ebreak'', ''c_ld'', ''c_sd'', ''c_addiw'', ''c_ldsp'', ''c_sdsp'']"

text \<open>
  A decision tree: every row has the bit in its mask, and the rows are split by the bit of their
  match.  The rows of one leaf are at most one.
\<close>

datatype splits = Leaf | Split nat splits splits

fun separates :: "splits \<Rightarrow> (32 word \<times> 32 word) list \<Rightarrow> bool" where
  "separates Leaf rs = (case rs of [] \<Rightarrow> True | r # rs' \<Rightarrow> rs' = [])"
| "separates (Split b l r) rs =
     (list_all (\<lambda>x. bit (snd x) b) rs
      \<and> separates l (filter (\<lambda>x. \<not> bit (fst x) b) rs) \<and> separates r (filter (\<lambda>x. bit (fst x) b) rs))"

definition plain :: "insn_row list \<Rightarrow> (32 word \<times> 32 word) list" where
  "plain rows = map snd (filter (\<lambda>r. fst r \<notin> set overlaid) rows)"

text \<open>Four groups of rows, told apart by bits of the word itself.\<close>

definition group_of :: "32 word \<Rightarrow> nat" where
  "group_of w = (if \<not> bit w 0 then 0 else if \<not> bit w 1 then 1 else if \<not> bit w 6 then 2 else 3)"

definition covered :: "32 word \<times> 32 word \<Rightarrow> bool" where
  "covered x \<longleftrightarrow> bit (snd x) 0 \<and> bit (snd x) 1 \<and> (group_of (fst x) < 2 \<or> bit (snd x) 6)"

definition group :: "nat \<Rightarrow> (32 word \<times> 32 word) list \<Rightarrow> (32 word \<times> 32 word) list" where
  "group j rs = filter (\<lambda>x. group_of (fst x) = j) rs"

lemma plain_1:
  "plain insn_rows_1 = [(0x63, 0x707f), (0x1063, 0x707f), (0x4063, 0x707f), (0x5063, 0x707f), (0x6063, 0x707f), (0x7063, 0x707f),
     (0x67, 0x707f), (0x6f, 0x7f), (0x37, 0x7f), (0x17, 0x7f), (0x13, 0x707f), (0x1013, 0xfc00707f), (0x2013, 0x707f),
     (0x3013, 0x707f), (0x4013, 0x707f), (0x5013, 0xfc00707f), (0x40005013, 0xfc00707f), (0x6013, 0x707f),
     (0x7013, 0x707f), (0x33, 0xfe00707f), (0x40000033, 0xfe00707f), (0x1033, 0xfe00707f), (0x2033, 0xfe00707f),
     (0x3033, 0xfe00707f), (0x4033, 0xfe00707f), (0x5033, 0xfe00707f), (0x40005033, 0xfe00707f), (0x6033, 0xfe00707f),
     (0x7033, 0xfe00707f), (0x1b, 0x707f), (0x101b, 0xfe00707f), (0x501b, 0xfe00707f), (0x4000501b, 0xfe00707f),
     (0x3b, 0xfe00707f), (0x4000003b, 0xfe00707f), (0x103b, 0xfe00707f), (0x503b, 0xfe00707f), (0x4000503b, 0xfe00707f),
     (0x3, 0x707f), (0x1003, 0x707f), (0x2003, 0x707f), (0x3003, 0x707f), (0x4003, 0x707f), (0x5003, 0x707f),
     (0x6003, 0x707f), (0x23, 0x707f), (0x1023, 0x707f), (0x2023, 0x707f), (0x3023, 0x707f), (0xf, 0x707f),
     (0x100f, 0x707f), (0x2000033, 0xfe00707f), (0x2001033, 0xfe00707f), (0x2002033, 0xfe00707f), (0x2003033, 0xfe00707f),
     (0x2004033, 0xfe00707f), (0x2005033, 0xfe00707f), (0x2006033, 0xfe00707f), (0x2007033, 0xfe00707f), (0x200003b, 0xfe00707f),
     (0x200403b, 0xfe00707f), (0x200503b, 0xfe00707f), (0x200603b, 0xfe00707f), (0x200703b, 0xfe00707f), (0x202f, 0xf800707f),
     (0x2000202f, 0xf800707f)]"
  by code_simp

lemma covered_1: "list_all covered (plain insn_rows_1)"
  unfolding plain_1 by code_simp

lemma groups_1:
  "group 0 (plain insn_rows_1) = []"
  "group 1 (plain insn_rows_1) = []"
  "group 2 (plain insn_rows_1) = [(0x37, 0x7f), (0x17, 0x7f), (0x13, 0x707f), (0x1013, 0xfc00707f), (0x2013, 0x707f), (0x3013, 0x707f),
     (0x4013, 0x707f), (0x5013, 0xfc00707f), (0x40005013, 0xfc00707f), (0x6013, 0x707f), (0x7013, 0x707f),
     (0x33, 0xfe00707f), (0x40000033, 0xfe00707f), (0x1033, 0xfe00707f), (0x2033, 0xfe00707f), (0x3033, 0xfe00707f),
     (0x4033, 0xfe00707f), (0x5033, 0xfe00707f), (0x40005033, 0xfe00707f), (0x6033, 0xfe00707f), (0x7033, 0xfe00707f),
     (0x1b, 0x707f), (0x101b, 0xfe00707f), (0x501b, 0xfe00707f), (0x4000501b, 0xfe00707f), (0x3b, 0xfe00707f),
     (0x4000003b, 0xfe00707f), (0x103b, 0xfe00707f), (0x503b, 0xfe00707f), (0x4000503b, 0xfe00707f), (0x3, 0x707f),
     (0x1003, 0x707f), (0x2003, 0x707f), (0x3003, 0x707f), (0x4003, 0x707f), (0x5003, 0x707f), (0x6003, 0x707f),
     (0x23, 0x707f), (0x1023, 0x707f), (0x2023, 0x707f), (0x3023, 0x707f), (0xf, 0x707f), (0x100f, 0x707f),
     (0x2000033, 0xfe00707f), (0x2001033, 0xfe00707f), (0x2002033, 0xfe00707f), (0x2003033, 0xfe00707f), (0x2004033, 0xfe00707f),
     (0x2005033, 0xfe00707f), (0x2006033, 0xfe00707f), (0x2007033, 0xfe00707f), (0x200003b, 0xfe00707f), (0x200403b, 0xfe00707f),
     (0x200503b, 0xfe00707f), (0x200603b, 0xfe00707f), (0x200703b, 0xfe00707f), (0x202f, 0xf800707f), (0x2000202f, 0xf800707f)
     ]"
  "group 3 (plain insn_rows_1) = [(0x63, 0x707f), (0x1063, 0x707f), (0x4063, 0x707f), (0x5063, 0x707f), (0x6063, 0x707f), (0x7063, 0x707f),
     (0x67, 0x707f), (0x6f, 0x7f)]"
  unfolding plain_1 by code_simp+

lemma plain_2:
  "plain insn_rows_2 = [(0x4000202f, 0xf800707f), (0x6000202f, 0xf800707f), (0x8000202f, 0xf800707f), (0xa000202f, 0xf800707f),
     (0xc000202f, 0xf800707f), (0xe000202f, 0xf800707f), (0x800202f, 0xf800707f), (0x1000202f, 0xf9f0707f),
     (0x1800202f, 0xf800707f), (0x302f, 0xf800707f), (0x2000302f, 0xf800707f), (0x4000302f, 0xf800707f), (0x6000302f, 0xf800707f),
     (0x8000302f, 0xf800707f), (0xa000302f, 0xf800707f), (0xc000302f, 0xf800707f), (0xe000302f, 0xf800707f),
     (0x800302f, 0xf800707f), (0x1000302f, 0xf9f0707f), (0x1800302f, 0xf800707f), (0x73, 0xffffffff), (0x100073, 0xffffffff),
     (0x200073, 0xffffffff), (0x10200073, 0xffffffff), (0x30200073, 0xffffffff), (0x7b200073, 0xffffffff),
     (0x12000073, 0xfe007fff), (0x10500073, 0xffffffff), (0x1073, 0x707f), (0x2073, 0x707f), (0x3073, 0x707f),
     (0x5073, 0x707f), (0x6073, 0x707f), (0x7073, 0x707f), (0x53, 0xfe00007f), (0x8000053, 0xfe00007f), (0x10000053, 0xfe00007f),
     (0x18000053, 0xfe00007f), (0x20000053, 0xfe00707f), (0x20001053, 0xfe00707f), (0x20002053, 0xfe00707f),
     (0x28000053, 0xfe00707f), (0x28001053, 0xfe00707f), (0x58000053, 0xfff0007f), (0x2000053, 0xfe00007f),
     (0xa000053, 0xfe00007f), (0x12000053, 0xfe00007f), (0x1a000053, 0xfe00007f), (0x22000053, 0xfe00707f),
     (0x22001053, 0xfe00707f), (0x22002053, 0xfe00707f), (0x2a000053, 0xfe00707f), (0x2a001053, 0xfe00707f),
     (0x40100053, 0xfff0007f), (0x42000053, 0xfff0007f), (0x5a000053, 0xfff0007f), (0x6000053, 0xfe00007f),
     (0xe000053, 0xfe00007f), (0x16000053, 0xfe00007f), (0x1e000053, 0xfe00007f), (0x26000053, 0xfe00707f),
     (0x26001053, 0xfe00707f), (0x26002053, 0xfe00707f), (0x2e000053, 0xfe00707f), (0x2e001053, 0xfe00707f),
     (0x40300053, 0xfff0007f)]"
  by code_simp

lemma covered_2: "list_all covered (plain insn_rows_2)"
  unfolding plain_2 by code_simp

lemma groups_2:
  "group 0 (plain insn_rows_2) = []"
  "group 1 (plain insn_rows_2) = []"
  "group 2 (plain insn_rows_2) = [(0x4000202f, 0xf800707f), (0x6000202f, 0xf800707f), (0x8000202f, 0xf800707f), (0xa000202f, 0xf800707f),
     (0xc000202f, 0xf800707f), (0xe000202f, 0xf800707f), (0x800202f, 0xf800707f), (0x1000202f, 0xf9f0707f),
     (0x1800202f, 0xf800707f), (0x302f, 0xf800707f), (0x2000302f, 0xf800707f), (0x4000302f, 0xf800707f), (0x6000302f, 0xf800707f),
     (0x8000302f, 0xf800707f), (0xa000302f, 0xf800707f), (0xc000302f, 0xf800707f), (0xe000302f, 0xf800707f),
     (0x800302f, 0xf800707f), (0x1000302f, 0xf9f0707f), (0x1800302f, 0xf800707f)]"
  "group 3 (plain insn_rows_2) = [(0x73, 0xffffffff), (0x100073, 0xffffffff), (0x200073, 0xffffffff), (0x10200073, 0xffffffff), (0x30200073, 0xffffffff),
     (0x7b200073, 0xffffffff), (0x12000073, 0xfe007fff), (0x10500073, 0xffffffff), (0x1073, 0x707f), (0x2073, 0x707f),
     (0x3073, 0x707f), (0x5073, 0x707f), (0x6073, 0x707f), (0x7073, 0x707f), (0x53, 0xfe00007f), (0x8000053, 0xfe00007f),
     (0x10000053, 0xfe00007f), (0x18000053, 0xfe00007f), (0x20000053, 0xfe00707f), (0x20001053, 0xfe00707f),
     (0x20002053, 0xfe00707f), (0x28000053, 0xfe00707f), (0x28001053, 0xfe00707f), (0x58000053, 0xfff0007f),
     (0x2000053, 0xfe00007f), (0xa000053, 0xfe00007f), (0x12000053, 0xfe00007f), (0x1a000053, 0xfe00007f),
     (0x22000053, 0xfe00707f), (0x22001053, 0xfe00707f), (0x22002053, 0xfe00707f), (0x2a000053, 0xfe00707f),
     (0x2a001053, 0xfe00707f), (0x40100053, 0xfff0007f), (0x42000053, 0xfff0007f), (0x5a000053, 0xfff0007f),
     (0x6000053, 0xfe00007f), (0xe000053, 0xfe00007f), (0x16000053, 0xfe00007f), (0x1e000053, 0xfe00007f),
     (0x26000053, 0xfe00707f), (0x26001053, 0xfe00707f), (0x26002053, 0xfe00707f), (0x2e000053, 0xfe00707f),
     (0x2e001053, 0xfe00707f), (0x40300053, 0xfff0007f)]"
  unfolding plain_2 by code_simp+

lemma plain_3:
  "plain insn_rows_3 = [(0x46000053, 0xfff0007f), (0x42300053, 0xfff0007f), (0x46100053, 0xfff0007f), (0x5e000053, 0xfff0007f),
     (0xa0000053, 0xfe00707f), (0xa0001053, 0xfe00707f), (0xa0002053, 0xfe00707f), (0xa2000053, 0xfe00707f),
     (0xa2001053, 0xfe00707f), (0xa2002053, 0xfe00707f), (0xa6000053, 0xfe00707f), (0xa6001053, 0xfe00707f),
     (0xa6002053, 0xfe00707f), (0xc0000053, 0xfff0007f), (0xc0100053, 0xfff0007f), (0xc0200053, 0xfff0007f),
     (0xc0300053, 0xfff0007f), (0xe0000053, 0xfff0707f), (0xe0001053, 0xfff0707f), (0xc2000053, 0xfff0007f),
     (0xc2100053, 0xfff0007f), (0xc2200053, 0xfff0007f), (0xc2300053, 0xfff0007f), (0xe2000053, 0xfff0707f),
     (0xe2001053, 0xfff0707f), (0xc6000053, 0xfff0007f), (0xc6100053, 0xfff0007f), (0xc6200053, 0xfff0007f),
     (0xc6300053, 0xfff0007f), (0xe6000053, 0xfff0707f), (0xe6001053, 0xfff0707f), (0xd0000053, 0xfff0007f),
     (0xd0100053, 0xfff0007f), (0xd0200053, 0xfff0007f), (0xd0300053, 0xfff0007f), (0xf0000053, 0xfff0707f),
     (0xd2000053, 0xfff0007f), (0xd2100053, 0xfff0007f), (0xd2200053, 0xfff0007f), (0xd2300053, 0xfff0007f),
     (0xf2000053, 0xfff0707f), (0xd6000053, 0xfff0007f), (0xd6100053, 0xfff0007f), (0xd6200053, 0xfff0007f),
     (0xd6300053, 0xfff0007f), (0xf6000053, 0xfff0707f), (0x2007, 0x707f), (0x3007, 0x707f), (0x4007, 0x707f),
     (0x2027, 0x707f), (0x3027, 0x707f), (0x4027, 0x707f), (0x43, 0x600007f), (0x47, 0x600007f), (0x4b, 0x600007f),
     (0x4f, 0x600007f), (0x2000043, 0x600007f), (0x2000047, 0x600007f), (0x200004b, 0x600007f), (0x200004f, 0x600007f),
     (0x6000043, 0x600007f), (0x6000047, 0x600007f), (0x600004b, 0x600007f), (0x600004f, 0x600007f)]"
  by code_simp

lemma covered_3: "list_all covered (plain insn_rows_3)"
  unfolding plain_3 by code_simp

lemma groups_3:
  "group 0 (plain insn_rows_3) = []"
  "group 1 (plain insn_rows_3) = []"
  "group 2 (plain insn_rows_3) = [(0x2007, 0x707f), (0x3007, 0x707f), (0x4007, 0x707f), (0x2027, 0x707f), (0x3027, 0x707f), (0x4027, 0x707f)
     ]"
  "group 3 (plain insn_rows_3) = [(0x46000053, 0xfff0007f), (0x42300053, 0xfff0007f), (0x46100053, 0xfff0007f), (0x5e000053, 0xfff0007f),
     (0xa0000053, 0xfe00707f), (0xa0001053, 0xfe00707f), (0xa0002053, 0xfe00707f), (0xa2000053, 0xfe00707f),
     (0xa2001053, 0xfe00707f), (0xa2002053, 0xfe00707f), (0xa6000053, 0xfe00707f), (0xa6001053, 0xfe00707f),
     (0xa6002053, 0xfe00707f), (0xc0000053, 0xfff0007f), (0xc0100053, 0xfff0007f), (0xc0200053, 0xfff0007f),
     (0xc0300053, 0xfff0007f), (0xe0000053, 0xfff0707f), (0xe0001053, 0xfff0707f), (0xc2000053, 0xfff0007f),
     (0xc2100053, 0xfff0007f), (0xc2200053, 0xfff0007f), (0xc2300053, 0xfff0007f), (0xe2000053, 0xfff0707f),
     (0xe2001053, 0xfff0707f), (0xc6000053, 0xfff0007f), (0xc6100053, 0xfff0007f), (0xc6200053, 0xfff0007f),
     (0xc6300053, 0xfff0007f), (0xe6000053, 0xfff0707f), (0xe6001053, 0xfff0707f), (0xd0000053, 0xfff0007f),
     (0xd0100053, 0xfff0007f), (0xd0200053, 0xfff0007f), (0xd0300053, 0xfff0007f), (0xf0000053, 0xfff0707f),
     (0xd2000053, 0xfff0007f), (0xd2100053, 0xfff0007f), (0xd2200053, 0xfff0007f), (0xd2300053, 0xfff0007f),
     (0xf2000053, 0xfff0707f), (0xd6000053, 0xfff0007f), (0xd6100053, 0xfff0007f), (0xd6200053, 0xfff0007f),
     (0xd6300053, 0xfff0007f), (0xf6000053, 0xfff0707f), (0x43, 0x600007f), (0x47, 0x600007f), (0x4b, 0x600007f),
     (0x4f, 0x600007f), (0x2000043, 0x600007f), (0x2000047, 0x600007f), (0x200004b, 0x600007f), (0x200004f, 0x600007f),
     (0x6000043, 0x600007f), (0x6000047, 0x600007f), (0x600004b, 0x600007f), (0x600004f, 0x600007f)]"
  unfolding plain_3 by code_simp+

lemma plain_4:
  "plain insn_rows_4 = [(0x0, 0xe003), (0x2000, 0xe003), (0x4000, 0xe003), (0x6000, 0xe003), (0xa000, 0xe003), (0xc000, 0xe003),
     (0xe000, 0xe003), (0x1, 0xe003), (0x2001, 0xe003), (0x4001, 0xe003), (0x6001, 0xe003), (0x8001, 0xec03),
     (0x8401, 0xec03), (0x8801, 0xec03), (0x8c01, 0xfc63), (0x8c21, 0xfc63), (0x8c41, 0xfc63), (0x8c61, 0xfc63),
     (0x9c01, 0xfc63), (0x9c21, 0xfc63), (0xa001, 0xe003), (0xc001, 0xe003), (0xe001, 0xe003), (0x2, 0xe003),
     (0x2002, 0xe003), (0x4002, 0xe003), (0x6002, 0xe003), (0x8002, 0xf003), (0x9002, 0xf003), (0xa002, 0xe003),
     (0xc002, 0xe003), (0xe002, 0xe003), (0xb, 0x707f), (0x200b, 0x707f), (0x300b, 0x707f), (0x400b, 0x707f),
     (0x600b, 0x707f), (0x700b, 0x707f), (0x2b, 0x707f), (0x202b, 0x707f), (0x302b, 0x707f), (0x402b, 0x707f),
     (0x602b, 0x707f), (0x702b, 0x707f), (0x5b, 0x707f), (0x205b, 0x707f), (0x305b, 0x707f), (0x405b, 0x707f),
     (0x605b, 0x707f), (0x705b, 0x707f), (0x7b, 0x707f), (0x207b, 0x707f), (0x307b, 0x707f), (0x407b, 0x707f),
     (0x607b, 0x707f), (0x707b, 0x707f)]"
  by code_simp

lemma covered_4: "list_all covered (plain insn_rows_4)"
  unfolding plain_4 by code_simp

lemma groups_4:
  "group 0 (plain insn_rows_4) = [(0x0, 0xe003), (0x2000, 0xe003), (0x4000, 0xe003), (0x6000, 0xe003), (0xa000, 0xe003), (0xc000, 0xe003),
     (0xe000, 0xe003), (0x2, 0xe003), (0x2002, 0xe003), (0x4002, 0xe003), (0x6002, 0xe003), (0x8002, 0xf003),
     (0x9002, 0xf003), (0xa002, 0xe003), (0xc002, 0xe003), (0xe002, 0xe003)]"
  "group 1 (plain insn_rows_4) = [(0x1, 0xe003), (0x2001, 0xe003), (0x4001, 0xe003), (0x6001, 0xe003), (0x8001, 0xec03), (0x8401, 0xec03),
     (0x8801, 0xec03), (0x8c01, 0xfc63), (0x8c21, 0xfc63), (0x8c41, 0xfc63), (0x8c61, 0xfc63), (0x9c01, 0xfc63),
     (0x9c21, 0xfc63), (0xa001, 0xe003), (0xc001, 0xe003), (0xe001, 0xe003)]"
  "group 2 (plain insn_rows_4) = [(0xb, 0x707f), (0x200b, 0x707f), (0x300b, 0x707f), (0x400b, 0x707f), (0x600b, 0x707f), (0x700b, 0x707f),
     (0x2b, 0x707f), (0x202b, 0x707f), (0x302b, 0x707f), (0x402b, 0x707f), (0x602b, 0x707f), (0x702b, 0x707f)
     ]"
  "group 3 (plain insn_rows_4) = [(0x5b, 0x707f), (0x205b, 0x707f), (0x305b, 0x707f), (0x405b, 0x707f), (0x605b, 0x707f), (0x705b, 0x707f),
     (0x7b, 0x707f), (0x207b, 0x707f), (0x307b, 0x707f), (0x407b, 0x707f), (0x607b, 0x707f), (0x707b, 0x707f)
     ]"
  unfolding plain_4 by code_simp+

lemma separated_0:
  "\<exists>t. separates t
    (group 0 (plain insn_rows_1) @ group 0 (plain insn_rows_2) @ group 0 (plain insn_rows_3) @ group 0 (plain insn_rows_4))"
  unfolding groups_1 groups_2 groups_3 groups_4 append.simps
  by (rule exI[of _ "(Split 13 (Split 14 (Split 15 (Split 1 Leaf Leaf) (Split 12 Leaf Leaf)) (Split 1 (Split 15 Leaf Leaf) (Split 15 Leaf Leaf))) (Split 1 (Split 14 (Split 15 Leaf Leaf) (Split 15 Leaf Leaf)) (Split 14 (Split 15 Leaf Leaf) (Split 15 Leaf Leaf))))"]) code_simp

lemma separated_1:
  "\<exists>t. separates t
    (group 1 (plain insn_rows_1) @ group 1 (plain insn_rows_2) @ group 1 (plain insn_rows_3) @ group 1 (plain insn_rows_4))"
  unfolding groups_1 groups_2 groups_3 groups_4 append.simps
  by (rule exI[of _ "(Split 13 (Split 14 (Split 15 Leaf (Split 10 (Split 11 Leaf Leaf) (Split 11 Leaf (Split 5 (Split 6 (Split 12 Leaf Leaf) Leaf) (Split 6 (Split 12 Leaf Leaf) Leaf))))) (Split 15 Leaf Leaf)) (Split 14 (Split 15 Leaf Leaf) (Split 15 Leaf Leaf)))"]) code_simp

lemma separated_2:
  "\<exists>t. separates t
    (group 2 (plain insn_rows_1) @ group 2 (plain insn_rows_2) @ group 2 (plain insn_rows_3) @ group 2 (plain insn_rows_4))"
  unfolding groups_1 groups_2 groups_3 groups_4 append.simps
  by (rule exI[of _ "(Split 3 (Split 5 (Split 4 (Split 13 (Split 12 (Split 2 (Split 14 Leaf Leaf) Leaf) (Split 14 Leaf Leaf)) (Split 2 (Split 12 (Split 14 Leaf Leaf) Leaf) (Split 12 Leaf Leaf))) (Split 2 (Split 12 (Split 13 (Split 14 Leaf Leaf) (Split 14 Leaf Leaf)) (Split 13 (Split 14 Leaf (Split 30 Leaf Leaf)) (Split 14 Leaf Leaf))) Leaf)) (Split 4 (Split 2 (Split 12 (Split 13 Leaf Leaf) (Split 13 Leaf Leaf)) (Split 12 (Split 13 Leaf Leaf) Leaf)) (Split 2 (Split 12 (Split 13 (Split 14 (Split 25 (Split 30 Leaf Leaf) Leaf) (Split 25 Leaf Leaf)) (Split 14 (Split 25 Leaf Leaf) (Split 25 Leaf Leaf))) (Split 13 (Split 14 (Split 25 Leaf Leaf) (Split 25 (Split 30 Leaf Leaf) Leaf)) (Split 14 (Split 25 Leaf Leaf) (Split 25 Leaf Leaf)))) Leaf))) (Split 2 (Split 4 (Split 5 (Split 14 (Split 12 (Split 13 Leaf Leaf) Leaf) (Split 12 (Split 13 Leaf Leaf) Leaf)) (Split 14 (Split 12 (Split 13 Leaf Leaf) Leaf) (Split 12 (Split 13 Leaf Leaf) Leaf))) (Split 12 (Split 14 (Split 5 Leaf (Split 25 (Split 30 Leaf Leaf) Leaf)) (Split 13 Leaf Leaf)) (Split 5 (Split 14 Leaf (Split 30 Leaf Leaf)) (Split 25 (Split 14 Leaf (Split 30 Leaf Leaf)) (Split 13 Leaf Leaf))))) (Split 12 (Split 5 Leaf (Split 29 (Split 27 (Split 30 (Split 28 (Split 31 Leaf Leaf) Leaf) (Split 31 Leaf Leaf)) (Split 28 Leaf Leaf)) (Split 30 (Split 31 Leaf Leaf) (Split 31 Leaf Leaf)))) (Split 5 Leaf (Split 29 (Split 27 (Split 30 (Split 28 (Split 31 Leaf Leaf) Leaf) (Split 31 Leaf Leaf)) (Split 28 Leaf Leaf)) (Split 30 (Split 31 Leaf Leaf) (Split 31 Leaf Leaf)))))))"]) code_simp

lemma separated_3:
  "\<exists>t. separates t
    (group 3 (plain insn_rows_1) @ group 3 (plain insn_rows_2) @ group 3 (plain insn_rows_3) @ group 3 (plain insn_rows_4))"
  unfolding groups_1 groups_2 groups_3 groups_4 append.simps
  by (rule exI[of _ "(Split 5 (Split 3 (Split 25 (Split 4 (Split 2 Leaf Leaf) (Split 30 (Split 27 (Split 31 (Split 29 (Split 28 Leaf Leaf) (Split 12 (Split 13 Leaf Leaf) Leaf)) (Split 12 (Split 13 Leaf Leaf) Leaf)) (Split 29 (Split 28 Leaf Leaf) (Split 12 Leaf Leaf))) (Split 20 (Split 28 (Split 29 (Split 21 Leaf Leaf) (Split 12 Leaf Leaf)) (Split 21 (Split 27 (Split 29 Leaf Leaf) Leaf) Leaf)) (Split 21 (Split 28 (Split 31 Leaf Leaf) Leaf) (Split 28 (Split 31 Leaf Leaf) Leaf))))) (Split 26 (Split 4 (Split 2 Leaf Leaf) (Split 30 (Split 27 (Split 31 (Split 29 (Split 28 Leaf Leaf) (Split 12 (Split 13 Leaf Leaf) Leaf)) (Split 12 (Split 13 Leaf Leaf) Leaf)) (Split 29 (Split 28 Leaf Leaf) (Split 12 Leaf Leaf))) (Split 28 (Split 20 (Split 29 (Split 21 (Split 31 Leaf Leaf) Leaf) (Split 12 Leaf Leaf)) (Split 21 Leaf (Split 31 Leaf Leaf))) (Split 20 (Split 21 (Split 27 (Split 29 Leaf Leaf) Leaf) Leaf) (Split 21 Leaf Leaf))))) (Split 4 (Split 2 Leaf Leaf) (Split 30 (Split 27 (Split 31 (Split 29 (Split 28 Leaf Leaf) (Split 12 (Split 13 Leaf Leaf) Leaf)) (Split 12 (Split 13 Leaf Leaf) Leaf)) (Split 29 (Split 28 Leaf Leaf) (Split 12 Leaf Leaf))) (Split 28 (Split 20 (Split 29 (Split 21 (Split 31 Leaf Leaf) Leaf) (Split 12 Leaf Leaf)) (Split 21 (Split 31 Leaf Leaf) Leaf)) (Split 20 (Split 21 (Split 27 (Split 29 Leaf Leaf) Leaf) Leaf) (Split 21 Leaf Leaf))))))) (Split 4 (Split 2 (Split 25 Leaf (Split 26 Leaf Leaf)) (Split 25 Leaf (Split 26 Leaf Leaf))) (Split 14 (Split 12 (Split 13 Leaf Leaf) Leaf) (Split 12 (Split 13 Leaf Leaf) Leaf)))) (Split 4 (Split 2 (Split 12 (Split 13 (Split 14 Leaf Leaf) Leaf) (Split 13 (Split 14 Leaf Leaf) Leaf)) (Split 3 Leaf Leaf)) (Split 13 (Split 3 (Split 12 (Split 28 (Split 20 (Split 21 Leaf Leaf) Leaf) (Split 25 (Split 20 (Split 29 Leaf Leaf) Leaf) (Split 27 Leaf Leaf))) (Split 14 Leaf Leaf)) (Split 14 Leaf Leaf)) (Split 3 (Split 12 (Split 14 Leaf Leaf) (Split 14 Leaf Leaf)) (Split 12 (Split 14 Leaf Leaf) (Split 14 Leaf Leaf))))))"]) code_simp

lemma separates_unique:
  "separates t rs \<Longrightarrow> length (filter (\<lambda>x. w AND snd x = fst x) rs) \<le> 1"
proof (induction t arbitrary: rs)
  case Leaf
  then show ?case by (cases rs) auto
next
  case (Split b l r)
  have side: "bit (fst x) b = bit w b" if "x \<in> set rs" "w AND snd x = fst x" for x
    using Split.prems that by (metis (no_types, lifting) bit_and_iff list_all_iff separates.simps(2))
  have eq: "filter (\<lambda>x. w AND snd x = fst x) rs = filter (\<lambda>x. w AND snd x = fst x) (filter (\<lambda>x. bit (fst x) b = bit w b) rs)"
    unfolding filter_filter by (rule filter_cong) (use side in blast)+
  have "length (filter (\<lambda>x. w AND snd x = fst x) (filter (\<lambda>x. bit (fst x) b = bit w b) rs)) \<le> 1"
  proof (cases "bit w b")
    case True
    then have "separates r (filter (\<lambda>x. bit (fst x) b = bit w b) rs)" using Split.prems by simp
    then show ?thesis by (rule Split.IH(2))
  next
    case False
    then have "separates l (filter (\<lambda>x. bit (fst x) b = bit w b) rs)" using Split.prems by simp
    then show ?thesis by (rule Split.IH(1))
  qed
  then show ?case by (simp only: eq[symmetric])
qed

lemma group_unique:
  assumes "\<And>j. j < 4 \<Longrightarrow> \<exists>t. separates t (group j rs)" "list_all covered rs"
  shows "length (filter (\<lambda>x. w AND snd x = fst x) rs) \<le> 1"
proof -
  have same: "group_of (fst x) = group_of w" if "x \<in> set rs" "w AND snd x = fst x" for x
  proof -
    have "covered x" using assms(2) that(1) by (simp add: list_all_iff)
    moreover have "bit (fst x) k \<longleftrightarrow> bit w k \<and> bit (snd x) k" for k using that(2) by (metis bit_and_iff)
    ultimately show ?thesis by (auto simp: covered_def group_of_def split: if_splits)
  qed
  have eq: "filter (\<lambda>x. w AND snd x = fst x) rs = filter (\<lambda>x. w AND snd x = fst x) (group (group_of w) rs)"
    unfolding group_def filter_filter by (rule filter_cong) (use same in blast)+
  have "group_of w < 4" by (simp add: group_of_def)
  then obtain t where "separates t (group (group_of w) rs)" using assms(1) by blast
  then show ?thesis unfolding eq by (rule separates_unique)
qed

lemma plain_append: "plain (xs @ ys) = plain xs @ plain ys"
  by (simp add: plain_def)

lemma group_append: "group j (xs @ ys) = group j xs @ group j ys"
  by (simp add: group_def)

lemma plain_unique: "length (filter (\<lambda>x. w AND snd x = fst x) (plain insn_table)) \<le> 1"
proof (rule group_unique)
  show "\<exists>t. separates t (group j (plain insn_table))" if "j < 4" for j
  proof -
    have "j = 0 \<or> j = 1 \<or> j = 2 \<or> j = 3" using that by auto
    then show ?thesis
      using separated_0 separated_1 separated_2 separated_3
      by (auto simp: insn_table_def plain_append group_append)
  qed
  show "list_all covered (plain insn_table)"
    by (simp add: insn_table_def plain_append covered_1 covered_2 covered_3 covered_4)
qed

text \<open>C31: At most one instruction of the table matches a word, apart from the overlaid ones.\<close>

theorem decode_unambiguous: "length (filter (\<lambda>n. n \<notin> set overlaid) (decode w)) \<le> 1"
proof -
  have "filter (\<lambda>n. n \<notin> set overlaid) (decode w) = map fst (filter (matches w) (filter (\<lambda>r. fst r \<notin> set overlaid) insn_table))"
    by (simp add: decode_def filter_map comp_def conj_commute)
  also have "length \<dots> = length (filter (\<lambda>x. w AND snd x = fst x) (plain insn_table))"
    by (simp add: plain_def filter_map comp_def matches_def)
  finally show ?thesis using plain_unique[of w] by simp
qed

section \<open>Rows\<close>

definition compressed :: "string \<Rightarrow> bool" where
  "compressed n \<longleftrightarrow> take 2 n = ''c_''"

text \<open>A row that some word matches, with the length that its low bits give.\<close>

definition good_row :: "insn_row \<Rightarrow> bool" where
  "good_row r \<longleftrightarrow> matches (fst (snd r)) r \<and> snd (snd r) AND 3 = 3 \<and> (fst (snd r) AND 3 = 3 \<longleftrightarrow> \<not> compressed (fst r))"

lemma good_rows_1: "list_all good_row insn_rows_1" by code_simp
lemma good_rows_2: "list_all good_row insn_rows_2" by code_simp
lemma good_rows_3: "list_all good_row insn_rows_3" by code_simp
lemma good_rows_4: "list_all good_row insn_rows_4" by code_simp

lemmas good_rows = good_rows_1 good_rows_2 good_rows_3 good_rows_4

lemma masked_eq_iff:
  assumes "m \<le> 32"
  shows "w AND mask m = v \<longleftrightarrow> (\<forall>n<m. bit w n = bit v n) \<and> (\<forall>n\<ge>m. \<not> bit (v :: 32 word) n)"
proof
  assume "w AND mask m = v"
  then have "bit v n \<longleftrightarrow> bit w n \<and> n < m" for n using assms by (auto simp: bit_and_iff bit_mask_iff)
  then show "(\<forall>n<m. bit w n = bit v n) \<and> (\<forall>n\<ge>m. \<not> bit v n)" by auto
next
  assume v: "(\<forall>n<m. bit w n = bit v n) \<and> (\<forall>n\<ge>m. \<not> bit v n)"
  show "w AND mask m = v"
  proof (rule bit_word_eqI)
    fix n
    assume "n < LENGTH(32)"
    then show "bit (w AND mask m) n = bit v n" using v by (cases "n < m") (auto simp: bit_and_iff bit_mask_iff)
  qed
qed

lemma three_mask: "(3 :: 'a::len word) = mask 2"
  by (simp add: mask_eq_exp_minus_1)

lemma and_3_bits: "w AND 3 = 0 \<longleftrightarrow> \<not> bit w 0 \<and> \<not> bit (w :: 32 word) 1"
  by (simp add: three_mask masked_eq_iff less_2_cases_iff all_conj_distrib imp_conjL)

text \<open>C33: \<open>insn_len\<close> gives the length of a decoded instruction, four bytes or, for a compressed one, two,
  exactly for the 32-bit instructions and for the compressed ones whose low bits are zero: it tests
  for some low bit being set where it should test for both, so that every compressed instruction of
  the other two quadrants gets four bytes.\<close>

theorem insn_len_of_decoded:
  assumes "n \<in> set (decode w)"
  shows "insn_len (ucast w) = (if compressed n then 2 else 4) \<longleftrightarrow> (compressed n \<longrightarrow> w AND 3 = 0)"
proof -
  obtain r where r: "r \<in> set insn_table" "matches w r" "fst r = n" using assms by (auto simp: decode_def)
  have "good_row r" using r(1) good_rows by (auto simp: insn_table_def list_all_iff)
  then have good: "snd (snd r) AND 3 = 3" "fst (snd r) AND 3 = 3 \<longleftrightarrow> \<not> compressed n"
    using r(3) by (simp_all add: good_row_def)
  have "w AND 3 = w AND (snd (snd r) AND 3)" by (simp only: good)
  also have "\<dots> = fst (snd r) AND 3" using r(2) by (simp only: matches_def and.assoc[symmetric])
  finally have "w AND 3 = 3 \<longleftrightarrow> \<not> compressed n" using good(2) by simp
  moreover have "insn_len (ucast w) = (if w AND 3 = 0 then 2 else 4)"
    by (simp add: insn_len_low_bits and_3_bits bit_ucast_iff)
  ultimately show ?thesis by auto
qed

theorem insn_len_of_decoded_witness:
  "insn_len (ucast (1 :: 32 word)) \<noteq> 2 \<and> compressed ''c_addi''"
proof -
  have "compressed ''c_addi''" by (simp add: compressed_def)
  moreover have "(''c_addi'', 1, 0xe003) \<in> set insn_table" by (simp add: insn_table_def insn_rows_4_def)
  then have "''c_addi'' \<in> set (decode 1)" by (force simp: decode_def matches_def)
  ultimately show ?thesis using insn_len_of_decoded[of "''c_addi''" 1] by simp
qed

section \<open>Fields\<close>

definition disjoint_fields :: "(string \<times> 'a::len word) list \<Rightarrow> bool" where
  "disjoint_fields fs \<longleftrightarrow> sorted_wrt (\<lambda>a b. snd a AND snd b = 0) fs"

text \<open>The fields of a register do not overlap, and the status register of the supervisor is a view of
  the machine's: each of its fields is a field of that one with the same bits.\<close>

theorem status_view:
  "disjoint_fields mstatus_fields \<and> disjoint_fields dcsr_fields \<and> disjoint_fields (mcontrol_fields 32)
   \<and> disjoint_fields (mcontrol_fields 64) \<and> disjoint_fields mip_fields \<and> disjoint_fields satp32_fields
   \<and> disjoint_fields satp64_fields \<and> disjoint_fields pte_fields
   \<and> list_all (\<lambda>(n, f). (CHR ''M'' # tl n, f) \<in> set mstatus_fields) sstatus_fields"
  by (intro conjI; code_simp)

text \<open>A page table entry points to the next level when it is valid and none of its permissions is set.\<close>

lemma PTE_TABLE_bits: "PTE_TABLE pte \<longleftrightarrow> bit pte 0 \<and> \<not> bit pte 1 \<and> \<not> bit pte 2 \<and> \<not> bit pte 3"
proof -
  have "PTE_TABLE pte \<longleftrightarrow> pte AND mask 4 = 1"
    by (simp add: PTE_TABLE_def pte_field_def pte_fields_def mask_eq_exp_minus_1)
  also have "\<dots> \<longleftrightarrow> (\<forall>k<4. bit pte k = (k = 0))"
    by (simp add: masked_eq_iff bit_1_iff)
  finally show ?thesis by (simp add: all_less_4)
qed

end
