(* ===== verification/Hosted_Main.thy ===== *)
theory Hosted_Main
  imports Core_Contexts Cvt
begin

text \<open>
  CoreMark on ports with an operating system: \<open>core_portme.c\<close> of \<open>linux\<close> (to which those of \<open>linux64\<close> and
  \<open>cygwin\<close> are equal) and of \<open>simple\<close>, and \<open>core_main.c\<close> in their configurations: the seeds from the
  arguments, blocks from the heap or the stack, contexts in processes or threads, and seconds as
  doubles.  The operations on doubles are the record \<open>float_ops\<close> of \<open>Cvt\<close> with the conversion of an
  integer; the readings of the clock, the addresses and the contents of fresh blocks and the
  results of system calls are parameters.  The number of contexts is below 65536, the range of the
  counter of \<open>main\<close>.
\<close>

section \<open>Time\<close>

record 'd secs_ops = "'d float_ops" +
  of_int_d :: "int \<Rightarrow> 'd"

text \<open>A clock: its readings, the macros \<open>MYTIMEDIFF\<close> and \<open>EE_TICKS_PER_SEC\<close>.\<close>

record 'ts clock =
  reading :: "nat \<Rightarrow> 'ts"
  difference :: "'ts \<Rightarrow> 'ts \<Rightarrow> int option"
  ticks_per_sec :: int

definition timespec_clock :: "(nat \<Rightarrow> timespec) \<Rightarrow> timespec clock" where
  "timespec_clock r = \<lparr>reading = r, difference = MYTIMEDIFF_timespec, ticks_per_sec = 1000000000 div 1000000\<rparr>"

text \<open>\<open>clock()\<close> of the processor time, with the \<open>CLOCKS_PER_SEC\<close> of POSIX.\<close>

definition MYTIMEDIFF_clock :: "int \<Rightarrow> int \<Rightarrow> int option" where
  "MYTIMEDIFF_clock fin ini = int32 (fin - ini)"

definition processor_clock :: "(nat \<Rightarrow> int) \<Rightarrow> int clock" where
  "processor_clock r = \<lparr>reading = r, difference = MYTIMEDIFF_clock, ticks_per_sec = 1000000 div 1\<rparr>"

record 'ts stamps =
  start_stamp :: 'ts
  stop_stamp :: 'ts
  taken :: nat

definition h_start_time :: "'ts clock \<Rightarrow> 'ts stamps \<Rightarrow> 'ts stamps" where
  "h_start_time c t = t\<lparr>start_stamp := reading c (taken t), taken := taken t + 1\<rparr>"

definition h_stop_time :: "'ts clock \<Rightarrow> 'ts stamps \<Rightarrow> 'ts stamps" where
  "h_stop_time c t = t\<lparr>stop_stamp := reading c (taken t), taken := taken t + 1\<rparr>"

definition h_get_time :: "'ts clock \<Rightarrow> 'ts stamps \<Rightarrow> int option" where
  "h_get_time c t = difference c (stop_stamp t) (start_stamp t)"

definition h_time_in_secs :: "'d secs_ops \<Rightarrow> 'ts clock \<Rightarrow> int \<Rightarrow> 'd" where
  "h_time_in_secs F c ticks = ddiv F (of_int_d F ticks) (of_int_d F (ticks_per_sec c))"

section \<open>Threads\<close>

text \<open>The codes of \<open>pthread_create\<close> and \<open>pthread_join\<close>; a thread that was not created, or is not known to
  have ended, leaves the results undefined.\<close>

definition core_start_parallel_thread :: "int \<Rightarrow> core_results \<Rightarrow> ee_u8 \<times> bool" where
  "core_start_parallel_thread create res = (word_of_int create, create = 0)"

definition core_stop_parallel_thread :: "int \<Rightarrow> bool \<Rightarrow> (core_results \<Rightarrow> core_results option) \<Rightarrow> core_results
    \<Rightarrow> (ee_u8 \<times> core_results) option" where
  "core_stop_parallel_thread join started run res =
     (if started \<and> join = 0 then do { res' \<leftarrow> run res; Some (word_of_int join, res') } else None)"

section \<open>Seeds from the arguments\<close>

definition arg_seeds :: "int \<Rightarrow> ee_u8 list list \<Rightarrow> seeds option" where
  "arg_seeds argc argv =
     do {
       s1 \<leftarrow> get_seed_args 1 argc argv;
       s2 \<leftarrow> get_seed_args 2 argc argv;
       s3 \<leftarrow> get_seed_args 3 argc argv;
       s4 \<leftarrow> get_seed_args 4 argc argv;
       s5 \<leftarrow> get_seed_args 5 argc argv;
       Some \<lparr>seed1_volatile = s1, seed2_volatile = s2, seed3_volatile = s3, seed4_volatile = s4, seed5_volatile = s5\<rparr>
     }"

section \<open>Memory\<close>

text \<open>The contents of a fresh block by type; there is none behind NULL.\<close>

record block =
  block_heads :: "list_head list"
  block_datas :: "list_data list"
  block_mats :: matrices
  block_state :: "ee_u8 list"

definition place_block :: "block \<Rightarrow> core_results \<Rightarrow> core_results" where
  "place_block b r =
     (if rd (r_memblock r) 0 = Some 0 then r
      else r\<lparr>heads := block_heads b, datas := block_datas b, mats := block_mats b, state_mem := block_state b\<rparr>)"

text \<open>The inits of a context use the size of the first one.\<close>

definition init_context :: "ee_u32 \<Rightarrow> core_results \<Rightarrow> core_results option" where
  "init_context sz r = map_option (\<lambda>r'. r'\<lparr>r_size := r_size r\<rparr>) (call_inits (r\<lparr>r_size := sz\<rparr>))"

definition lay_out :: "(nat \<Rightarrow> block) \<Rightarrow> core_results list \<Rightarrow> core_results list option" where
  "lay_out fresh results =
     do {
       results1 \<leftarrow> divide_sizes results;
       results2 \<leftarrow> assign_all_pointers results1;
       r0 \<leftarrow> rd results2 0;
       for_contexts (\<lambda>i r. init_context (r_size r0) (place_block (fresh i) r)) results2
     }"

section \<open>The number of iterations\<close>

partial_function (option) h_calibrate :: "'d secs_ops \<Rightarrow> 'ts clock \<Rightarrow> core_results \<Rightarrow> 'ts stamps \<Rightarrow> 'd
    \<Rightarrow> (core_results \<times> 'ts stamps \<times> 'd) option" where
  "h_calibrate F c res t secs_passed =
     (if dless F secs_passed (of_int_d F 1) then do {
        let res1 = res\<lparr>r_iterations := r_iterations res * 10\<rparr>;
        let t1 = h_start_time c t;
        res2 \<leftarrow> iterate res1;
        let t2 = h_stop_time c t1;
        ticks \<leftarrow> h_get_time c t2;
        h_calibrate F c res2 t2 (h_time_in_secs F c ticks)
      }
      else Some (res, t, secs_passed))"

declare h_calibrate.simps [code]

text \<open>\<open>(ee_u32) secs_passed\<close>, undefined out of range.\<close>

definition double_to_u32 :: "'d secs_ops \<Rightarrow> 'd \<Rightarrow> ee_u32 option" where
  "double_to_u32 F x = (let n = trunc F x in if 0 \<le> n \<and> n < 2 ^ 32 then Some (word_of_int n) else None)"

definition h_set_iterations :: "'d secs_ops \<Rightarrow> 'ts clock \<Rightarrow> core_results \<Rightarrow> 'ts stamps
    \<Rightarrow> (core_results \<times> 'ts stamps) option" where
  "h_set_iterations F c res t =
     (if r_iterations res = 0 then do {
        (res', t', secs_passed) \<leftarrow> h_calibrate F c (res\<lparr>r_iterations := 1\<rparr>) t (of_int_d F 0);
        d \<leftarrow> double_to_u32 F secs_passed;
        let divisor = (if d = 0 then 1 else d);
        Some (res'\<lparr>r_iterations := r_iterations res' * (1 + 10 div divisor)\<rparr>, t')
      }
      else Some (res, t))"

section \<open>Reporting\<close>

datatype 'd report_arg = Plain print_arg | PFloat 'd

type_synonym 'd report_line = "string \<times> 'd report_arg list"

definition plain :: "print_call \<Rightarrow> 'd report_line" where
  "plain c = (fst c, map Plain (snd c))"

text \<open>With the macro \<open>MEM_LOCATION_UNSPEC\<close> and the number of the method that provides the memory.\<close>

record hosted_config =
  report :: report_config
  MEM_LOCATION_UNSPEC :: bool
  MEM_METHOD :: nat

definition mem_name :: "string list" where "mem_name = [''Static'', ''Heap'', ''Stack'']"

definition per_second :: "'d secs_ops \<Rightarrow> ee_u32 \<Rightarrow> core_results \<Rightarrow> 'd \<Rightarrow> 'd" where
  "per_second F contexts res secs = ddiv F (of_int_d F (uint (contexts * r_iterations res))) secs"

definition report_secs :: "'d secs_ops \<Rightarrow> ee_u32 \<Rightarrow> core_results \<Rightarrow> int \<Rightarrow> 'd \<Rightarrow> ee_s16 \<Rightarrow> 'd report_line list \<times> ee_s16" where
  "report_secs F contexts res total_time secs total_errors =
     (let out1 = [plain (''CoreMark Size    : %lu'' @ nl, [PNum (uint (r_size res))]),
            plain (''Total ticks      : %lu'' @ nl, [PNum (uint (word_of_int total_time :: ee_u32))]),
            (''Total time (secs): %f'' @ nl, [PFloat secs])];
          out2 = (if dless F (of_int_d F 0) secs
            then [(''Iterations/Sec   : %f'' @ nl, [PFloat (per_second F contexts res secs)])] else []);
          (out3, total') = (if dless F secs (of_int_d F 10)
            then ([plain (''ERROR! Must execute for at least 10 secs for a valid result!'' @ nl, [])], total_errors + 1)
            else ([], total_errors))
      in (out1 @ out2 @ out3, total'))"

text \<open>The score, which only the 2K performance run has.\<close>

definition report_score :: "'d secs_ops \<Rightarrow> hosted_config \<Rightarrow> ee_u32 \<Rightarrow> core_results \<Rightarrow> 'd \<Rightarrow> 'd report_line list option" where
  "report_score F cfg contexts res secs =
     do {
       m \<leftarrow> (if MEM_LOCATION_UNSPEC cfg then rd mem_name (MEM_METHOD cfg) else Some (MEM_LOCATION (report cfg)));
       Some ([(''CoreMark 1.0 : %f / %s %s'', [PFloat (per_second F contexts res secs),
             Plain (PStr (COMPILER_VERSION (report cfg))), Plain (PStr (COMPILER_FLAGS (report cfg)))]),
           plain ('' / %s'', [PStr m])]
         @ (case PARALLEL_METHOD (report cfg) of
              Some par \<Rightarrow> [plain ('' / %d:%s'', [PNum (uint contexts), PStr par])] | None \<Rightarrow> [])
         @ [plain (nl, [])])
     }"

definition h_verdict :: "int \<Rightarrow> 'd report_line list option \<Rightarrow> ee_s16 \<Rightarrow> 'd report_line list option" where
  "h_verdict known_id score total_errors =
     do {
       out1 \<leftarrow> (if total_errors = 0 then
           (if known_id = 3 then map_option ((#) (plain validated)) score else Some [plain validated])
         else Some []);
       Some (out1 @ (if sint total_errors > 0 then [plain errors_detected] else [])
         @ (if sint total_errors < 0 then [plain cannot_validate] else []))
     }"

text \<open>\<open>contexts\<close> is \<open>default_num_contexts\<close>, the number of the contexts that are checked and reported.\<close>

definition h_check_and_report :: "'d secs_ops \<Rightarrow> hosted_config \<Rightarrow> type_sizes \<Rightarrow> nat \<Rightarrow> core_results list \<Rightarrow> int \<Rightarrow> 'd
    \<Rightarrow> ('d report_line list \<times> ee_s16 \<times> core_results list) option" where
  "h_check_and_report F cfg z contexts results total_time secs =
     (if length results < contexts then None
      else do {
        r0 \<leftarrow> rd results 0;
        let seedcrc = seed_crc r0;
        let (out1, known_id, errors0) = known_run seedcrc;
        (out2, checked, errors1) \<leftarrow> check_results z known_id (take contexts results) errors0;
        let results' = checked @ drop contexts results;
        r0' \<leftarrow> rd results' 0;
        let (out3, errors2) = report_secs F (of_nat contexts) r0' total_time secs errors1;
        let out4 = report_contexts (report cfg) r0' checked seedcrc;
        out5 \<leftarrow> h_verdict known_id (report_score F cfg (of_nat contexts) r0' secs) errors2;
        Some (map plain (out1 @ out2) @ out3 @ map plain out4 @ out5, errors2, results')
      })"

section \<open>The main program\<close>

text \<open>From the blocks on: \<open>bench\<close> is the timed run.\<close>

definition run_and_report :: "'d secs_ops \<Rightarrow> 'ts clock \<Rightarrow> hosted_config \<Rightarrow> type_sizes \<Rightarrow> (nat \<Rightarrow> block)
    \<Rightarrow> (core_results list \<Rightarrow> (print_call list \<times> core_results list) option) \<Rightarrow> nat \<Rightarrow> 'ts stamps \<Rightarrow> core_results list
    \<Rightarrow> ('d report_line list \<times> core_results list) option" where
  "run_and_report F c cfg z fresh bench contexts t0 results0 =
     do {
       results1 \<leftarrow> lay_out fresh results0;
       r0 \<leftarrow> rd results1 0;
       (r0', t1) \<leftarrow> h_set_iterations F c r0 t0;
       let t2 = h_start_time c t1;
       (out1, results2) \<leftarrow> bench (results1[0 := r0']);
       let t3 = h_stop_time c t2;
       total_time \<leftarrow> h_get_time c t3;
       (out2, errors, results3) \<leftarrow> h_check_and_report F cfg z contexts results2 total_time (h_time_in_secs F c total_time);
       Some (map plain out1 @ out2, results3)
     }"

definition run_single :: "core_results list \<Rightarrow> (print_call list \<times> core_results list) option" where
  "run_single results = do { r \<leftarrow> rd results 0; r' \<leftarrow> iterate r; Some ([], results[0 := r']) }"

definition blank_results :: core_results where "blank_results = initial_results 0 0"

definition list_head_too_big :: print_call where
  "list_head_too_big = (''list_head structure too big for comparable data!'' @ nl, [])"

definition linux_main :: "'d secs_ops \<Rightarrow> (nat \<Rightarrow> timespec) \<Rightarrow> portme_config \<Rightarrow> hosted_config \<Rightarrow> nat
    \<Rightarrow> (nat \<Rightarrow> (ee_u32 \<Rightarrow> nat option) option) \<Rightarrow> (nat \<Rightarrow> block) \<Rightarrow> (nat \<Rightarrow> os_calls) \<Rightarrow> timespec stamps
    \<Rightarrow> nat \<Rightarrow> ee_u8 list list \<Rightarrow> ee_u32 \<Rightarrow> ('d report_line list \<times> int \<times> core_results list \<times> core_portable) option" where
  "linux_main F r cfg hcfg sizeof_list_head malloc fresh os t0 argc argv total_data_size =
     do {
       (out0, argc', argv', p) \<leftarrow> portable_init cfg argc argv
         \<lparr>portable_id = 0, default_num_contexts = of_nat (MULTITHREAD cfg)\<rparr>;
       if sizeof_list_head > 128 then Some (map plain (out0 @ [list_head_too_big]), 0, [], p)
       else do {
         v \<leftarrow> arg_seeds (int argc') argv';
         seed7 \<leftarrow> get_seed_args 7 (int argc') argv';
         let r0 = read_seeds v blank_results;
         let n = unat (default_num_contexts p);
         let contexts = (if MULTITHREAD cfg > 1 \<and> n > MULTITHREAD cfg then MULTITHREAD cfg else n);
         results0 \<leftarrow> for_contexts (malloc_context seed7 malloc total_data_size r0)
           (r0 # replicate (MULTITHREAD cfg - 1) blank_results);
         (out1, results) \<leftarrow> run_and_report F (timespec_clock r) hcfg (sizes cfg) fresh
           (if MULTITHREAD cfg > 1 then run_contexts os (MULTITHREAD cfg) n else run_single) contexts t0 results0;
         Some (map plain out0 @ out1, 0, results, portable_fini p)
       }
     }"

section \<open>The simple port\<close>

definition simple_init :: "type_sizes \<Rightarrow> core_portable \<Rightarrow> print_call list \<times> core_portable" where
  "simple_init z p =
     ((if sz_ptr_int z \<noteq> sz_ptr z
        then [(''ERROR! Please define ee_ptr_int to a type that holds a pointer!'' @ nl, [])] else [])
      @ (if sz_u32 z \<noteq> 4 then [(''ERROR! Please define ee_u32 to a 32b unsigned type!'' @ nl, [])] else []),
      p\<lparr>portable_id := 1\<rparr>)"

definition simple_fini :: "core_portable \<Rightarrow> core_portable" where
  "simple_fini p = p\<lparr>portable_id := 0\<rparr>"

text \<open>The run type where none is defined.\<close>

definition simple_default_run :: "ee_u32 \<Rightarrow> run_type" where
  "simple_default_run total_data_size =
     (if total_data_size = 1200 then PROFILE_RUN else if total_data_size = 2000 then PERFORMANCE_RUN else VALIDATION_RUN)"

definition simple_main :: "'d secs_ops \<Rightarrow> (nat \<Rightarrow> int) \<Rightarrow> type_sizes \<Rightarrow> hosted_config \<Rightarrow> nat \<Rightarrow> ee_u32 \<Rightarrow> (nat \<Rightarrow> block)
    \<Rightarrow> int stamps \<Rightarrow> seeds \<Rightarrow> ee_u32 \<Rightarrow> ('d report_line list \<times> int \<times> core_results list \<times> core_portable) option" where
  "simple_main F r z hcfg sizeof_list_head stack_memblock fresh t0 v total_data_size =
     (let (out0, p) = simple_init z \<lparr>portable_id = 0, default_num_contexts = 1\<rparr>
      in if sizeof_list_head > 128 then Some (map plain (out0 @ [list_head_too_big]), 0, [], p)
      else do {
        let r0 = read_seeds v blank_results;
        results0 \<leftarrow> for_contexts (stack_context stack_memblock total_data_size r0) [r0];
        (out1, results) \<leftarrow> run_and_report F (processor_clock r) hcfg z fresh run_single 1 t0 results0;
        Some (map plain out0 @ out1, 0, results, simple_fini p)
      })"

end
