(* ===== verification/Hosted_Main_Props.thy ===== *)
theory Hosted_Main_Props
  imports Hosted_Main
begin

text \<open>
  Correctness of the hosted configurations of \<open>core_main.c\<close>: the verdict is characterised by the check
  sums and the time, and the programs of the \<open>linux\<close> and of the \<open>simple\<close> port return for the seeds of
  their run types.
\<close>

section \<open>The verdict\<close>

definition sums_match :: "nat \<Rightarrow> core_results \<Rightarrow> bool" where
  "sums_match k r \<longleftrightarrow> (r_execs r AND ID_LIST \<noteq> 0 \<longrightarrow> r_crclist r = list_known_crc ! k)
     \<and> (r_execs r AND ID_MATRIX \<noteq> 0 \<longrightarrow> r_crcmatrix r = matrix_known_crc ! k)
     \<and> (r_execs r AND ID_STATE \<noteq> 0 \<longrightarrow> r_crcstate r = state_known_crc ! k)"

lemma sums_match_err [simp]: "sums_match k (r\<lparr>r_err := e\<rparr>) = sums_match k r"
  by (simp add: sums_match_def)

text \<open>The same results but for the count of errors.\<close>

definition but_err :: "core_results \<Rightarrow> core_results \<Rightarrow> bool" where
  "but_err r r' \<longleftrightarrow> (\<exists>x. r' = r\<lparr>r_err := x\<rparr>)"

lemma but_err_intro [simp]: "but_err r (r\<lparr>r_err := x\<rparr>)"
  by (auto simp: but_err_def)

lemma but_err_refl [simp]: "but_err r r"
  using but_err_intro[of r "r_err r"] by simp

lemma but_err_fields:
  "but_err r r' \<Longrightarrow> sums_match k r' = sums_match k r \<and> r_iterations r' = r_iterations r \<and> r_size r' = r_size r"
  by (auto simp: but_err_def)

text \<open>The formats of the three verdicts; no other line has one of them.\<close>

definition verdict_format :: "string \<Rightarrow> bool" where
  "verdict_format f \<longleftrightarrow> f = fst validated \<or> f = fst errors_detected \<or> f = fst cannot_validate"

definition no_verdict :: "(string \<times> 'a) list \<Rightarrow> bool" where
  "no_verdict out \<longleftrightarrow> (\<forall>c \<in> set out. \<not> verdict_format (fst c))"

lemma no_verdict_simps [simp]:
  "no_verdict []" "no_verdict (c # out) \<longleftrightarrow> \<not> verdict_format (fst c) \<and> no_verdict out"
  "no_verdict (out @ out') \<longleftrightarrow> no_verdict out \<and> no_verdict out'"
  by (auto simp: no_verdict_def)

lemma no_verdict_plain [simp]: "no_verdict (map plain out) = no_verdict out"
  by (simp add: no_verdict_def plain_def)

lemmas verdict_formats = verdict_format_def validated_def errors_detected_def cannot_validate_def nl_def

lemma check_crc_sum:
  "check_crc what i execs crc known err = (out, err') \<Longrightarrow>
    err' = (if execs \<longrightarrow> crc = known then err else err + 1) \<and> no_verdict out"
  by (auto simp: check_crc_def verdict_formats split: if_splits)

lemma check_context_sums:
  assumes "k < 5"
  shows "\<exists>out e. check_context k i r = Some (out, r\<lparr>r_err := e\<rparr>) \<and> e \<in> {0, 1, 2, 3} \<and> (e = 0 \<longleftrightarrow> sums_match k r)
    \<and> no_verdict out"
proof -
  obtain o1 e1 where 1: "check_crc ''list'' i (r_execs r AND ID_LIST \<noteq> 0) (r_crclist r) (list_known_crc ! k) 0 = (o1, e1)"
    by fastforce
  obtain o2 e2 where 2: "check_crc ''matrix'' i (r_execs r AND ID_MATRIX \<noteq> 0) (r_crcmatrix r) (matrix_known_crc ! k) e1 = (o2, e2)"
    by fastforce
  obtain o3 e3 where 3: "check_crc ''state'' i (r_execs r AND ID_STATE \<noteq> 0) (r_crcstate r) (state_known_crc ! k) e2 = (o3, e3)"
    by fastforce
  have len: "k < length list_known_crc" "k < length matrix_known_crc" "k < length state_known_crc"
    using assms by (simp_all add: list_known_crc_def matrix_known_crc_def state_known_crc_def)
  then have "check_context k i r = Some (o1 @ o2 @ o3, r\<lparr>r_err := e3\<rparr>)"
    using 1 2 3 by (simp add: check_context_def)
  moreover have "e3 \<in> {0, 1, 2, 3} \<and> (e3 = 0 \<longleftrightarrow> sums_match k r)"
    using check_crc_sum[OF 1] check_crc_sum[OF 2] check_crc_sum[OF 3] by (auto simp: sums_match_def split: if_splits)
  moreover have "no_verdict (o1 @ o2 @ o3)"
    using check_crc_sum[OF 1] check_crc_sum[OF 2] check_crc_sum[OF 3] by auto
  ultimately show ?thesis by blast
qed

text \<open>The errors of all contexts, as long as they fit the counter.\<close>

lemma check_contexts_sums:
  assumes "k < 5" "unat e + 3 * length rs < 2 ^ 15"
  shows "\<exists>out rs' e'. check_contexts k i rs e = Some (out, rs', e') \<and> list_all2 but_err rs rs'
    \<and> unat e \<le> unat e' \<and> unat e' \<le> unat e + 3 * length rs
    \<and> (unat e' = unat e \<longleftrightarrow> (\<forall>r \<in> set rs. sums_match k r)) \<and> no_verdict out"
  using assms(2)
proof (induction rs arbitrary: i e)
  case Nil
  then show ?case by simp
next
  case (Cons r rs)
  obtain o1 x where x: "check_context k i r = Some (o1, r\<lparr>r_err := x\<rparr>)" "x \<in> {0, 1, 2, 3}" "x = 0 \<longleftrightarrow> sums_match k r"
    "no_verdict o1"
    using check_context_sums[OF assms(1)] by metis
  have "unat x \<le> 3" "unat x = 0 \<longleftrightarrow> x = 0" using x(2) by auto
  then have sum: "unat (e + x) = unat e + unat x"
    using Cons.prems by (intro unat_add_lem[THEN iffD1]) simp
  obtain o2 rs' e' where rs': "check_contexts k (i + 1) rs (e + x) = Some (o2, rs', e')"
    "list_all2 but_err rs rs'" "unat (e + x) \<le> unat e'" "unat e' \<le> unat (e + x) + 3 * length rs"
    "unat e' = unat (e + x) \<longleftrightarrow> (\<forall>r \<in> set rs. sums_match k r)" "no_verdict o2"
    using Cons.IH[of "e + x" "i + 1"] Cons.prems sum \<open>unat x \<le> 3\<close> by auto
  have "check_contexts k i (r # rs) e = Some (o1 @ o2, r\<lparr>r_err := x\<rparr> # rs', e')" using x(1) rs'(1) by simp
  moreover have "unat e' = unat e \<longleftrightarrow> (\<forall>r \<in> set (r # rs). sums_match k r)"
    using rs'(3,5) sum x(3) \<open>unat x = 0 \<longleftrightarrow> x = 0\<close> by auto
  ultimately show ?case using rs'(2-4,6) sum x(4) \<open>unat x \<le> 3\<close> by (auto simp: list_all2_Cons1)
qed

lemma check_results_sums:
  assumes "known_run c = (o1, k, e0)" "check_data_types z = 0" "length rs \<le> 10000"
  shows "\<exists>out rs' e'. check_results z k rs e0 = Some (out, rs', e') \<and> list_all2 but_err rs rs'
    \<and> no_verdict out \<and> (if 0 \<le> k then unat e' \<le> 30000 \<and> (e' = 0 \<longleftrightarrow> (\<forall>r \<in> set rs. sums_match (nat k) r)) else e' = - 1)"
proof (cases "0 \<le> k")
  case True
  then have "nat k < 5" "e0 = 0" using known_run_cases[OF assms(1)] by auto
  have "unat (0 :: ee_s16) + 3 * length rs < 2 ^ 15" using assms(3) by simp
  from check_contexts_sums[OF \<open>nat k < 5\<close> this, of 0]
  obtain out rs' e' where "check_contexts (nat k) 0 rs 0 = Some (out, rs', e')"
    "list_all2 but_err rs rs'" "unat e' \<le> 3 * length rs"
    "unat e' = 0 \<longleftrightarrow> (\<forall>r \<in> set rs. sums_match (nat k) r)" "no_verdict out"
    unfolding unat_0 add_0 by (elim exE conjE) (rule that)
  then show ?thesis using True assms(2,3) \<open>e0 = 0\<close> by (auto simp: check_results_def unat_eq_0)
next
  case False
  then have "e0 = - 1" using known_run_cases[OF assms(1)] by auto
  then show ?thesis using False assms(2) by (simp add: check_results_def list_all2_refl)
qed

lemma known_run_no_verdict: "known_run c = (out, k, e) \<Longrightarrow> no_verdict out"
  by (auto simp: known_run_def verdict_formats split: if_splits)

lemma report_crcs_no_verdict: "no_verdict (report_crcs what f rs)"
  by (auto simp: no_verdict_def report_crcs_def verdict_formats)

lemma report_contexts_no_verdict: "no_verdict (report_contexts cfg r0 rs c)"
  by (simp add: report_contexts_def Let_def report_crcs_no_verdict verdict_formats split: option.splits)

lemma report_secs_errors:
  "report_secs F n r tt secs e = (out, e') \<Longrightarrow>
    no_verdict out \<and> e' = (if dless F secs (of_int_d F 10) then e + 1 else e)"
  by (auto simp: report_secs_def Let_def plain_def verdict_formats split: if_splits)

lemma report_score_some:
  assumes "MEM_LOCATION_UNSPEC cfg \<longrightarrow> MEM_METHOD cfg < 3"
  shows "\<exists>out. report_score F cfg n r secs = Some out \<and> no_verdict out"
  using assms
  by (auto simp: report_score_def rd_def mem_name_def plain_def verdict_formats split: option.splits)

text \<open>Which of the verdicts is printed, by the sign of the count of errors.\<close>

definition prints :: "print_call \<Rightarrow> 'd report_line list \<Rightarrow> bool" where
  "prints c out \<longleftrightarrow> fst c \<in> fst ` set out"

lemma prints_simps [simp]:
  "\<not> prints c []" "prints c (l # out) \<longleftrightarrow> fst l = fst c \<or> prints c out" "prints c (out @ out') \<longleftrightarrow> prints c out \<or> prints c out'"
  by (auto simp: prints_def)

lemma no_verdict_prints:
  "no_verdict out \<Longrightarrow> \<not> prints validated out \<and> \<not> prints errors_detected out \<and> \<not> prints cannot_validate out"
  by (auto simp: no_verdict_def prints_def verdict_format_def)

lemma prints_after:
  "no_verdict out \<Longrightarrow> verdict_format (fst c) \<Longrightarrow> prints c (out @ out') = prints c out'"
  by (auto simp: no_verdict_def prints_def)

lemma verdicts_formatted [simp]:
  "verdict_format (fst validated)" "verdict_format (fst errors_detected)" "verdict_format (fst cannot_validate)"
  by (simp_all add: verdict_format_def)

lemma h_verdict_prints:
  assumes "k = 3 \<longrightarrow> (\<exists>out. score = Some out \<and> no_verdict out)"
  shows "\<exists>out. h_verdict k score e = Some out \<and> (prints validated out \<longleftrightarrow> e = 0)
    \<and> (prints errors_detected out \<longleftrightarrow> 0 < sint e) \<and> (prints cannot_validate out \<longleftrightarrow> sint e < 0)"
proof -
  have fmt: "fst validated \<noteq> fst errors_detected" "fst validated \<noteq> fst cannot_validate" "fst errors_detected \<noteq> fst cannot_validate"
    by (simp_all add: validated_def errors_detected_def cannot_validate_def nl_def)
  have "\<exists>out1. (if e = 0 then if k = 3 then map_option ((#) (plain validated)) score else Some [plain validated] else Some []) = Some out1
      \<and> (prints validated out1 \<longleftrightarrow> e = 0) \<and> \<not> prints errors_detected out1 \<and> \<not> prints cannot_validate out1"
    using assms fmt no_verdict_prints by (fastforce simp: plain_def)
  then obtain out1 where "(if e = 0 then if k = 3 then map_option ((#) (plain validated)) score else Some [plain validated] else Some []) = Some out1"
    "prints validated out1 \<longleftrightarrow> e = 0" "\<not> prints errors_detected out1" "\<not> prints cannot_validate out1" by blast
  then show ?thesis using fmt by (simp add: h_verdict_def plain_def)
qed

text \<open>The condition of the message: the sums of all contexts and ten seconds, or none of both where the
  seeds are not known.\<close>

definition accepted :: "'d secs_ops \<Rightarrow> int \<Rightarrow> core_results list \<Rightarrow> 'd \<Rightarrow> bool" where
  "accepted F k rs secs \<longleftrightarrow>
     (if 0 \<le> k then (\<forall>r \<in> set rs. sums_match (nat k) r) \<and> \<not> dless F secs (of_int_d F 10)
      else dless F secs (of_int_d F 10))"

lemma sint_unat_16: "unat (e :: ee_s16) \<le> 30001 \<Longrightarrow> sint e = int (unat e)"
proof -
  assume a: "unat e \<le> 30001"
  have "sint (word_of_int (int (unat e)) :: ee_s16) = int (unat e)"
    using a by (simp only: signed_of_int) (simp add: signed_take_bit_int_eq_self del: of_nat_unat)
  then show ?thesis by simp
qed

lemma error_count_cases:
  assumes "if 0 \<le> k then unat e \<le> 30000 \<and> (e = 0 \<longleftrightarrow> (\<forall>r \<in> set rs. sums_match (nat k) r)) else e = (- 1 :: ee_s16)"
    and "e' = (if dless F secs (of_int_d F 10) then e + 1 else e)"
  shows "(e' = 0 \<longleftrightarrow> accepted F k rs secs) \<and> (0 < sint e' \<longleftrightarrow> 0 \<le> k \<and> \<not> accepted F k rs secs)
    \<and> (sint e' < 0 \<longleftrightarrow> k < 0 \<and> \<not> accepted F k rs secs)"
proof (cases "0 \<le> k")
  case True
  then have e: "unat e \<le> 30000" "e = 0 \<longleftrightarrow> (\<forall>r \<in> set rs. sums_match (nat k) r)" using assms(1) by simp_all
  have "unat (e + 1) = unat e + 1" using unat_add_lem[of e 1] e(1) by simp
  then have "unat e' = (if dless F secs (of_int_d F 10) then unat e + 1 else unat e)" using assms(2) by simp
  moreover from this have "sint e' = int (unat e')" using e(1) by (intro sint_unat_16) simp
  moreover have "e = 0 \<longleftrightarrow> unat e = 0" by (simp add: unat_eq_0)
  ultimately show ?thesis using True e(2) by (auto simp: accepted_def simp flip: unat_eq_0)
next
  case False
  then show ?thesis using assms by (auto simp: accepted_def)
qed

lemma check_and_report_verdict:
  assumes "check_data_types z = 0" "results \<noteq> []" "contexts \<le> length results" "contexts \<le> 10000"
    "MEM_LOCATION_UNSPEC cfg \<longrightarrow> MEM_METHOD cfg < 3" "known_run (seed_crc (results ! 0)) = (o1, k, e0)"
  shows "\<exists>out errs results'. h_check_and_report F cfg z contexts results total_time secs = Some (out, errs, results')
    \<and> list_all2 but_err results results'
    \<and> (prints validated out \<longleftrightarrow> accepted F k (take contexts results) secs)
    \<and> (prints errors_detected out \<longleftrightarrow> 0 \<le> k \<and> \<not> accepted F k (take contexts results) secs)
    \<and> (prints cannot_validate out \<longleftrightarrow> k < 0 \<and> \<not> accepted F k (take contexts results) secs)"
proof -
  have "length (take contexts results) \<le> 10000" using assms(4) by simp
  from check_results_sums[OF assms(6,1) this]
  obtain o2 checked e1 where c: "check_results z k (take contexts results) e0 = Some (o2, checked, e1)"
    "list_all2 but_err (take contexts results) checked" "no_verdict o2"
    "if 0 \<le> k then unat e1 \<le> 30000 \<and> (e1 = 0 \<longleftrightarrow> (\<forall>r \<in> set (take contexts results). sums_match (nat k) r)) else e1 = - 1"
    by (elim exE conjE) (rule that)
  define results' where "results' = checked @ drop contexts results"
  have same: "list_all2 but_err results results'"
    using list_all2_appendI[OF c(2), of "drop contexts results" "drop contexts results"]
    by (simp add: results'_def list_all2_refl)
  then have "results' \<noteq> []" using assms(2) by auto
  obtain o3 e2 where s: "report_secs F (of_nat contexts) (results' ! 0) total_time secs e1 = (o3, e2)" by fastforce
  obtain score where score: "report_score F cfg (of_nat contexts) (results' ! 0) secs = Some score" "no_verdict score"
    using report_score_some[OF assms(5), of F "of_nat contexts" "results' ! 0" secs] by blast
  obtain o5 where v: "h_verdict k (Some score) e2 = Some o5" "prints validated o5 \<longleftrightarrow> e2 = 0"
    "prints errors_detected o5 \<longleftrightarrow> 0 < sint e2" "prints cannot_validate o5 \<longleftrightarrow> sint e2 < 0"
    using h_verdict_prints[of k "Some score" e2] score(2) by auto
  let ?out = "map plain (o1 @ o2) @ o3 @ map plain (report_contexts (report cfg) (results' ! 0) checked (seed_crc (results ! 0))) @ o5"
  have run: "h_check_and_report F cfg z contexts results total_time secs = Some (?out, e2, results')"
    using assms(2,3,6) c(1) s score(1) v(1) \<open>results' \<noteq> []\<close>
    by (simp add: h_check_and_report_def Let_def results'_def rd_def)
  have "no_verdict (map plain (o1 @ o2) @ o3 @ map plain (report_contexts (report cfg) (results' ! 0) checked (seed_crc (results ! 0))))"
    using known_run_no_verdict[OF assms(6)] c(3) report_secs_errors[OF s] report_contexts_no_verdict by simp
  from no_verdict_prints[OF this]
  have "prints validated ?out \<longleftrightarrow> e2 = 0" "prints errors_detected ?out \<longleftrightarrow> 0 < sint e2" "prints cannot_validate ?out \<longleftrightarrow> sint e2 < 0"
    using v(2-4) by simp_all
  moreover have "e2 = (if dless F secs (of_int_d F 10) then e1 + 1 else e1)" using report_secs_errors[OF s] by simp
  ultimately show ?thesis using run same error_count_cases[OF c(4), of e2 F secs] by auto
qed

section \<open>Layout of the contexts\<close>

lemma for_contexts_map:
  assumes "\<And>i. i < n \<Longrightarrow> f i (g i) = Some (h i)"
  shows "for_contexts f (map g [0..<n]) = Some (map h [0..<n])"
proof -
  have "enumerate 0 (map g [0..<n]) = map (\<lambda>i. (i, g i)) [0..<n]"
    by (rule nth_equalityI) (simp_all add: nth_enumerate_eq)
  moreover have "those (map (\<lambda>i. f i (g i)) js) = Some (map h js)" if "\<forall>i \<in> set js. i < n" for js
    using that assms by (induction js) auto
  ultimately show ?thesis by (simp add: for_contexts_def comp_def)
qed

lemma divide_sizes_all:
  assumes "0 < n" "r_execs (g 0) = ALL_ALGORITHMS_MASK"
  shows "divide_sizes (map g [0..<n]) = Some (map (\<lambda>i. (g i)\<lparr>r_size := r_size (g i) div 3\<rparr>) [0..<n])"
  using assms by (simp add: divide_sizes_def num_algorithms_def executes_all NUM_ALGORITHMS_def upt_rec rd_def comp_def)

lemma assign_all_pointers_all:
  assumes "0 < n" "\<And>i. i < n \<Longrightarrow> r_execs (g i) = ALL_ALGORITHMS_MASK \<and> r_memblock (g i) = [a i, 0, 0, 0] \<and> r_size (g i) = sz"
  shows "assign_all_pointers (map g [0..<n])
    = Some (map (\<lambda>i. (g i)\<lparr>r_memblock := [a i, a i, a i + sz, a i + sz * 2]\<rparr>) [0..<n])"
proof -
  define h where "h bs i = (g i)\<lparr>r_memblock := a i # bs (a i)\<rparr>" for bs i
  have 0: "map g [0..<n] = map (h (\<lambda>a. [0, 0, 0])) [0..<n]" using assms(2) by (auto simp: h_def)
  have r0: "rd (map (h bs) [0..<n]) 0 = Some (h bs 0)" "r_execs (h bs 0) = ALL_ALGORITHMS_MASK" "r_size (h bs 0) = sz" for bs
    using assms by (simp_all add: rd_def h_def)
  have step: "for_contexts (\<lambda>ctx r. do {
        base \<leftarrow> rd (r_memblock r) 0; blk \<leftarrow> wr (r_memblock r) (i + 1) (base + sz * of_nat j); Some (r\<lparr>r_memblock := blk\<rparr>) })
      (map (h bs) [0..<n]) = Some (map (h (\<lambda>a. (bs a)[i := a + sz * of_nat j])) [0..<n])"
    if "\<And>a. length (bs a) = 3" "i < 3" for i j bs
    by (rule for_contexts_map) (use that in \<open>simp add: h_def wr_def\<close>)
  note steps = step[of "\<lambda>a. [0, 0, 0]" 0 0, simplified] step[of "\<lambda>a. [a, 0, 0]" "Suc 0" "Suc 0", simplified]
    step[of "\<lambda>a. [a, a + sz, 0]" "Suc (Suc 0)" "Suc (Suc 0)", simplified]
  show ?thesis
    by (simp add: assign_all_pointers_def NUM_ALGORITHMS_def numeral_3_eq_3 0 r0 steps executes_all)
      (simp add: h_def)
qed

definition block_fits :: "ee_u32 \<Rightarrow> block \<Rightarrow> bool" where
  "block_fits sz b \<longleftrightarrow> length (block_heads b) = unat sz div 20 - 2 \<and> length (block_datas b) = unat sz div 20 - 2
     \<and> length (block_state b) = unat sz
     \<and> (\<exists>n \<le> 16384. dim_loop sz 0 0 = Some (of_nat (Suc n)) \<and> length (mat_A (block_mats b)) = n * n
       \<and> length (mat_B (block_mats b)) = n * n \<and> length (mat_C (block_mats b)) = n * n)"

text \<open>A context that the benchmark can run on, with the inputs of a known run.\<close>

definition context_ready :: "ee_s16 \<Rightarrow> ee_s16 \<Rightarrow> ee_u32 \<Rightarrow> ee_u32 \<Rightarrow> core_results \<Rightarrow> bool" where
  "context_ready s s3 sz it w \<longleftrightarrow> (\<exists>xs. list_ready w xs) \<and> bench_ready w \<and> r_seed1 w = s \<and> r_seed2 w = s \<and> r_seed3 w = s3
     \<and> r_size w = sz \<and> r_execs w = ALL_ALGORITHMS_MASK \<and> r_iterations w = it"

lemma init_context_ready:
  assumes "r_execs w = ALL_ALGORITHMS_MASK" "r_memblock w = [a, a, a + sz, a + sz * 2]" "a \<noteq> 0" "r_size w = sz"
    "120 \<le> unat sz" "unat sz \<le> 2 ^ 31" "r_seed1 w = s" "r_seed2 w = s" "s = 0 \<or> s = 0x3415 \<or> s = 8"
    "distinct (0 # index_values (sz div 20 - 2) s (unat sz div 20 - 5) @ [0x7fff])" "block_fits sz b"
  shows "\<exists>w'. init_context sz (place_block b w) = Some w' \<and> context_ready s (r_seed3 w) sz (r_iterations w) w'"
proof -
  let ?w = "place_block b w"
  have w: "?w = w\<lparr>heads := block_heads b, datas := block_datas b, mats := block_mats b, state_mem := block_state b\<rparr>"
    using assms(2,3) by (simp add: place_block_def rd_def)
  have fields: "r_execs ?w = r_execs w" "r_memblock ?w = r_memblock w" "r_size ?w = r_size w" "r_seed1 ?w = r_seed1 w"
    "r_seed2 ?w = r_seed2 w" "heads ?w = block_heads b" "datas ?w = block_datas b" "mats ?w = block_mats b" "state_mem ?w = block_state b"
    by (simp_all add: w)
  obtain n where n: "n \<le> 16384" "dim_loop sz 0 0 = Some (of_nat (Suc n))" "length (mat_A (block_mats b)) = n * n"
    "length (mat_B (block_mats b)) = n * n" "length (mat_C (block_mats b)) = n * n"
    using assms(11) by (auto simp: block_fits_def)
  have b: "length (block_heads b) = unat sz div 20 - 2" "length (block_datas b) = unat sz div 20 - 2" "length (block_state b) = unat sz"
    using assms(11) by (simp_all add: block_fits_def)
  have "\<exists>w' xs. call_inits ?w = Some w' \<and> list_ready w' xs \<and> bench_ready w' \<and> mset xs = mset [0..<unat (r_size ?w) div 20 - 3]
    \<and> r_seed1 w' = s \<and> r_seed2 w' = s \<and> r_seed3 w' = r_seed3 ?w \<and> r_size w' = r_size ?w \<and> r_execs w' = r_execs ?w
    \<and> r_iterations w' = r_iterations ?w \<and> r_err w' = r_err ?w"
    by (rule call_inits_ready[where n = n and a = a and b = a and c = "a + sz" and d = "a + sz * 2" and s = s])
      (simp_all only: fields assms(1,2,4-10) n b)
  then obtain w' xs where w': "call_inits ?w = Some w'" "list_ready w' xs" "bench_ready w'" "r_seed1 w' = s" "r_seed2 w' = s"
    "r_seed3 w' = r_seed3 w" "r_size w' = sz" "r_execs w' = ALL_ALGORITHMS_MASK" "r_iterations w' = r_iterations w"
    using w assms(1,4) by auto
  have "?w\<lparr>r_size := sz\<rparr> = ?w" "w'\<lparr>r_size := r_size ?w\<rparr> = w'" using w assms(4) w'(7) by simp_all
  then show ?thesis using w' by (auto simp: init_context_def context_ready_def)
qed

lemma lay_out_ready:
  assumes "0 < n" "tsize div 3 = sz" "120 \<le> unat sz" "unat sz \<le> 2 ^ 31" "s = 0 \<or> s = 0x3415 \<or> s = 8"
    "distinct (0 # index_values (sz div 20 - 2) s (unat sz div 20 - 5) @ [0x7fff])"
    "\<And>i. i < n \<Longrightarrow> a i \<noteq> 0 \<and> block_fits sz (fresh i)"
    "\<And>i. i < n \<Longrightarrow> r_execs (g i) = ALL_ALGORITHMS_MASK \<and> r_memblock (g i) = [a i, 0, 0, 0] \<and> r_size (g i) = tsize
      \<and> r_seed1 (g i) = s \<and> r_seed2 (g i) = s \<and> r_seed3 (g i) = s3"
  shows "\<exists>h. lay_out fresh (map g [0..<n]) = Some (map h [0..<n])
    \<and> (\<forall>i < n. context_ready s s3 sz (r_iterations (g i)) (h i))"
proof -
  define g1 where "g1 i = (g i)\<lparr>r_size := sz\<rparr>" for i
  define g2 where "g2 i = (g1 i)\<lparr>r_memblock := [a i, a i, a i + sz, a i + sz * 2]\<rparr>" for i
  have "divide_sizes (map g [0..<n]) = Some (map (\<lambda>i. (g i)\<lparr>r_size := r_size (g i) div 3\<rparr>) [0..<n])"
    by (rule divide_sizes_all) (use assms(1,8) in auto)
  also have "map (\<lambda>i. (g i)\<lparr>r_size := r_size (g i) div 3\<rparr>) [0..<n] = map g1 [0..<n]"
    using assms(2,8) by (simp add: g1_def)
  finally have 1: "divide_sizes (map g [0..<n]) = Some (map g1 [0..<n])" .
  have 2: "assign_all_pointers (map g1 [0..<n]) = Some (map g2 [0..<n])"
    unfolding g2_def by (rule assign_all_pointers_all) (use assms(1,8) in \<open>auto simp: g1_def\<close>)
  have "\<exists>w'. init_context sz (place_block (fresh i) (g2 i)) = Some w' \<and> context_ready s s3 sz (r_iterations (g i)) w'"
    if "i < n" for i
    using init_context_ready[of "g2 i" "a i" sz s "fresh i"] assms(3-6) assms(7,8)[OF that]
    by (simp add: g2_def g1_def)
  then have "\<forall>i. \<exists>w'. i < n \<longrightarrow> init_context sz (place_block (fresh i) (g2 i)) = Some w'
      \<and> context_ready s s3 sz (r_iterations (g i)) w'" by blast
  then obtain h where h: "init_context sz (place_block (fresh i) (g2 i)) = Some (h i)"
    "context_ready s s3 sz (r_iterations (g i)) (h i)" if "i < n" for i by metis
  have r0: "rd (map g2 [0..<n]) 0 = Some (g2 0)" "r_size (g2 0) = sz" using assms(1) by (simp_all add: rd_def g2_def g1_def)
  have "for_contexts (\<lambda>i r. init_context sz (place_block (fresh i) r)) (map g2 [0..<n]) = Some (map h [0..<n])"
    by (rule for_contexts_map) (rule h)
  then have "lay_out fresh (map g [0..<n]) = Some (map h [0..<n])" using 1 2 r0 by (simp add: lay_out_def)
  then show ?thesis using h(2) by blast
qed

section \<open>The timed run\<close>

text \<open>The members that the seed check sum depends on.\<close>

definition same_seeds :: "core_results \<Rightarrow> core_results \<Rightarrow> bool" where
  "same_seeds r r' \<longleftrightarrow> r_seed1 r' = r_seed1 r \<and> r_seed2 r' = r_seed2 r \<and> r_seed3 r' = r_seed3 r \<and> r_size r' = r_size r"

lemma same_seeds_crc: "same_seeds r r' \<Longrightarrow> seed_crc r' = seed_crc r"
  by (simp add: same_seeds_def seed_crc_fields)

text \<open>A thread leaves the results of its run in place, a process only their four check sums; success is the
  code 0 of the one and 1 of the other, and \<open>main\<close> tests neither.\<close>

lemma thread_or_process:
  assumes "run res = Some res'" "calls_succeed os"
  shows "core_start_parallel_thread 0 res = (0, True) \<and> core_stop_parallel_thread 0 True run res = Some (0, res')
    \<and> core_start_parallel_fork os run res = Some (1, [], crc_bytes res')
    \<and> core_stop_parallel_fork os (crc_bytes res') res = Some (1, [], with_sums res res')"
  using assms
  by (simp add: core_start_parallel_thread_def core_stop_parallel_thread_def calls_succeed_def
      core_start_parallel_fork_def core_stop_parallel_fork_def Let_def)

lemma run_single_ready:
  assumes "context_ready s s3 sz it (hd rs)" "rs \<noteq> []" "0 < sint s3"
  shows "\<exists>rs'. run_single rs = Some ([], rs') \<and> length rs' = length rs \<and> same_seeds (rs ! 0) (rs' ! 0)"
proof -
  obtain xs where "list_ready (rs ! 0) xs" "bench_ready (rs ! 0)" "0 < sint (r_seed3 (rs ! 0))"
    using assms by (auto simp: context_ready_def hd_conv_nth)
  then obtain w where w: "iterate (rs ! 0) = Some w" "running (rs ! 0) xs w" using iterate_running by blast
  have "same_seeds (rs ! 0) w" using w(2) inputs_fields[of w "rs ! 0"] by (simp add: running_def same_seeds_def)
  then show ?thesis using w(1) assms(2) by (simp add: run_single_def rd_def)
qed

lemma run_contexts_seeds:
  assumes "\<And>i. i < length rs \<Longrightarrow> context_ready s s3 sz (it i) (rs ! i)" "rs \<noteq> []" "0 < sint s3"
    "m = length rs" "\<And>i. i < min n m \<Longrightarrow> calls_succeed (os i)"
  shows "\<exists>rs'. run_contexts os m n rs = Some ([], rs') \<and> length rs' = length rs \<and> same_seeds (rs ! 0) (rs' ! 0)"
proof -
  have "\<forall>i. \<exists>xs. i < length rs \<longrightarrow> list_ready (rs ! i) xs" using assms(1) by (auto simp: context_ready_def)
  then obtain xs where xs: "i < length rs \<longrightarrow> list_ready (rs ! i) (xs i)" for i by metis
  have "\<exists>w. (\<forall>k<min n m. iterate ((rs ! k)\<lparr>r_iterations := r_iterations (rs ! 0)\<rparr>) = Some (w k) \<and> list_ready (w k) (xs k))
    \<and> run_contexts os m n rs = Some ([],
        map (\<lambda>k. with_sums ((rs ! k)\<lparr>r_iterations := r_iterations (rs ! 0)\<rparr>) (w k)) [0..<min n m] @ drop (min n m) rs)"
    by (rule run_contexts_ready) (use assms xs assms(1)[of 0] in \<open>auto simp: context_ready_def\<close>)
  then obtain w where "run_contexts os m n rs = Some ([],
        map (\<lambda>k. with_sums ((rs ! k)\<lparr>r_iterations := r_iterations (rs ! 0)\<rparr>) (w k)) [0..<min n m] @ drop (min n m) rs)"
    by blast
  moreover have "same_seeds (rs ! 0) ((map (\<lambda>k. with_sums ((rs ! k)\<lparr>r_iterations := r_iterations (rs ! 0)\<rparr>) (w k)) [0..<min n m]
      @ drop (min n m) rs) ! 0)"
    using assms(2) by (simp add: nth_append same_seeds_def with_sums_def)
  ultimately show ?thesis using assms(4) by simp
qed

lemma timed_run_ready:
  assumes "0 < n" "\<And>i. i < n \<Longrightarrow> context_ready s s3 sz (it i) (h i)" "0 < sint s3"
    "\<And>i. i < n \<Longrightarrow> calls_succeed (os i)"
  shows "\<exists>rs'. (if n > 1 then run_contexts os n m else run_single) (map h [0..<n]) = Some ([], rs')
    \<and> length rs' = n \<and> same_seeds (h 0) (rs' ! 0)"
proof -
  have ne: "map h [0..<n] \<noteq> []" "hd (map h [0..<n]) = h 0" "map h [0..<n] ! 0 = h 0" using assms(1) by (simp_all add: hd_map)
  show ?thesis
  proof (cases "n > 1")
    case True
    have "\<exists>rs'. run_contexts os n m (map h [0..<n]) = Some ([], rs') \<and> length rs' = length (map h [0..<n])
        \<and> same_seeds (map h [0..<n] ! 0) (rs' ! 0)"
      by (rule run_contexts_seeds[where it = it and s = s and ?s3.0 = s3 and sz = sz]) (use assms ne in auto)
    then show ?thesis using True ne by simp
  next
    case False
    then show ?thesis using run_single_ready[of s s3 sz "it 0" "map h [0..<n]"] assms(1-3) ne by simp
  qed
qed

lemma run_and_report_returns:
  assumes ready: "\<And>i. i < n \<Longrightarrow> context_ready s s3 sz (it i) (h i)" "0 < n" "it 0 \<noteq> 0"
    and lay: "lay_out fresh results0 = Some (map h [0..<n])"
    and bench: "\<exists>rs'. bench (map h [0..<n]) = Some ([], rs') \<and> length rs' = n \<and> same_seeds (h 0) (rs' ! 0)"
    and time: "difference c (reading c (Suc (taken t0))) (reading c (taken t0)) = Some ticks"
    and known: "snd (known_run (seed_crc (h 0))) = (k, e0)" "check_data_types z = 0"
    and cfg: "contexts \<le> n" "n \<le> 10000" "MEM_LOCATION_UNSPEC cfg \<longrightarrow> MEM_METHOD cfg < 3"
  shows "\<exists>out rs'. run_and_report F c cfg z fresh bench contexts t0 results0 = Some (out, rs') \<and> length rs' = n
    \<and> (prints validated out \<longleftrightarrow> accepted F k (take contexts rs') (h_time_in_secs F c ticks))
    \<and> (prints errors_detected out \<longleftrightarrow> 0 \<le> k \<and> \<not> accepted F k (take contexts rs') (h_time_in_secs F c ticks))
    \<and> (prints cannot_validate out \<longleftrightarrow> k < 0 \<and> \<not> accepted F k (take contexts rs') (h_time_in_secs F c ticks))"
proof -
  obtain rs where rs: "bench (map h [0..<n]) = Some ([], rs)" "length rs = n" "same_seeds (h 0) (rs ! 0)" using bench by blast
  have r0: "rd (map h [0..<n]) 0 = Some (h 0)" "(map h [0..<n])[0 := h 0] = map h [0..<n]"
    using ready(2) by (simp_all add: rd_def list_update_same_conv)
  have "r_iterations (h 0) \<noteq> 0" using ready(1)[of 0] ready(2,3) by (simp add: context_ready_def)
  then have it: "h_set_iterations F c (h 0) t0 = Some (h 0, t0)" by (simp add: h_set_iterations_def)
  have tm: "h_get_time c (h_stop_time c (h_start_time c t0)) = Some ticks"
    using time by (simp add: h_get_time_def h_stop_time_def h_start_time_def)
  obtain o1 where o1: "known_run (seed_crc (rs ! 0)) = (o1, k, e0)"
    using known(1) same_seeds_crc[OF rs(3)] by (metis prod.collapse)
  have ne: "rs \<noteq> []" "contexts \<le> length rs" "contexts \<le> 10000" using rs(2) ready(2) cfg by auto
  from check_and_report_verdict[OF known(2) ne cfg(3) o1, of F ticks "h_time_in_secs F c ticks"]
  obtain out errs rs' where v: "h_check_and_report F cfg z contexts rs ticks (h_time_in_secs F c ticks) = Some (out, errs, rs')"
    "list_all2 but_err rs rs'"
    "prints validated out \<longleftrightarrow> accepted F k (take contexts rs) (h_time_in_secs F c ticks)"
    "prints errors_detected out \<longleftrightarrow> 0 \<le> k \<and> \<not> accepted F k (take contexts rs) (h_time_in_secs F c ticks)"
    "prints cannot_validate out \<longleftrightarrow> k < 0 \<and> \<not> accepted F k (take contexts rs) (h_time_in_secs F c ticks)"
    by (elim exE conjE) (rule that)
  have "list_all2 but_err (take contexts rs) (take contexts rs')" using v(2) by (rule list_all2_takeI)
  then have "(\<forall>r \<in> set (take contexts rs'). sums_match j r) = (\<forall>r \<in> set (take contexts rs). sums_match j r)" for j
    by (induction rule: list_all2_induct) (auto simp: but_err_fields)
  then have acc: "accepted F k (take contexts rs') x = accepted F k (take contexts rs) x" for x by (simp add: accepted_def)
  have "run_and_report F c cfg z fresh bench contexts t0 results0 = Some (out, rs')"
    using lay r0 it rs(1) tm v(1) by (simp add: run_and_report_def Let_def)
  then show ?thesis using v(3-5) acc list_all2_lengthD[OF v(2)] rs(2) by auto
qed

section \<open>The known runs\<close>

definition run_id :: "run_type \<Rightarrow> int" where
  "run_id r = (case r of VALIDATION_RUN \<Rightarrow> 4 | PERFORMANCE_RUN \<Rightarrow> 3 | PROFILE_RUN \<Rightarrow> 2)"

lemma run_id_nonneg [simp]: "0 \<le> run_id r"
  by (cases r) (simp_all add: run_id_def)

lemma read_seeds_run:
  "\<exists>s s3. read_seeds (run_seeds r it) blank_results = blank_results\<lparr>r_seed1 := s, r_seed2 := s, r_seed3 := s3,
      r_iterations := it, r_execs := ALL_ALGORITHMS_MASK\<rparr>
    \<and> (r = VALIDATION_RUN \<and> s = 0x3415 \<and> s3 = 0x66 \<or> r = PERFORMANCE_RUN \<and> s = 0 \<and> s3 = 0x66 \<or> r = PROFILE_RUN \<and> s = 8 \<and> s3 = 8)"
  by (cases r) (simp_all add: read_seeds_def run_seeds_def default_seeds_def blank_results_def initial_results_def
      get_seed_def get_seed_32_def Let_def)

lemma port_run_facts:
  assumes "port_run r tsize"
    "r = VALIDATION_RUN \<and> s = 0x3415 \<and> s3 = 0x66 \<or> r = PERFORMANCE_RUN \<and> s = 0 \<and> s3 = 0x66 \<or> r = PROFILE_RUN \<and> s = 8 \<and> s3 = 8"
  shows "120 \<le> unat (tsize div 3)" "unat (tsize div 3) \<le> 2 ^ 31" "s = 0 \<or> s = 0x3415 \<or> s = 8" "0 < sint s3"
    "distinct (0 # index_values (tsize div 3 div 20 - 2) s (unat (tsize div 3) div 20 - 5) @ [0x7fff])"
    "context_ready s s3 (tsize div 3) it w \<Longrightarrow> snd (known_run (seed_crc w)) = (run_id r, 0)"
proof -
  have c: "r = VALIDATION_RUN \<and> tsize div 3 = 666 \<and> s = 0x3415 \<and> s3 = 0x66 \<or> r = PERFORMANCE_RUN \<and> tsize div 3 = 666 \<and> s = 0 \<and> s3 = 0x66
    \<or> r = PROFILE_RUN \<and> tsize div 3 = 400 \<and> s = 8 \<and> s3 = 8"
    using assms by (auto simp: port_run_def)
  then show "120 \<le> unat (tsize div 3)" "unat (tsize div 3) \<le> 2 ^ 31" "s = 0 \<or> s = 0x3415 \<or> s = 8" "0 < sint s3" by auto
  show "distinct (0 # index_values (tsize div 3 div 20 - 2) s (unat (tsize div 3) div 20 - 5) @ [0x7fff])"
    using c known_indices_666_0 known_indices_666_3415 known_indices_400
    by (elim disjE) simp_all
  show "context_ready s s3 (tsize div 3) it w \<Longrightarrow> snd (known_run (seed_crc w)) = (run_id r, 0)"
    using c by (elim disjE) (simp_all add: context_ready_def seed_crc_fields known_crcs known_run_def run_id_def)
qed

section \<open>The programs\<close>

lemma no_verdict_arguments: "no_verdict (map (\<lambda>i. (''Arg[%d]=%s'' @ nl, f i)) js)"
  by (auto simp: no_verdict_def verdict_formats)

lemma portable_init_facts:
  assumes "portable_init cfg argc argv p0 = Some (out0, argc', argv', p)"
  shows "no_verdict out0" "MULTITHREAD cfg \<le> 1 \<Longrightarrow> default_num_contexts p = default_num_contexts p0"
proof -
  have optional: "no_verdict (if c then ls else []) \<longleftrightarrow> (c \<longrightarrow> no_verdict ls)" for c and ls :: "print_call list" by simp
  show "no_verdict out0"
    using assms unfolding portable_init_def Let_def bind_eq_Some_conv
    by (elim exE conjE, simp only: option.inject prod.inject split: prod.splits)
      (elim conjE, erule subst, simp only: no_verdict_simps optional no_verdict_arguments, simp add: verdict_formats)
  show "MULTITHREAD cfg \<le> 1 \<Longrightarrow> default_num_contexts p = default_num_contexts p0"
    using assms by (auto simp: portable_init_def Let_def)
qed

lemma malloc_context_result:
  assumes "portable_malloc (malloc i) tsize = Some a" "r_memblock r = [0, 0, 0, 0]"
  shows "malloc_context 0 malloc tsize r0 i r = Some (copy_seeds r0 (r\<lparr>r_size := tsize, r_memblock := [of_nat a, 0, 0, 0]\<rparr>))"
  using assms by (simp add: malloc_context_def Let_def wr_def)

lemma map_first: "0 < n \<Longrightarrow> x # replicate (n - 1) y = map (\<lambda>i. if i = 0 then x else y) [0..<n]"
  by (rule nth_equalityI) (auto simp: nth_Cons split: nat.split)

lemma accepted_known: "accepted F (run_id r) rs secs \<longleftrightarrow> (\<forall>w \<in> set rs. sums_match (nat (run_id r)) w) \<and> \<not> dless F secs (of_int_d F 10)"
  by (simp add: accepted_def)

text \<open>The contexts of the \<open>linux\<close> port, from the allocation to the timed run.\<close>

lemma linux_contexts:
  assumes "port_run r tsize" "it \<noteq> 0" "0 < n"
    "\<forall>i < n. \<exists>a. portable_malloc (malloc i) tsize = Some a \<and> 0 < a \<and> a < 2 ^ 32"
    "\<forall>i < n. block_fits (tsize div 3) (fresh i) \<and> calls_succeed (os i)"
  shows "\<exists>results0 h s s3 its. for_contexts (malloc_context 0 malloc tsize (read_seeds (run_seeds r it) blank_results))
        (read_seeds (run_seeds r it) blank_results # replicate (n - 1) blank_results) = Some results0
    \<and> lay_out fresh results0 = Some (map h [0..<n]) \<and> (\<forall>i < n. context_ready s s3 (tsize div 3) (its i) (h i)) \<and> its 0 = it
    \<and> snd (known_run (seed_crc (h 0))) = (run_id r, 0)
    \<and> (\<exists>rs'. (if n > 1 then run_contexts os n m else run_single) (map h [0..<n]) = Some ([], rs')
        \<and> length rs' = n \<and> same_seeds (h 0) (rs' ! 0))"
proof -
  let ?r0 = "read_seeds (run_seeds r it) blank_results"
  obtain s s3 where r0: "?r0 = blank_results\<lparr>r_seed1 := s, r_seed2 := s, r_seed3 := s3, r_iterations := it,
      r_execs := ALL_ALGORITHMS_MASK\<rparr>"
    "r = VALIDATION_RUN \<and> s = 0x3415 \<and> s3 = 0x66 \<or> r = PERFORMANCE_RUN \<and> s = 0 \<and> s3 = 0x66 \<or> r = PROFILE_RUN \<and> s = 8 \<and> s3 = 8"
    using read_seeds_run by blast
  note facts = port_run_facts[OF assms(1) r0(2)]
  have blank: "r_memblock blank_results = [0, 0, 0, 0]" by (simp add: blank_results_def initial_results_def)
  have "\<forall>i. \<exists>a. i < n \<longrightarrow> portable_malloc (malloc i) tsize = Some a \<and> 0 < a \<and> a < 2 ^ 32" using assms(4) by blast
  then obtain a where a: "portable_malloc (malloc i) tsize = Some (a i)" "0 < a i" "a i < 2 ^ 32" if "i < n" for i by metis
  define q where "q i = (if i = 0 then ?r0 else blank_results)" for i :: nat
  define g where "g i = copy_seeds ?r0 ((q i)\<lparr>r_size := tsize, r_memblock := [of_nat (a i), 0, 0, 0]\<rparr>)" for i
  have q: "r_memblock (q i) = [0, 0, 0, 0]" for i by (simp add: q_def r0(1) blank)
  have "for_contexts (malloc_context 0 malloc tsize ?r0) (map q [0..<n]) = Some (map g [0..<n])"
    by (rule for_contexts_map) (simp add: malloc_context_result a q g_def)
  then have alloc: "for_contexts (malloc_context 0 malloc tsize ?r0) (?r0 # replicate (n - 1) blank_results) = Some (map g [0..<n])"
    unfolding map_first[OF assms(3)] q_def [abs_def] .
  have "of_nat (a i) \<noteq> (0 :: ee_u32)" if "i < n" for i
    using a[OF that] unat_of_nat_32[of "a i"] by (metis unat_0 not_less0)
  moreover have "r_execs (g i) = ALL_ALGORITHMS_MASK \<and> r_memblock (g i) = [of_nat (a i), 0, 0, 0] \<and> r_size (g i) = tsize
      \<and> r_seed1 (g i) = s \<and> r_seed2 (g i) = s \<and> r_seed3 (g i) = s3" for i
    by (simp add: g_def copy_seeds_def r0(1))
  moreover have "i < n \<Longrightarrow> block_fits (tsize div 3) (fresh i)" for i using assms(5) by blast
  ultimately have "\<exists>h. lay_out fresh (map g [0..<n]) = Some (map h [0..<n])
      \<and> (\<forall>i < n. context_ready s s3 (tsize div 3) (r_iterations (g i)) (h i))"
    by (intro lay_out_ready[where a = "\<lambda>i. of_nat (a i)" and tsize = tsize] assms(3) refl facts(1-3,5) conjI) simp_all
  then obtain h where h: "lay_out fresh (map g [0..<n]) = Some (map h [0..<n])"
    "i < n \<Longrightarrow> context_ready s s3 (tsize div 3) (r_iterations (g i)) (h i)" for i by blast
  have it0: "r_iterations (g 0) = it" by (simp add: g_def copy_seeds_def q_def r0(1))
  have "\<exists>rs'. (if n > 1 then run_contexts os n m else run_single) (map h [0..<n]) = Some ([], rs')
      \<and> length rs' = n \<and> same_seeds (h 0) (rs' ! 0)"
    by (rule timed_run_ready[OF assms(3) h(2) facts(4)]) (use assms(5) in simp_all)
  then show ?thesis
    using alloc h it0 facts(6)[OF h(2)[OF assms(3)]]
    by - (rule exI[of _ "map g [0..<n]"], rule exI[of _ h], rule exI[of _ s], rule exI[of _ s3],
        rule exI[of _ "\<lambda>i. r_iterations (g i)"], simp)
qed

lemma linux_run:
  assumes "port_run r tsize" "it \<noteq> 0" "0 < n" "n \<le> 10000" "contexts \<le> n"
    "check_data_types z = 0" "MEM_LOCATION_UNSPEC hcfg \<longrightarrow> MEM_METHOD hcfg < 3"
    "\<forall>i < n. \<exists>a. portable_malloc (malloc i) tsize = Some a \<and> 0 < a \<and> a < 2 ^ 32"
    "\<forall>i < n. block_fits (tsize div 3) (fresh i) \<and> calls_succeed (os i)"
    "MYTIMEDIFF_timespec (clk (Suc (taken t0))) (clk (taken t0)) = Some ticks"
  shows "\<exists>results0 out rs. for_contexts (malloc_context 0 malloc tsize (read_seeds (run_seeds r it) blank_results))
        (read_seeds (run_seeds r it) blank_results # replicate (n - 1) blank_results) = Some results0
    \<and> run_and_report F (timespec_clock clk) hcfg z fresh (if n > 1 then run_contexts os n m else run_single) contexts t0 results0
        = Some (out, rs) \<and> length rs = n
    \<and> (prints validated out \<longleftrightarrow> accepted F (run_id r) (take contexts rs) (h_time_in_secs F (timespec_clock clk) ticks))
    \<and> (prints errors_detected out \<longleftrightarrow> \<not> prints validated out) \<and> \<not> prints cannot_validate out"
proof -
  obtain results0 h s s3 its where w: "for_contexts (malloc_context 0 malloc tsize (read_seeds (run_seeds r it) blank_results))
        (read_seeds (run_seeds r it) blank_results # replicate (n - 1) blank_results) = Some results0"
    "lay_out fresh results0 = Some (map h [0..<n])" "\<forall>i < n. context_ready s s3 (tsize div 3) (its i) (h i)" "its 0 = it"
    "snd (known_run (seed_crc (h 0))) = (run_id r, 0)"
    "\<exists>rs'. (if n > 1 then run_contexts os n m else run_single) (map h [0..<n]) = Some ([], rs')
        \<and> length rs' = n \<and> same_seeds (h 0) (rs' ! 0)"
    using linux_contexts[OF assms(1-3,8,9), of m] by blast
  let ?secs = "h_time_in_secs F (timespec_clock clk) ticks"
  have "\<exists>out rs'. run_and_report F (timespec_clock clk) hcfg z fresh
      (if n > 1 then run_contexts os n m else run_single) contexts t0 results0 = Some (out, rs') \<and> length rs' = n
    \<and> (prints validated out \<longleftrightarrow> accepted F (run_id r) (take contexts rs') ?secs)
    \<and> (prints errors_detected out \<longleftrightarrow> 0 \<le> run_id r \<and> \<not> accepted F (run_id r) (take contexts rs') ?secs)
    \<and> (prints cannot_validate out \<longleftrightarrow> run_id r < 0 \<and> \<not> accepted F (run_id r) (take contexts rs') ?secs)"
    by (rule run_and_report_returns[where it = its and h = h and ?e0.0 = 0 and s = s and ?s3.0 = s3 and sz = "tsize div 3"])
      (use w assms(2-7,10) in \<open>simp_all add: timespec_clock_def\<close>)
  moreover have "\<not> run_id r < 0" by (simp add: not_less)
  ultimately show ?thesis using w(1) by (elim exE conjE, intro exI conjI) (assumption | simp)+
qed

text \<open>C3: On the \<open>linux\<close> port, with the seeds of a run type in the arguments, blocks from the heap and the
  contexts in child processes, the whole program returns whenever the allocator and the system
  calls succeed, and its verdict is right: it reports correct operation if and only if the check
  sums of every context that ran are the known ones and the run took ten seconds, and errors
  otherwise.\<close>

theorem linux_main_returns:
  assumes "port_run r tsize" "it \<noteq> 0" "1 \<le> MULTITHREAD cfg" "MULTITHREAD cfg \<le> 10000"
    "check_data_types (sizes cfg) = 0" "sizeof_list_head \<le> 128" "MEM_LOCATION_UNSPEC hcfg \<longrightarrow> MEM_METHOD hcfg < 3"
    "portable_init cfg argc argv \<lparr>portable_id = 0, default_num_contexts = of_nat (MULTITHREAD cfg)\<rparr> = Some (out0, argc', argv', p)"
    "arg_seeds (int argc') argv' = Some (run_seeds r it)" "get_seed_args 7 (int argc') argv' = Some 0"
    "\<forall>i < MULTITHREAD cfg. \<exists>a. portable_malloc (malloc i) tsize = Some a \<and> 0 < a \<and> a < 2 ^ 32"
    "\<forall>i < MULTITHREAD cfg. block_fits (tsize div 3) (fresh i) \<and> calls_succeed (os i)"
    "MYTIMEDIFF_timespec (clk (Suc (taken t0))) (clk (taken t0)) = Some ticks"
  shows "\<exists>out results p'. linux_main F clk cfg hcfg sizeof_list_head malloc fresh os t0 argc argv tsize = Some (out, 0, results, p')
    \<and> portable_id p' = 0 \<and> length results = MULTITHREAD cfg
    \<and> (prints validated out \<longleftrightarrow> (\<forall>w \<in> set (take (unat (default_num_contexts p)) results). sums_match (nat (run_id r)) w)
        \<and> \<not> dless F (h_time_in_secs F (timespec_clock clk) ticks) (of_int_d F 10))
    \<and> (prints errors_detected out \<longleftrightarrow> \<not> prints validated out) \<and> \<not> prints cannot_validate out"
proof -
  define n where "n = MULTITHREAD cfg"
  define m where "m = unat (default_num_contexts p)"
  define contexts where "contexts = (if n > 1 \<and> m > n then n else m)"
  have n: "0 < n" "n \<le> 10000" using assms(3,4) by (simp_all add: n_def)
  have one: "m = 1" if "n = 1" using portable_init_facts(2)[OF assms(8)] that by (simp add: n_def m_def)
  then have c: "contexts \<le> n" using n by (cases "n = 1") (auto simp: contexts_def)
  obtain results0 out rs where o: "for_contexts (malloc_context 0 malloc tsize (read_seeds (run_seeds r it) blank_results))
        (read_seeds (run_seeds r it) blank_results # replicate (n - 1) blank_results) = Some results0"
    "run_and_report F (timespec_clock clk) hcfg (sizes cfg) fresh (if n > 1 then run_contexts os n m else run_single)
      contexts t0 results0 = Some (out, rs)" "length rs = n"
    "prints validated out \<longleftrightarrow> accepted F (run_id r) (take contexts rs) (h_time_in_secs F (timespec_clock clk) ticks)"
    "prints errors_detected out \<longleftrightarrow> \<not> prints validated out" "\<not> prints cannot_validate out"
    using linux_run[OF assms(1,2) n c assms(5,7) assms(11,12)[folded n_def] assms(13), of F m] by blast
  have run: "linux_main F clk cfg hcfg sizeof_list_head malloc fresh os t0 argc argv tsize
      = Some (map plain out0 @ out, 0, rs, portable_fini p)"
    using assms(6,8-10) o(1,2) unfolding linux_main_def n_def [symmetric] contexts_def
    by (cases "1 < n"; cases "n < m"; simp add: m_def [symmetric] Let_def)
  have "take contexts rs = take m rs" using o(3) n(1) one by (cases "n = 1") (auto simp: contexts_def)
  moreover have "prints c (map plain out0 @ out) = prints c out" if "verdict_format (fst c)" for c
    by (rule prints_after) (use portable_init_facts(1)[OF assms(8)] that in simp_all)
  ultimately show ?thesis using run o(3-6)
    by (intro exI[of _ "map plain out0 @ out"] exI[of _ rs] exI[of _ "portable_fini p"])
      (simp add: portable_fini_def accepted_known n_def m_def del: prints_simps)
qed

text \<open>Integers in place of doubles, for concrete runs.\<close>

definition int_ops :: "int secs_ops" where
  "int_ops = \<lparr>dless = (<), deq = (=), dneg = uminus, dadd = (+), dmul = (*), ddiv = (div), modf = (\<lambda>x. (0, x)),
     trunc = (\<lambda>x. x), zero = 0, one = 1, ten = 10, c03 = 0, local80 = replicate 80 0, of_int_d = (\<lambda>x. x)\<rparr>"

definition plain_config :: hosted_config where
  "plain_config = \<lparr>report = \<lparr>COMPILER_VERSION = ''GCC'', COMPILER_FLAGS = ''-O2'', MEM_LOCATION = [], PARALLEL_METHOD = None\<rparr>,
     MEM_LOCATION_UNSPEC = True, MEM_METHOD = 1\<rparr>"

lemma plain_config_method: "MEM_LOCATION_UNSPEC plain_config \<longrightarrow> MEM_METHOD plain_config < 3"
  by (simp add: plain_config_def)

text \<open>C4: With seconds as doubles the verdict of any number of contexts up to ten thousand, below which the
  count of errors does not wrap, is one of the three messages.  For known seeds the operation is
  validated if and only if the check sums of all contexts are the known ones and ten seconds have
  passed.  For other seeds it is validated if and only if the run was too short.\<close>

theorem hosted_verdict:
  assumes "check_data_types z = 0" "results \<noteq> []" "contexts \<le> length results" "contexts \<le> 10000"
    "MEM_LOCATION_UNSPEC cfg \<longrightarrow> MEM_METHOD cfg < 3" "known_run (seed_crc (results ! 0)) = (o1, k, e0)"
  shows "\<exists>out errs results'. h_check_and_report F cfg z contexts results total_time secs = Some (out, errs, results')
    \<and> (if 0 \<le> k
       then (prints validated out \<longleftrightarrow> (\<forall>r \<in> set (take contexts results). sums_match (nat k) r) \<and> \<not> dless F secs (of_int_d F 10))
         \<and> (prints errors_detected out \<longleftrightarrow> \<not> prints validated out) \<and> \<not> prints cannot_validate out
       else (prints validated out \<longleftrightarrow> dless F secs (of_int_d F 10))
         \<and> (prints cannot_validate out \<longleftrightarrow> \<not> prints validated out) \<and> \<not> prints errors_detected out)"
proof -
  from check_and_report_verdict[OF assms, of F total_time secs]
  obtain out errs results' where "h_check_and_report F cfg z contexts results total_time secs = Some (out, errs, results')"
    "prints validated out \<longleftrightarrow> accepted F k (take contexts results) secs"
    "prints errors_detected out \<longleftrightarrow> 0 \<le> k \<and> \<not> accepted F k (take contexts results) secs"
    "prints cannot_validate out \<longleftrightarrow> k < 0 \<and> \<not> accepted F k (take contexts results) secs"
    by (elim exE conjE) (rule that)
  then show ?thesis by (intro exI[of _ out] exI[of _ errs] exI[of _ results']) (auto simp: accepted_def)
qed

theorem hosted_verdict_witness:
  "\<exists>out errs results'. h_check_and_report int_ops plain_config right_sizes 1 [demo] 3000 3 = Some (out, errs, results')
    \<and> prints validated out"
proof -
  have "seed_crc demo = 30723" by (simp add: seed_crc_fields demo_def crc16_eval)
  then have "known_run (seed_crc ([demo] ! 0)) = ([], - 1, - 1)" by (simp add: known_run_def)
  from hosted_verdict[OF right_sizes_check _ _ _ plain_config_method this, of 1 int_ops 3000 3]
  show ?thesis by (auto simp: int_ops_def)
qed

lemma simple_run:
  assumes "port_run r tsize" "it \<noteq> 0" "check_data_types z = 0"
    "MEM_LOCATION_UNSPEC hcfg \<longrightarrow> MEM_METHOD hcfg < 3" "stack \<noteq> 0" "block_fits (tsize div 3) (fresh 0)"
    "int32 (clk (Suc (taken t0)) - clk (taken t0)) = Some ticks"
  shows "\<exists>results0 out w. for_contexts (stack_context stack tsize (read_seeds (run_seeds r it) blank_results))
        [read_seeds (run_seeds r it) blank_results] = Some results0
    \<and> run_and_report F (processor_clock clk) hcfg z fresh run_single 1 t0 results0 = Some (out, [w])
    \<and> (prints validated out \<longleftrightarrow> accepted F (run_id r) [w] (h_time_in_secs F (processor_clock clk) ticks))
    \<and> (prints errors_detected out \<longleftrightarrow> \<not> prints validated out) \<and> \<not> prints cannot_validate out"
proof -
  let ?r0 = "read_seeds (run_seeds r it) blank_results" and ?secs = "h_time_in_secs F (processor_clock clk) ticks"
  obtain s s3 where r0: "?r0 = blank_results\<lparr>r_seed1 := s, r_seed2 := s, r_seed3 := s3, r_iterations := it,
      r_execs := ALL_ALGORITHMS_MASK\<rparr>"
    "r = VALIDATION_RUN \<and> s = 0x3415 \<and> s3 = 0x66 \<or> r = PERFORMANCE_RUN \<and> s = 0 \<and> s3 = 0x66 \<or> r = PROFILE_RUN \<and> s = 8 \<and> s3 = 8"
    using read_seeds_run by blast
  note facts = port_run_facts[OF assms(1) r0(2)]
  define g where "g = copy_seeds ?r0 (?r0\<lparr>r_size := tsize, r_memblock := [stack, 0, 0, 0]\<rparr>)"
  have "r_memblock blank_results = [0, 0, 0, 0]" by (simp add: blank_results_def initial_results_def)
  then have blank: "r_memblock ?r0 = [0, 0, 0, 0]" by (simp add: r0(1))
  have g: "for_contexts (stack_context stack tsize ?r0) [?r0] = Some (map (\<lambda>i. g) [0..<1])"
    using blank by (simp add: for_contexts_one stack_context_def wr_def g_def)
  have "r_execs g = ALL_ALGORITHMS_MASK \<and> r_memblock g = [stack, 0, 0, 0] \<and> r_size g = tsize \<and> r_seed1 g = s \<and> r_seed2 g = s
      \<and> r_seed3 g = s3" "r_iterations g = it"
    by (simp_all add: g_def copy_seeds_def r0(1))
  then have "\<exists>h. lay_out fresh (map (\<lambda>i. g) [0..<1]) = Some (map h [0..<1])
      \<and> (\<forall>i < 1. context_ready s s3 (tsize div 3) (r_iterations g) (h i))"
    by (intro lay_out_ready[where a = "\<lambda>i. stack" and tsize = tsize] refl facts(1-3,5)) (use assms(5,6) in simp_all)
  then obtain h where h: "lay_out fresh (map (\<lambda>i. g) [0..<1]) = Some (map h [0..<1])" "context_ready s s3 (tsize div 3) it (h 0)"
    using \<open>r_iterations g = it\<close> by auto
  have "\<exists>rs'. run_single (map h [0..<1]) = Some ([], rs') \<and> length rs' = 1 \<and> same_seeds (h 0) (rs' ! 0)"
    using run_single_ready[of s s3 "tsize div 3" it "map h [0..<1]"] h(2) facts(4) by simp
  then have "\<exists>out rs'. run_and_report F (processor_clock clk) hcfg z fresh run_single 1 t0 (map (\<lambda>i. g) [0..<1]) = Some (out, rs')
    \<and> length rs' = 1 \<and> (prints validated out \<longleftrightarrow> accepted F (run_id r) (take 1 rs') ?secs)
    \<and> (prints errors_detected out \<longleftrightarrow> 0 \<le> run_id r \<and> \<not> accepted F (run_id r) (take 1 rs') ?secs)
    \<and> (prints cannot_validate out \<longleftrightarrow> run_id r < 0 \<and> \<not> accepted F (run_id r) (take 1 rs') ?secs)"
    by (intro run_and_report_returns[where it = "\<lambda>_. it" and h = h and ?e0.0 = 0 and s = s and ?s3.0 = s3 and sz = "tsize div 3"])
      (use h facts(6)[OF h(2)] assms(2,3,4,7) in \<open>simp_all add: processor_clock_def MYTIMEDIFF_clock_def\<close>)
  moreover have "\<not> run_id r < 0" by (simp add: not_less)
  ultimately show ?thesis using g by (fastforce simp: length_Suc_conv)
qed

text \<open>The \<open>simple\<close> port, with one context on the stack and the clock of the processor time, returns for
  the seeds and sizes of the known runs, and its verdict is right in both directions.\<close>

theorem simple_main_returns:
  assumes "port_run r tsize" "it \<noteq> 0" "check_data_types z = 0" "sizeof_list_head \<le> 128"
    "MEM_LOCATION_UNSPEC hcfg \<longrightarrow> MEM_METHOD hcfg < 3" "stack \<noteq> 0" "block_fits (tsize div 3) (fresh 0)"
    "int32 (clk (Suc (taken t0)) - clk (taken t0)) = Some ticks"
  shows "\<exists>out w p. simple_main F clk z hcfg sizeof_list_head stack fresh t0 (run_seeds r it) tsize = Some (out, 0, [w], p)
    \<and> portable_id p = 0
    \<and> (prints validated out \<longleftrightarrow> sums_match (nat (run_id r)) w
        \<and> \<not> dless F (h_time_in_secs F (processor_clock clk) ticks) (of_int_d F 10))
    \<and> (prints errors_detected out \<longleftrightarrow> \<not> prints validated out) \<and> \<not> prints cannot_validate out"
proof -
  obtain out0 p where init: "simple_init z \<lparr>portable_id = 0, default_num_contexts = 1\<rparr> = (out0, p)" by fastforce
  obtain results0 out w where o: "for_contexts (stack_context stack tsize (read_seeds (run_seeds r it) blank_results))
        [read_seeds (run_seeds r it) blank_results] = Some results0"
    "run_and_report F (processor_clock clk) hcfg z fresh run_single 1 t0 results0 = Some (out, [w])"
    "prints validated out \<longleftrightarrow> accepted F (run_id r) [w] (h_time_in_secs F (processor_clock clk) ticks)"
    "prints errors_detected out \<longleftrightarrow> \<not> prints validated out" "\<not> prints cannot_validate out"
    using simple_run[where F = F and fresh = fresh and clk = clk and ?t0.0 = t0, OF assms(1-3,5-8)] by blast
  have "no_verdict out0" using init by (auto simp: simple_init_def verdict_formats)
  then have after: "prints c (map plain out0 @ out) = prints c out" if "verdict_format (fst c)" for c
    using that by (intro prints_after) simp_all
  have "simple_main F clk z hcfg sizeof_list_head stack fresh t0 (run_seeds r it) tsize = Some (map plain out0 @ out, 0, [w], simple_fini p)"
    using init assms(4) o(1,2) by (simp add: simple_main_def Let_def)
  then show ?thesis using o(3-5)
    by (intro exI[of _ "map plain out0 @ out"] exI[of _ w] exI[of _ "simple_fini p"])
      (simp add: simple_fini_def accepted_known after del: prints_simps)
qed

lemma size_16_bits:
  assumes "32768 \<le> n" "n < 65536"
  shows "unat (scast (ucast (of_nat n :: ee_s32) :: ee_s16) :: ee_s32) = n + (2 ^ 32 - 65536)"
proof -
  have "sint (of_nat n :: ee_s16) = (int n + 32768) mod 65536 - 32768"
    by (simp add: signed_of_nat signed_take_bit_eq_take_bit_shift take_bit_eq_mod)
  also have "(int n + 32768) mod 65536 = int n - 32768"
    using assms mod_pos_pos_trivial[of "int n - 32768" 65536] mod_add_self2[of "int n - 32768" 65536] by (simp add: algebra_simps)
  finally have "sint (of_nat n :: ee_s16) = int n - 65536" by simp
  moreover have "(ucast (of_nat n :: ee_s32) :: ee_s16) = of_nat n"
    using assms by (simp add: unsigned_of_nat take_bit_nat_eq_self)
  moreover have "(word_of_int (int n - 65536) :: ee_s32) = of_nat (n + (2 ^ 32 - 65536))"
    by (simp add: diff_conv_add_uminus del: add_uminus_conv_diff)
  ultimately have "(scast (ucast (of_nat n :: ee_s32) :: ee_s16) :: ee_s32) = of_nat (n + (2 ^ 32 - 65536))"
    by (simp only: scast_eq)
  moreover have "unat (of_nat (n + (2 ^ 32 - 65536)) :: ee_s32) = n + (2 ^ 32 - 65536)"
    by (rule unat_of_nat_32) (use assms in simp)
  ultimately show ?thesis by (simp only:)
qed

text \<open>C19: The size in the seventh argument passes through sixteen signed bits: from 32768 to 65535 it becomes
  a size of nearly four gigabytes, and 65536 counts as none.\<close>

theorem size_argument_narrowed:
  assumes "length (r_memblock r) = 4" "32768 \<le> n" "n \<le> 65536"
  shows "\<exists>r'. malloc_context (of_nat n) malloc total_data_size r0 i r = Some r'
    \<and> (if n = 65536 then r_size r' = total_data_size else unat (r_size r') = n + (2 ^ 32 - 65536))"
proof (cases "n = 65536")
  case True
  then have "(scast (ucast (of_nat n :: ee_s32) :: ee_s16) :: ee_s32) = 0" by simp
  then show ?thesis using assms(1) True by (simp add: malloc_context_def Let_def wr_def copy_seeds_def del: of_nat_numeral)
next
  case False
  then have "unat (scast (ucast (of_nat n :: ee_s32) :: ee_s16) :: ee_s32) = n + (2 ^ 32 - 65536)"
    using assms by (intro size_16_bits) simp_all
  moreover from this have "(scast (ucast (of_nat n :: ee_s32) :: ee_s16) :: ee_s32) \<noteq> 0" by (metis add_is_0 assms(2) unat_0 not_numeral_le_zero)
  ultimately show ?thesis using assms(1) False by (simp add: malloc_context_def Let_def wr_def copy_seeds_def)
qed

theorem size_argument_narrowed_witness:
  "\<exists>r'. malloc_context 40000 (\<lambda>i. None) 2000 blank_results 0 blank_results = Some r' \<and> unat (r_size r') = 4294941760"
  using size_argument_narrowed[of blank_results 40000 "\<lambda>i. None" 2000 blank_results 0]
  by (simp add: blank_results_def initial_results_def)

section \<open>Concrete runs\<close>

definition zero_block :: block where
  "zero_block = \<lparr>block_heads = replicate 31 \<lparr>lh_next = None, lh_info = 0\<rparr>, block_datas = replicate 31 \<lparr>ld_data16 = 0, ld_idx = 0\<rparr>,
     block_mats = \<lparr>mat_A = replicate 81 0, mat_B = replicate 81 0, mat_C = replicate 81 0\<rparr>, block_state = replicate 666 0\<rparr>"

lemma zero_block_fits: "block_fits 666 zero_block"
proof -
  have "dim_loop 666 0 0 = Some 10" by (simp add: dim_loop.simps)
  then show ?thesis by (simp add: block_fits_def zero_block_def) (rule exI[of _ 9], simp)
qed

text \<open>\<open>coremark M2 0 0 0x66 1\<close> with two contexts.\<close>

definition demo_args :: "ee_u8 list list" where
  "demo_args = [[99], [77, 50], [48], [48], [48, 120, 54, 54], [49]]"

definition two_threads :: portme_config where
  "two_threads = \<lparr>PRINT_ARGS = False, MAIN_HAS_NOARGC = False, SEED_METHOD_ARG = True, MULTITHREAD = 2, sizes = right_sizes\<rparr>"

lemma demo_numbers: "parseval [48] = 0" "parseval [49] = 1" "parseval [50] = 2" "parseval [48, 120, 54, 54] = 0x66"
  by code_simp+

lemma demo_init:
  "portable_init two_threads 6 demo_args \<lparr>portable_id = 0, default_num_contexts = 2\<rparr>
    = Some ([], 5, [[99], [48], [48], [48, 120, 54, 54], [49], [49]], \<lparr>portable_id = 1, default_num_contexts = 2\<rparr>)"
  by (simp add: portable_init_def two_threads_def right_sizes_def context_arg_def demo_args_def deref_def demo_numbers eval_nat_numeral)

lemma demo_seeds:
  "arg_seeds 5 [[99], [48], [48], [48, 120, 54, 54], [49], [49]] = Some (run_seeds PERFORMANCE_RUN 1)"
  by (simp add: arg_seeds_def get_seed_args_def rd_def demo_numbers run_seeds_def)

theorem linux_main_returns_witness:
  "\<exists>out results p. linux_main int_ops (\<lambda>k. \<lparr>tv_sec = 20 * int k, tv_nsec = 0\<rparr>) two_threads plain_config 8
      (\<lambda>i. Some (\<lambda>sz. Some (4096 * (i + 1)))) (\<lambda>i. zero_block) (\<lambda>i. os_ok)
      \<lparr>start_stamp = \<lparr>tv_sec = 0, tv_nsec = 0\<rparr>, stop_stamp = \<lparr>tv_sec = 0, tv_nsec = 0\<rparr>, taken = 0\<rparr> 6 demo_args 2000
      = Some (out, 0, results, p)
    \<and> length results = 2 \<and> (prints validated out \<longleftrightarrow> (\<forall>w \<in> set results. sums_match 3 w))"
proof -
  let ?t0 = "\<lparr>start_stamp = \<lparr>tv_sec = 0, tv_nsec = 0\<rparr>, stop_stamp = \<lparr>tv_sec = 0, tv_nsec = 0\<rparr>, taken = 0\<rparr>"
    and ?clk = "\<lambda>k. \<lparr>tv_sec = 20 * int k, tv_nsec = 0\<rparr>"
  have run: "port_run PERFORMANCE_RUN 2000" by (simp add: port_run_def)
  have cfg: "1 \<le> MULTITHREAD two_threads" "MULTITHREAD two_threads \<le> 10000" "check_data_types (sizes two_threads) = 0"
    "MULTITHREAD two_threads = 2" "(8 :: nat) \<le> 128"
    by (simp_all add: two_threads_def right_sizes_check)
  have init: "portable_init two_threads 6 demo_args \<lparr>portable_id = 0, default_num_contexts = of_nat (MULTITHREAD two_threads)\<rparr>
    = Some ([], 5, [[99], [48], [48], [48, 120, 54, 54], [49], [49]], \<lparr>portable_id = 1, default_num_contexts = 2\<rparr>)"
    using demo_init cfg(4) by simp
  have seeds: "arg_seeds (int 5) [[99], [48], [48], [48, 120, 54, 54], [49], [49]] = Some (run_seeds PERFORMANCE_RUN 1)"
    "get_seed_args 7 (int 5) [[99], [48], [48], [48, 120, 54, 54], [49], [49]] = Some 0"
    using demo_seeds by (simp_all add: get_seed_args_def)
  have heap: "\<forall>i < MULTITHREAD two_threads. \<exists>a. portable_malloc (Some (\<lambda>sz. Some (4096 * (i + 1)))) 2000 = Some a \<and> 0 < a \<and> a < 2 ^ 32"
    by (simp add: portable_malloc_def cfg(4))
  have ok: "\<forall>i < MULTITHREAD two_threads. block_fits (2000 div 3) zero_block \<and> calls_succeed os_ok"
    using zero_block_fits by (simp add: calls_succeed_def os_ok_def)
  have time: "MYTIMEDIFF_timespec (?clk (Suc (taken ?t0))) (?clk (taken ?t0)) = Some 20000"
    by (simp add: MYTIMEDIFF_timespec_def int32_def)
  have long: "\<not> dless int_ops (h_time_in_secs int_ops (timespec_clock ?clk) 20000) (of_int_d int_ops 10)"
    by (simp add: int_ops_def h_time_in_secs_def timespec_clock_def)
  from linux_main_returns[OF run one_neq_zero cfg(1-3,5) plain_config_method init seeds heap ok time, of int_ops]
  show ?thesis
    by (elim exE conjE) (intro exI conjI, assumption, simp_all add: cfg(4) long run_id_def)
qed

theorem simple_main_returns_witness:
  "\<exists>out w p. simple_main int_ops (\<lambda>k. 12000000 * int k) right_sizes plain_config 8 0x1000 (\<lambda>i. zero_block)
      \<lparr>start_stamp = 0, stop_stamp = 0, taken = 0\<rparr> (run_seeds PERFORMANCE_RUN 1) 2000 = Some (out, 0, [w], p)
    \<and> (prints validated out \<longleftrightarrow> sums_match 3 w)"
proof -
  let ?t0 = "\<lparr>start_stamp = 0, stop_stamp = 0, taken = 0\<rparr> :: int stamps" and ?clk = "\<lambda>k. 12000000 * int k"
  have "port_run PERFORMANCE_RUN 2000" "(1 :: ee_s32) \<noteq> 0" "check_data_types right_sizes = 0" "(8 :: nat) \<le> 128"
    "(0x1000 :: ee_u32) \<noteq> 0" "block_fits (2000 div 3) ((\<lambda>i. zero_block) 0)"
    "int32 (?clk (Suc (taken ?t0)) - ?clk (taken ?t0)) = Some 12000000"
    using zero_block_fits by (simp_all add: port_run_def right_sizes_check int32_def)
  from simple_main_returns[OF this(1-4) plain_config_method this(5-7), where F = int_ops]
  obtain out w p where "simple_main int_ops ?clk right_sizes plain_config 8 0x1000 (\<lambda>i. zero_block) ?t0
      (run_seeds PERFORMANCE_RUN 1) 2000 = Some (out, 0, [w], p)"
    "prints validated out \<longleftrightarrow> sums_match (nat (run_id PERFORMANCE_RUN)) w
        \<and> \<not> dless int_ops (h_time_in_secs int_ops (processor_clock ?clk) 12000000) (of_int_d int_ops 10)"
    by blast
  moreover have "\<not> dless int_ops (h_time_in_secs int_ops (processor_clock ?clk) 12000000) (of_int_d int_ops 10)"
    by (simp add: int_ops_def h_time_in_secs_def processor_clock_def)
  ultimately show ?thesis by (auto simp: run_id_def)
qed

end
