(* ===== verification/Hosted_Calibration.thy ===== *)
theory Hosted_Calibration
  imports Hosted_Main_Props
begin

text \<open>
  The calibration of the number of iterations with seconds as doubles: it ends as soon as one of its
  runs is not shorter than a second, and what it needs of the arithmetic of doubles is that zero is
  less than one and that the seconds of that run can be converted to an integer.
\<close>

text \<open>The ticks of the \<open>j\<close>-th run, which is between two readings of the clock.\<close>

definition run_ticks :: "'ts clock \<Rightarrow> nat \<Rightarrow> nat \<Rightarrow> int option" where
  "run_ticks c b j = difference c (reading c (b + 2 * j + 1)) (reading c (b + 2 * j))"

lemma h_calibrate_turn:
  assumes "list_ready w xs" "bench_ready w" "0 < sint (r_seed3 w)" "dless F s (of_int_d F 1)" "run_ticks c (taken t) 0 = Some ticks"
  shows "\<exists>w' t'. h_calibrate F c w t s = h_calibrate F c w' t' (h_time_in_secs F c ticks)
    \<and> list_ready w' xs \<and> bench_ready w' \<and> r_iterations w' = r_iterations w * 10 \<and> r_seed3 w' = r_seed3 w
    \<and> inputs (w'\<lparr>r_iterations := 0\<rparr>) = inputs (w\<lparr>r_iterations := 0\<rparr>) \<and> taken t' = taken t + 2"
proof -
  let ?w1 = "w\<lparr>r_iterations := r_iterations w * 10\<rparr>"
  let ?t = "h_stop_time c (h_start_time c t)"
  obtain w' where w': "iterate ?w1 = Some w'" "running ?w1 xs w'"
    using iterate_running[of ?w1 xs] assms(1-3) by auto
  have "h_get_time c ?t = Some ticks"
    using assms(5) by (simp add: run_ticks_def h_get_time_def h_start_time_def h_stop_time_def)
  then have "h_calibrate F c w t s = h_calibrate F c w' ?t (h_time_in_secs F c ticks)"
    using w'(1) assms(4) by (subst h_calibrate.simps) (simp add: Let_def)
  moreover have "r_iterations w' = r_iterations w * 10" "r_seed3 w' = r_seed3 w"
    using inputs_fields[of w' ?w1] w'(2) by (simp_all add: running_def)
  moreover have "inputs (w'\<lparr>r_iterations := 0\<rparr>) = inputs (w\<lparr>r_iterations := 0\<rparr>)"
    using w'(2) by (simp add: running_def inputs_iterations)
  ultimately show ?thesis
    using w'(2) by (intro exI[of _ w'] exI[of _ ?t]) (simp add: running_def h_start_time_def h_stop_time_def)
qed

lemma h_calibrate_returns:
  assumes "list_ready w xs" "bench_ready w" "0 < sint (r_seed3 w)" "dless F s (of_int_d F 1)"
    "\<forall>j \<le> k. run_ticks c (taken t) j = Some (ticks j)"
    "\<forall>j < k. dless F (h_time_in_secs F c (ticks j)) (of_int_d F 1)" "\<not> dless F (h_time_in_secs F c (ticks k)) (of_int_d F 1)"
  shows "\<exists>w' t'. h_calibrate F c w t s = Some (w', t', h_time_in_secs F c (ticks k))
    \<and> list_ready w' xs \<and> bench_ready w' \<and> r_iterations w' = r_iterations w * 10 ^ Suc k
    \<and> inputs (w'\<lparr>r_iterations := 0\<rparr>) = inputs (w\<lparr>r_iterations := 0\<rparr>)"
  using assms
proof (induction k arbitrary: w t s ticks)
  case (0 w t s ticks)
  have "run_ticks c (taken t) 0 = Some (ticks 0)" using 0(5) by simp
  then obtain w' t' where w': "h_calibrate F c w t s = h_calibrate F c w' t' (h_time_in_secs F c (ticks 0))"
    "list_ready w' xs" "bench_ready w'" "r_iterations w' = r_iterations w * 10"
    "inputs (w'\<lparr>r_iterations := 0\<rparr>) = inputs (w\<lparr>r_iterations := 0\<rparr>)"
    using h_calibrate_turn[OF 0(1-4)] by blast
  moreover have "h_calibrate F c w' t' (h_time_in_secs F c (ticks 0)) = Some (w', t', h_time_in_secs F c (ticks 0))"
    using 0(7) by (subst h_calibrate.simps) simp
  ultimately show ?case by auto
next
  case (Suc k w t s ticks)
  have "run_ticks c (taken t) 0 = Some (ticks 0)" using Suc.prems(5) by simp
  then obtain w' t' where w': "h_calibrate F c w t s = h_calibrate F c w' t' (h_time_in_secs F c (ticks 0))"
    "list_ready w' xs" "bench_ready w'" "r_iterations w' = r_iterations w * 10" "r_seed3 w' = r_seed3 w"
    "inputs (w'\<lparr>r_iterations := 0\<rparr>) = inputs (w\<lparr>r_iterations := 0\<rparr>)" "taken t' = taken t + 2"
    using h_calibrate_turn[OF Suc.prems(1-4)] by blast
  have shift: "run_ticks c (taken t') j = run_ticks c (taken t) (Suc j)" for j
    by (simp add: run_ticks_def w'(7))
  have "\<exists>w2 t2. h_calibrate F c w' t' (h_time_in_secs F c (ticks 0)) = Some (w2, t2, h_time_in_secs F c (ticks (Suc k)))
    \<and> list_ready w2 xs \<and> bench_ready w2 \<and> r_iterations w2 = r_iterations w' * 10 ^ Suc k
    \<and> inputs (w2\<lparr>r_iterations := 0\<rparr>) = inputs (w'\<lparr>r_iterations := 0\<rparr>)"
  proof (rule Suc.IH)
    show "0 < sint (r_seed3 w')" using Suc.prems(3) w'(5) by simp
    show "dless F (h_time_in_secs F c (ticks 0)) (of_int_d F 1)"
      "\<forall>j<k. dless F (h_time_in_secs F c (ticks (Suc j))) (of_int_d F 1)"
      "\<not> dless F (h_time_in_secs F c (ticks (Suc k))) (of_int_d F 1)"
      using Suc.prems(6,7) by simp_all
    show "\<forall>j\<le>k. run_ticks c (taken t') j = Some (ticks (Suc j))" using Suc.prems(5) by (simp add: shift)
  qed (use w' in simp_all)
  then show ?case using w'(1,4,6) by (auto simp: mult.assoc)
qed

text \<open>C18: On a port with an operating system the calibration ends with the first of its runs that is not
  shorter than a second, the \<open>k\<close>-th after \<open>10 ^ (k + 1)\<close> iterations, and the timed run starts from a
  state that it can run on with a number of iterations for about ten seconds.\<close>

theorem hosted_calibration_ends:
  assumes "list_ready w xs" "bench_ready w" "0 < sint (r_seed3 w)" "r_iterations w = 0"
    "dless F (of_int_d F 0) (of_int_d F 1)" "\<forall>j \<le> k. run_ticks c (taken t) j = Some (ticks j)"
    "\<forall>j < k. dless F (h_time_in_secs F c (ticks j)) (of_int_d F 1)" "\<not> dless F (h_time_in_secs F c (ticks k)) (of_int_d F 1)"
    "double_to_u32 F (h_time_in_secs F c (ticks k)) = Some d"
  shows "\<exists>w' t'. h_set_iterations F c w t = Some (w', t')
    \<and> r_iterations w' = 10 ^ Suc k * (1 + 10 div (if d = 0 then 1 else d))
    \<and> list_ready w' xs \<and> bench_ready w' \<and> inputs (w'\<lparr>r_iterations := 0\<rparr>) = inputs w"
proof -
  let ?w = "w\<lparr>r_iterations := 1\<rparr>"
  have w0: "w\<lparr>r_iterations := 0\<rparr> = w" using assms(4) by (cases w) simp
  obtain w' t' where "h_calibrate F c ?w t (of_int_d F 0) = Some (w', t', h_time_in_secs F c (ticks k))"
    "list_ready w' xs" "bench_ready w'" "r_iterations w' = 10 ^ Suc k"
    "inputs (w'\<lparr>r_iterations := 0\<rparr>) = inputs w"
    using h_calibrate_returns[of ?w xs F "of_int_d F 0" k c t ticks] assms w0 by auto
  then show ?thesis
    using assms(4,9) by (auto simp: h_set_iterations_def Let_def)
qed

theorem hosted_calibration_ends_witness:
  "\<exists>w' t'. h_set_iterations int_ops (processor_clock (\<lambda>n. if n = 3 then 2000000 else 0)) (demo\<lparr>r_iterations := 0\<rparr>)
      \<lparr>start_stamp = 0, stop_stamp = 0, taken = 0\<rparr> = Some (w', t')
    \<and> r_iterations w' = 10 ^ 2 * (1 + 10 div 2) \<and> list_ready w' [0, 1, 2]"
proof -
  let ?c = "processor_clock (\<lambda>n. if n = 3 then 2000000 else 0)" and ?t = "\<lparr>start_stamp = 0, stop_stamp = 0, taken = 0\<rparr> :: int stamps"
  let ?ticks = "\<lambda>j :: nat. if j = 1 then 2000000 else 0 :: int"
  have "\<forall>j \<le> 1. run_ticks ?c (taken ?t) j = Some (?ticks j)"
    by (auto simp: run_ticks_def processor_clock_def MYTIMEDIFF_clock_def int32_def le_Suc_eq)
  moreover have "\<forall>j < 1. dless int_ops (h_time_in_secs int_ops ?c (?ticks j)) (of_int_d int_ops 1)"
    "\<not> dless int_ops (h_time_in_secs int_ops ?c (?ticks 1)) (of_int_d int_ops 1)"
    "double_to_u32 int_ops (h_time_in_secs int_ops ?c (?ticks 1)) = Some 2"
    "dless int_ops (of_int_d int_ops 0) (of_int_d int_ops 1)"
    by (simp_all add: int_ops_def h_time_in_secs_def processor_clock_def double_to_u32_def)
  ultimately show ?thesis
    using hosted_calibration_ends[of "demo\<lparr>r_iterations := 0\<rparr>" "[0, 1, 2]" int_ops 1 ?c ?t ?ticks 2] demo_list demo_ready
    by (auto simp: numeral_2_eq_2)
qed

end
