(* ===== verification/Stats.thy ===== *)
theory Stats
  imports Portme
begin

text \<open>
  The macro \<open>stats\<close> of \<open>util.h\<close>, which runs a piece of code and prints its cycles and instructions.
  The readings of the two counters are parameters, of which the first is taken before the code
  and the second after it; \<open>unsigned long\<close> has 32 bits.  A division by zero is undefined.
\<close>

text \<open>A quotient of two counts, printed with one digit after the point.\<close>

definition tenths :: "ee_u32 \<Rightarrow> ee_u32 \<Rightarrow> (print_arg \<times> print_arg) option" where
  "tenths a b = (if b = 0 then None else Some (PNum (sint (a div b)), PNum (sint (10 * a div b mod 10))))"

definition stats :: "(nat \<Rightarrow> ee_u32) \<Rightarrow> (nat \<Rightarrow> ee_u32) \<Rightarrow> string \<Rightarrow> ('s \<Rightarrow> 's option) \<Rightarrow> ee_u32 \<Rightarrow> int \<Rightarrow> 's
    \<Rightarrow> (print_call list \<times> 's) option" where
  "stats mcycle minstret name code iter cid s =
     do {
       let c = - mcycle 0;
       let i = - minstret 0;
       s' \<leftarrow> code s;
       let c' = c + mcycle 1;
       let i' = i + minstret 1;
       if cid = 0 then do {
         (c1, c2) \<leftarrow> tenths c' iter;
         (p1, p2) \<leftarrow> tenths c' i';
         Some ([(nl @ ''%s: %ld cycles, %ld.%ld cycles/iter, %ld.%ld CPI'' @ nl,
           [PStr name, PNum (sint c'), c1, c2, p1, p2])], s')
       }
       else Some ([], s')
     }"

lemma small_values:
  assumes "n < 2 ^ 31"
  shows "unat (of_nat n :: ee_u32) = n" "sint (of_nat n :: ee_u32) = int n"
proof -
  show "unat (of_nat n :: ee_u32) = n" by (rule unat_of_nat_32) (use assms in simp)
  show "sint (of_nat n :: ee_u32) = int n"
    using assms by (simp add: signed_of_nat signed_take_bit_int_eq_self)
qed

lemma tenths_exact:
  assumes "10 * n < 2 ^ 32" "0 < k" "k < 2 ^ 32"
  shows "tenths (of_nat n) (of_nat k) = Some (PNum (int (n div k)), PNum (int (10 * n div k mod 10)))"
proof -
  have u: "unat (of_nat n :: ee_u32) = n" "unat (of_nat k :: ee_u32) = k" "unat (of_nat (10 * n) :: ee_u32) = 10 * n"
    by (rule unat_of_nat_32, use assms in simp)+
  have small: "n div k < 2 ^ 31" by (rule le_less_trans[OF div_le_dividend]) (use assms(1) in simp)
  have "(of_nat k :: ee_u32) \<noteq> 0" using u(2) assms(2) by (metis unat_0 less_irrefl)
  moreover have "(of_nat n div of_nat k :: ee_u32) = of_nat (n div k)"
    by (rule word_unat_eq_iff [THEN iffD2]) (simp add: unat_div u, rule unat_of_nat_32 [symmetric], use small in simp)
  moreover have "(10 * of_nat n div of_nat k mod 10 :: ee_u32) = of_nat (10 * n div k mod 10)"
  proof (rule word_unat_eq_iff [THEN iffD2])
    have "unat (10 * of_nat n :: ee_u32) = 10 * n" using u(3) by simp
    then have "unat (10 * of_nat n div of_nat k mod 10 :: ee_u32) = 10 * n div k mod 10"
      by (simp add: unat_div unat_mod u(2))
    moreover have "unat (of_nat (10 * n div k mod 10) :: ee_u32) = 10 * n div k mod 10"
      by (rule unat_of_nat_32) (rule less_trans[of _ 10], simp_all)
    ultimately show "unat (10 * of_nat n div of_nat k mod 10 :: ee_u32) = unat (of_nat (10 * n div k mod 10) :: ee_u32)" by simp
  qed
  moreover have "10 * n div k mod 10 < 2 ^ 31" by (rule less_trans[of _ 10]) simp_all
  ultimately show ?thesis using small by (simp add: tenths_def small_values(2))
qed



end
