(* ===== verification/Spec2Isabelle.thy ===== *)
theory Spec2Isabelle
  imports Core_List_Bench Comp1 Comp2 Comp3_Props Util_Props Portme_Props Core_Contexts Report_Print Encoding_Props
    Hosted_Calibration Stats
begin

text \<open>
  The C programs of the RISC-V processor repository: the software that its test bench runs on the
  core, under \<open>src/testcode\<close>.  They are the CoreMark benchmark with its bare-metal port
  (\<open>coremark/source\<close>) and three test programs of the competition (\<open>comp/source\<close>).

  \<^bold>\<open>The machine.\<close>  The target is RV32: \<open>int\<close>, \<open>long\<close> and pointers are 32 bits, \<open>char\<close> is unsigned
  and memory is little-endian.  Unsigned and narrow values are words, on which the operations wrap; a
  signed \<open>int\<close> whose overflow the code could meet is an integer that passes through \<open>int32\<close>, or a word
  read with \<open>sint\<close> where conversions wrap.  What C leaves undefined, an access outside an array, the
  dereference of NULL, a signed overflow, a division by zero, and also a loop that does not end, is
  \<^term>\<open>None\<close>.  So every theorem that a function returns some value says that it ends and stays within
  defined behaviour.  Loops with a bound are \<open>for_count\<close> of \<open>Prelude\<close> or recursions on their measure;
  a loop whose end depends on links, on bytes in memory, on doubles or on the clock is a partial
  function, and the theorems about it show that it returns.  No fuel is used anywhere.

  \<^bold>\<open>CoreMark.\<close>  The main program seeds and lays out one block of memory, builds a linked list, three
  matrices and a text in it, runs the list benchmark, whose items start the matrix and the state
  machine benchmark, and checks a CRC of everything against known values.

  \<^item> \<open>Core_Util\<close>: \<open>core_util.c\<close>, the CRC routines, the seeds, \<open>parseval\<close> and the type checks.  The CRC is
    the shift register of its polynomial and detects a change of one item; numerals are read back.
  \<^item> \<open>Core_State\<close>, \<open>Core_State_Props\<close>: \<open>core_state.c\<close>.  The final state of a token is given by a regular
    language; the initialised block is a sequence of tokens; the benchmark stays in the block, and its
    two corruption passes cancel under an exact condition.
  \<^item> \<open>Core_Matrix\<close>, \<open>Core_Matrix_Props\<close>: \<open>core_matrix.c\<close>.  Each operation is its matrix expression on the
    cells in row order, the product is exact within bounds, the test restores its operands, and the
    initialisation chooses the largest dimension and keeps the three regions apart.
  \<^item> \<open>Coremark\<close>: the structures of \<open>coremark.h\<close>.  A pointer into the list block is the index of a cell.
  \<^item> \<open>Core_List\<close>, \<open>Core_List_Sort\<close>, \<open>Core_List_Props\<close>, \<open>Core_List_Bench\<close>, \<open>Core_List_Init\<close>:
    \<open>core_list_join.c\<close>.  \<open>lseg\<close> relates the links to a HOL list.  The merge sort is verified in the locale
    \<open>list_order\<close>, an extension of \<open>comparison\<close>, which states what it relies on of a comparison function
    that may write to the data; it is interpreted by \<open>cmp_idx\<close> and \<open>cmp_complex\<close>.  Reversal, search,
    removal and its undoing are refined to functions on lists.  The benchmark restores its list, and the
    initialisation builds a list that it can run on.
  \<^item> \<open>Portme\<close>, \<open>Portme_Props\<close>: \<open>core_portme.c\<close> of \<open>riscv-baremetal\<close>.  The readings of the cycle counter are a
    function of how often it was read; system calls are given by their results.  The timer is right
    across a wrap of the counter, and a child process hands its check sums to the parent.
  \<^item> \<open>Core_Main\<close>, \<open>Core_Main_Props\<close>: \<open>core_main.c\<close>.  The theorems compose the parts: iterating returns for
    every number of iterations, the calibration ends once a run takes a second, the whole program
    returns for the seeds and sizes of its run types, and its verdict on this port is wrong in both
    directions, because the seconds of a 32-bit counter never reach the ten that it asks for.
  \<^item> \<open>Core_Contexts\<close>: the other configurations of \<open>core_main.c\<close>, several contexts with blocks from the heap or
    from the stack, run in child processes; for one context the layout is the same.
  \<^item> \<open>Hosted_Main\<close>, \<open>Hosted_Main_Props\<close>, \<open>Hosted_Calibration\<close>: \<open>core_main.c\<close> on the ports with an operating system,
    \<open>linux\<close> (arguments, heap, processes or threads, \<open>clock_gettime\<close>) and \<open>simple\<close> (stack, \<open>clock\<close>), with
    seconds as doubles.  Both programs return for the seeds of the known runs, and their verdict is
    characterised: known seeds are validated if and only if all check sums match and ten seconds have
    passed.  Of the doubles the theorems use only the comparisons that they name.
  \<^item> \<open>Cvt\<close>, \<open>Ee_Printf\<close>, \<open>Ee_Printf_Props\<close>: \<open>cvt.c\<close> and \<open>ee_printf.c\<close> of \<open>barebones\<close>, the formatted output
    for ports without a C library.  Numbers have the documented layout for all flags, \<open>parseval\<close> reads
    back what was printed, strings and the line buffer have exact limits, and the digits of doubles are
    rounded half up.  The operations on doubles are the record \<open>float_ops\<close>, of which no law is assumed.
  \<^item> \<open>Report_Print\<close>: the report of \<open>core_main.c\<close> through this \<open>ee_printf\<close>; a verified bound on the length of
    a line shows that every one fits into its buffer.

  \<^bold>\<open>Other code of the port.\<close>  \<open>Util\<close> and \<open>Util_Props\<close> are \<open>util.h\<close>, with its macro \<open>stats\<close> in \<open>Stats\<close>: the comparison of results, the shift
  register, and the barrier of the cores as an inductive step relation over the accesses to the shared
  variables, with its safety and its progress by rule induction.  \<open>Encoding\<close> and \<open>Encoding_Props\<close> are the
  tables of \<open>encoding.h\<close>: decoding is unambiguous, which a decision tree over the bits of the matches
  certifies, and \<open>insn_len\<close> of \<open>util.h\<close> is compared with the decoded instruction.

  \<^bold>\<open>Test programs.\<close>  \<open>Comp1\<close>, \<open>Comp2\<close>, and \<open>Comp3_Data\<close>, \<open>Comp3\<close>, \<open>Comp3_Props\<close>: \<open>comp1.c\<close> (branches and
  calls), \<open>comp2.c\<close> (least common multiples) and \<open>comp3.c\<close> (a stream of trade messages with its 600 rows
  of data).  Each ends with its success code, and its functions meet their specification.

  \<^bold>\<open>Not modelled.\<close>  The ports for \<open>linux64\<close> and \<open>cygwin\<close> are copies of the one for \<open>linux\<close>, and the port of
  \<open>barebones\<close> is a skeleton that does not compile.  Debug output, the register macros, which are
  single instructions of inline assembly, and the Windows timer are left out, as are the constants of
  \<open>encoding.h\<close> that name single values.  The processor, its caches and its test bench are
  SystemVerilog.
\<close>

end
